(* ===== verification/Prelude.thy ===== *)
theory Prelude
  imports Main "HOL-Library.AList" "HOL-Library.Sublist" "HOL-Library.Multiset" "HOL-Library.Code_Target_Numeral"
begin

text \<open>
  Shared vocabulary of the development: the Rust standard-library operations the components use
  (string slices, integer parsing and printing, saturating arithmetic, \<open>HashMap\<close>, stable sorting),
  and the lemmas about them that the component proofs rest on.

  Strings are Rust \<open>String\<close>s as their UTF-8 bytes: a \<open>string\<close> is a list of 8-bit \<open>char\<close>s, so
  \<open>length\<close> is Rust's \<open>len\<close> and byte-wise prefix, suffix and substring tests are exactly
  \<open>starts_with\<close>, \<open>ends_with\<close> and \<open>contains\<close> (UTF-8 is self-synchronising).  Text outside ASCII is
  written as its bytes.

  Unsigned machine integers are \<open>nat\<close>: the sources only compare, print and parse them, subtract
  with \<open>saturating_sub\<close> (which is subtraction on \<open>nat\<close>) and multiply with \<open>saturating_mul\<close>
  (written out below), and parsing checks the width of the target type.

  A \<open>HashMap\<close> is an association list with distinct keys; the list order stands for the
  unspecified iteration order of the hash table.
\<close>

section \<open>Collections of lemmas\<close>

named_theorems str_simps \<open>rewriting with the string operations\<close>
named_theorems hm_simps \<open>lookups after hash map operations\<close>
named_theorems invs \<open>operations that keep an invariant\<close>

section \<open>Machine integers\<close>

definition u32_max :: nat where
  "u32_max = 4294967295"

definition u64_max :: nat where
  "u64_max = 18446744073709551615"

definition saturating_sub :: "nat \<Rightarrow> nat \<Rightarrow> nat" where
  "saturating_sub a b = a - b"

definition saturating_mul :: "nat \<Rightarrow> nat \<Rightarrow> nat" where
  "saturating_mul a b = min u64_max (a * b)"

definition saturating_add :: "nat \<Rightarrow> nat \<Rightarrow> nat" where
  "saturating_add a b = min u64_max (a + b)"

definition clamp_nat :: "nat \<Rightarrow> nat \<Rightarrow> nat \<Rightarrow> nat" where
  "clamp_nat x lo hi = (if x < lo then lo else if x > hi then hi else x)"

lemma clamp_nat_bounds: "lo \<le> hi \<Longrightarrow> lo \<le> clamp_nat x lo hi \<and> clamp_nat x lo hi \<le> hi"
  by (simp add: clamp_nat_def)

section \<open>String slices\<close>

fun starts_with :: "'a list \<Rightarrow> 'a list \<Rightarrow> bool" where
  "starts_with s [] = True"
| "starts_with [] (p # ps) = False"
| "starts_with (c # s) (p # ps) = (c = p \<and> starts_with s ps)"

fun strip_prefix :: "'a list \<Rightarrow> 'a list \<Rightarrow> 'a list option" where
  "strip_prefix s [] = Some s"
| "strip_prefix [] (p # ps) = None"
| "strip_prefix (c # s) (p # ps) = (if c = p then strip_prefix s ps else None)"

definition ends_with :: "'a list \<Rightarrow> 'a list \<Rightarrow> bool" where
  "ends_with s p = starts_with (rev s) (rev p)"

text \<open>\<open>str::find\<close>: the byte offset of the leftmost occurrence.\<close>

fun find_str :: "'a list \<Rightarrow> 'a list \<Rightarrow> nat option" where
  "find_str [] p = (if p = [] then Some 0 else None)"
| "find_str (c # s) p =
     (if starts_with (c # s) p then Some 0 else map_option Suc (find_str s p))"

definition contains :: "'a list \<Rightarrow> 'a list \<Rightarrow> bool" where
  "contains s p = (find_str s p \<noteq> None)"

text \<open>\<open>str::split\<close> on a character: one piece more than there are separators.\<close>

fun split_char :: "'a \<Rightarrow> 'a list \<Rightarrow> 'a list list" where
  "split_char c [] = [[]]"
| "split_char c (x # xs) =
     (if x = c then [] # split_char c xs
      else (case split_char c xs of [] \<Rightarrow> [[x]] | p # ps \<Rightarrow> (x # p) # ps))"

text \<open>\<open>str::split\<close> on a non-empty separator: leftmost matches, not overlapping.\<close>

function split_str :: "'a list \<Rightarrow> 'a list \<Rightarrow> 'a list list" where
  "split_str sep s =
     (case (if sep = [] then None else find_str s sep) of
        None \<Rightarrow> [s]
      | Some i \<Rightarrow> take i s # split_str sep (drop (i + length sep) s))"
  by pat_completeness auto

lemma starts_with_prefix: "starts_with s p \<longleftrightarrow> prefix p s"
  by (induction s p rule: starts_with.induct) auto

lemma starts_with_append_iff: "starts_with s p \<longleftrightarrow> (\<exists>t. s = p @ t)"
  by (simp add: starts_with_prefix prefix_def)

lemma starts_with_append [simp]: "starts_with (p @ t) p"
  by (auto simp: starts_with_append_iff)

lemma strip_prefix_Some_iff: "strip_prefix s p = Some t \<longleftrightarrow> s = p @ t"
  by (induction s p rule: strip_prefix.induct) auto

lemma strip_prefix_append [simp]: "strip_prefix (p @ t) p = Some t"
  by (simp add: strip_prefix_Some_iff)

lemma strip_prefix_None_iff: "strip_prefix s p = None \<longleftrightarrow> \<not> starts_with s p"
  by (induction s p rule: strip_prefix.induct) auto

lemma ends_with_suffix: "ends_with s p \<longleftrightarrow> suffix p s"
  by (simp add: ends_with_def starts_with_prefix suffix_to_prefix)

lemma ends_with_append_iff: "ends_with s p \<longleftrightarrow> (\<exists>t. s = t @ p)"
  by (simp add: ends_with_suffix suffix_def)

lemma find_str_SomeD:
  "find_str s p = Some i \<Longrightarrow> \<exists>t. s = take i s @ p @ t \<and> i + length p \<le> length s"
proof (induction s arbitrary: i)
  case Nil
  then show ?case by (auto split: if_splits)
next
  case (Cons c s)
  show ?case
  proof (cases "starts_with (c # s) p")
    case True
    with Cons.prems obtain t where "i = 0" "c # s = p @ t"
      by (auto simp: starts_with_append_iff)
    then show ?thesis by (metis append_Nil le_add1 length_append plus_nat.add_0 take0)
  next
    case False
    with Cons.prems obtain j where j: "i = Suc j" "find_str s p = Some j" by auto
    from Cons.IH [OF j(2)] j(1) show ?thesis by auto
  qed
qed

text \<open>The found offset is the leftmost one.\<close>

lemma find_str_least: "s = u @ p @ t \<Longrightarrow> \<exists>i. find_str s p = Some i \<and> i \<le> length u"
proof (induction s arbitrary: u)
  case Nil
  then show ?case by simp
next
  case (Cons c s)
  show ?case
  proof (cases "starts_with (c # s) p")
    case True
    then show ?thesis by simp
  next
    case False
    with Cons.prems obtain u' where u: "u = c # u'" "s = u' @ p @ t"
      by (cases u) (auto simp: starts_with_append_iff)
    from Cons.IH [OF u(2)] False u(1) show ?thesis by auto
  qed
qed

termination split_str
proof (relation "measure (\<lambda>(sep, s). length s)")
  fix sep s :: "'a list" and i
  assume "(if sep = [] then None else find_str s sep) = Some i"
  then have "sep \<noteq> []" "find_str s sep = Some i" by (auto split: if_splits)
  with find_str_SomeD[of s sep i] show "((sep, drop (i + length sep) s), sep, s) \<in> measure (\<lambda>(sep, s). length s)"
    by (cases s; cases sep) auto
qed simp

declare split_str.simps [simp del]

lemma contains_iff: "contains s p \<longleftrightarrow> (\<exists>u t. s = u @ p @ t)"
proof
  assume "contains s p"
  then obtain i where "find_str s p = Some i" by (auto simp: contains_def)
  then show "\<exists>u t. s = u @ p @ t" by (blast dest: find_str_SomeD)
next
  assume "\<exists>u t. s = u @ p @ t"
  then show "contains s p" using find_str_least by (fastforce simp: contains_def)
qed

lemma contains_sublist: "contains s p \<longleftrightarrow> sublist p s"
  by (simp add: contains_iff sublist_def)

lemma starts_with_contains: "starts_with s p \<Longrightarrow> contains s p"
  by (metis append_Nil contains_iff starts_with_append_iff)

lemma split_char_nonempty [simp]: "split_char c xs \<noteq> []"
  by (cases xs) (auto split: list.splits)

lemma split_char_no_sep: "p \<in> set (split_char c xs) \<Longrightarrow> c \<notin> set p"
  by (induction xs arbitrary: p) (auto split: list.splits if_splits)

lemma split_char_plain: "c \<notin> set xs \<Longrightarrow> split_char c xs = [xs]"
  by (induction xs) auto

lemma split_char_append:
  "c \<notin> set xs \<Longrightarrow> split_char c (xs @ c # ys) = xs # split_char c ys"
  by (induction xs) (auto split: list.splits)

text \<open>Joining the pieces with the separator gives the text back.\<close>

fun join_char :: "'a \<Rightarrow> 'a list list \<Rightarrow> 'a list" where
  "join_char c [] = []"
| "join_char c [p] = p"
| "join_char c (p # q # ps) = p @ c # join_char c (q # ps)"

lemma join_char_Cons: "ps \<noteq> [] \<Longrightarrow> join_char c (p # ps) = p @ c # join_char c ps"
  by (cases ps) auto

lemma join_split_char: "join_char c (split_char c xs) = xs"
proof (induction xs)
  case Nil
  then show ?case by simp
next
  case (Cons x xs)
  obtain p ps where "split_char c xs = p # ps" by (cases "split_char c xs") auto
  with Cons show ?case
    by (cases ps) (auto simp: join_char_Cons)
qed

section \<open>Trimming\<close>

text \<open>
  \<open>str::trim\<close> removes leading and trailing Unicode white space.  The table lists the UTF-8 encodings
  of the characters with the White_Space property.
\<close>

definition ws_encodings :: "string list" where
  "ws_encodings =
     [[CHR 0x09], [CHR 0x0A], [CHR 0x0B], [CHR 0x0C], [CHR 0x0D], [CHR 0x20],
      [CHR 0xC2, CHR 0x85], [CHR 0xC2, CHR 0xA0], [CHR 0xE1, CHR 0x9A, CHR 0x80],
      [CHR 0xE2, CHR 0x80, CHR 0x80], [CHR 0xE2, CHR 0x80, CHR 0x81],
      [CHR 0xE2, CHR 0x80, CHR 0x82], [CHR 0xE2, CHR 0x80, CHR 0x83],
      [CHR 0xE2, CHR 0x80, CHR 0x84], [CHR 0xE2, CHR 0x80, CHR 0x85],
      [CHR 0xE2, CHR 0x80, CHR 0x86], [CHR 0xE2, CHR 0x80, CHR 0x87],
      [CHR 0xE2, CHR 0x80, CHR 0x88], [CHR 0xE2, CHR 0x80, CHR 0x89],
      [CHR 0xE2, CHR 0x80, CHR 0x8A], [CHR 0xE2, CHR 0x80, CHR 0xA8],
      [CHR 0xE2, CHR 0x80, CHR 0xA9], [CHR 0xE2, CHR 0x80, CHR 0xAF],
      [CHR 0xE2, CHR 0x81, CHR 0x9F], [CHR 0xE3, CHR 0x80, CHR 0x80]]"

function trim_front :: "'a list list \<Rightarrow> 'a list \<Rightarrow> 'a list" where
  "trim_front ws s =
     (case find (\<lambda>w. w \<noteq> [] \<and> starts_with s w) ws of
        None \<Rightarrow> s
      | Some w \<Rightarrow> trim_front ws (drop (length w) s))"
  by pat_completeness auto
termination
  by (relation "measure (\<lambda>(ws, s). length s)")
     (auto simp: find_Some_iff starts_with_append_iff)

declare trim_front.simps [simp del]

definition trim_start :: "string \<Rightarrow> string" where
  "trim_start s = trim_front ws_encodings s"

definition trim_end :: "string \<Rightarrow> string" where
  "trim_end s = rev (trim_front (map rev ws_encodings) (rev s))"

definition trim :: "string \<Rightarrow> string" where
  "trim s = trim_end (trim_start s)"

lemma trim_front_idem: "trim_front ws (trim_front ws s) = trim_front ws s"
proof (induction ws s rule: trim_front.induct)
  case (1 ws s)
  show ?case
  proof (cases "find (\<lambda>w. w \<noteq> [] \<and> starts_with s w) ws")
    case None
    then show ?thesis by (simp add: trim_front.simps [of ws s])
  next
    case (Some w)
    with 1 show ?thesis by (simp add: trim_front.simps [of ws s])
  qed
qed

lemma trim_front_suffix: "suffix (trim_front ws s) s"
proof (induction ws s rule: trim_front.induct)
  case (1 ws s)
  show ?case
  proof (cases "find (\<lambda>w. w \<noteq> [] \<and> starts_with s w) ws")
    case None
    then show ?thesis by (simp add: trim_front.simps [of ws s])
  next
    case (Some w)
    with 1 have "suffix (trim_front ws (drop (length w) s)) (drop (length w) s)" by simp
    with Some show ?thesis
      by (simp add: trim_front.simps [of ws s]) (meson suffix_drop suffix_order.trans)
  qed
qed

lemma trim_end_idem: "trim_end (trim_end s) = trim_end s"
  by (simp add: trim_end_def trim_front_idem)

lemma trim_Nil [simp]: "trim [] = []"
  by (simp add: trim_def trim_start_def trim_end_def trim_front.simps ws_encodings_def)

lemma trim_sublist: "sublist (trim s) s"
proof -
  have "suffix (trim_start s) s"
    by (simp add: trim_start_def trim_front_suffix)
  moreover have "prefix (trim s) (trim_start s)"
    unfolding trim_def trim_end_def
    by (metis rev_rev_ident suffix_to_prefix trim_front_suffix)
  ultimately show ?thesis
    by (meson prefix_imp_sublist sublist_order.order_trans suffix_imp_sublist)
qed

section \<open>Decimal integers\<close>

definition digit_char :: "nat \<Rightarrow> char" where
  "digit_char d = char_of (48 + d)"

definition is_digit :: "char \<Rightarrow> bool" where
  "is_digit c = (48 \<le> (of_char c :: nat) \<and> (of_char c :: nat) \<le> 57)"

definition digit_val :: "char \<Rightarrow> nat" where
  "digit_val c = of_char c - 48"

text \<open>\<open>to_string\<close> of an unsigned integer.\<close>

fun show_nat :: "nat \<Rightarrow> string" where
  "show_nat n =
     (if n < 10 then [digit_char n] else show_nat (n div 10) @ [digit_char (n mod 10)])"

declare show_nat.simps [simp del]

definition digits_val :: "string \<Rightarrow> nat" where
  "digits_val ds = foldl (\<lambda>n c. 10 * n + digit_val c) 0 ds"

text \<open>
  \<open>parse\<close> for an unsigned type with maximum \<open>m\<close>: an optional plus sign, at least one digit, nothing
  else, and no overflow.
\<close>

definition parse_uint :: "nat \<Rightarrow> string \<Rightarrow> nat option" where
  "parse_uint m s =
     (let ds = (if starts_with s ''+'' then tl s else s) in
      if ds = [] \<or> \<not> list_all is_digit ds then None
      else if digits_val ds \<le> m then Some (digits_val ds) else None)"

lemma of_char_digit_char: "d < 10 \<Longrightarrow> (of_char (digit_char d) :: nat) = 48 + d"
  by (simp add: digit_char_def)

lemma is_digit_char [simp]: "d < 10 \<Longrightarrow> is_digit (digit_char d)"
  by (simp add: is_digit_def of_char_digit_char)

lemma digit_val_char [simp]: "d < 10 \<Longrightarrow> digit_val (digit_char d) = d"
  by (simp add: digit_val_def of_char_digit_char)

lemma digits_val_snoc [simp]: "digits_val (ds @ [c]) = 10 * digits_val ds + digit_val c"
  by (simp add: digits_val_def)

lemma show_nat_nonempty [simp]: "show_nat n \<noteq> []"
  by (subst show_nat.simps) simp

lemma show_nat_digits: "list_all is_digit (show_nat n)"
proof (induction n rule: show_nat.induct)
  case (1 n)
  then show ?case by (subst show_nat.simps) auto
qed

lemma digits_val_show_nat [simp]: "digits_val (show_nat n) = n"
proof (induction n rule: show_nat.induct)
  case (1 n)
  then show ?case by (subst show_nat.simps) (auto simp: digits_val_def)
qed

lemma show_nat_inject: "show_nat m = show_nat n \<longleftrightarrow> m = n"
  by (metis digits_val_show_nat)

lemma show_nat_not_sign: "\<not> starts_with (show_nat n) ''+''"
proof -
  obtain c cs where c: "show_nat n = c # cs" by (cases "show_nat n") auto
  with show_nat_digits [of n] have "is_digit c" by simp
  then have "c \<noteq> CHR ''+''" by (auto simp: is_digit_def)
  with c show ?thesis by simp
qed

lemma show_nat_no_char: "\<not> is_digit c \<Longrightarrow> c \<notin> set (show_nat n)"
  using show_nat_digits [of n] by (auto simp: list_all_iff)

text \<open>Printing and parsing are inverse within the width of the target type.\<close>

lemma parse_show_nat: "n \<le> m \<Longrightarrow> parse_uint m (show_nat n) = Some n"
  by (simp add: parse_uint_def show_nat_not_sign show_nat_digits)

lemma parse_uint_le: "parse_uint m s = Some n \<Longrightarrow> n \<le> m"
  by (auto simp: parse_uint_def Let_def split: if_splits)

section \<open>Hash maps\<close>

type_synonym ('k, 'v) hashmap = "('k \<times> 'v) list"

definition hm_get :: "('k, 'v) hashmap \<Rightarrow> 'k \<Rightarrow> 'v option" where
  "hm_get m k = map_of m k"

definition hm_contains :: "('k, 'v) hashmap \<Rightarrow> 'k \<Rightarrow> bool" where
  "hm_contains m k = (hm_get m k \<noteq> None)"

definition hm_insert :: "'k \<Rightarrow> 'v \<Rightarrow> ('k, 'v) hashmap \<Rightarrow> ('k, 'v) hashmap" where
  "hm_insert k v m = AList.update k v m"

definition hm_remove :: "'k \<Rightarrow> ('k, 'v) hashmap \<Rightarrow> ('k, 'v) hashmap" where
  "hm_remove k m = AList.delete k m"

definition hm_retain :: "('k \<Rightarrow> 'v \<Rightarrow> bool) \<Rightarrow> ('k, 'v) hashmap \<Rightarrow> ('k, 'v) hashmap" where
  "hm_retain P m = filter (\<lambda>(k, v). P k v) m"

definition hm_values :: "('k, 'v) hashmap \<Rightarrow> 'v list" where
  "hm_values m = map snd m"

definition hm_wf :: "('k, 'v) hashmap \<Rightarrow> bool" where
  "hm_wf m = distinct (map fst m)"

text \<open>
  The contract of \<open>std::collections::HashMap\<close> the components rely on: what a lookup returns after each
  operation, and that every operation keeps the keys distinct.
\<close>

locale hash_map =
  fixes get :: "'m \<Rightarrow> 'k \<Rightarrow> 'v option"
    and insert_kv :: "'k \<Rightarrow> 'v \<Rightarrow> 'm \<Rightarrow> 'm"
    and remove_k :: "'k \<Rightarrow> 'm \<Rightarrow> 'm"
    and retain :: "('k \<Rightarrow> 'v \<Rightarrow> bool) \<Rightarrow> 'm \<Rightarrow> 'm"
    and vals :: "'m \<Rightarrow> 'v list"
    and wf_map :: "'m \<Rightarrow> bool"
  assumes get_insert: "get (insert_kv k v m) k' = (if k' = k then Some v else get m k')"
    and get_remove: "get (remove_k k m) k' = (if k' = k then None else get m k')"
    and get_retain: "wf_map m \<Longrightarrow>
      get (retain P m) k = (case get m k of None \<Rightarrow> None | Some v \<Rightarrow> if P k v then Some v else None)"
    and set_vals: "wf_map m \<Longrightarrow> set (vals m) = {v. \<exists>k. get m k = Some v}"
    and wf_insert: "wf_map m \<Longrightarrow> wf_map (insert_kv k v m)"
    and wf_remove: "wf_map m \<Longrightarrow> wf_map (remove_k k m)"
    and wf_retain: "wf_map m \<Longrightarrow> wf_map (retain P m)"
begin

lemma get_retain_Some_iff:
  "wf_map m \<Longrightarrow> get (retain P m) k = Some v \<longleftrightarrow> get m k = Some v \<and> P k v"
  by (auto simp: get_retain split: option.splits)

lemma get_insert_retain:
  "wf_map m \<Longrightarrow> get (insert_kv k v (retain P m)) k' = Some v' \<longleftrightarrow>
     (k' = k \<and> v' = v) \<or> (k' \<noteq> k \<and> get m k' = Some v' \<and> P k' v')"
  by (auto simp: get_insert get_retain_Some_iff)

lemma ex_vals_insert:
  "wf_map m \<Longrightarrow> (\<exists>x\<in>set (vals (insert_kv k v m)). Q x) \<longleftrightarrow>
     Q v \<or> (\<exists>k' x. k' \<noteq> k \<and> get m k' = Some x \<and> Q x)"
  by (auto simp: set_vals wf_insert get_insert split: if_splits)

end

lemma hm_get_Nil [simp]: "hm_get [] k = None"
  by (simp add: hm_get_def)

lemma hm_wf_Nil [simp]: "hm_wf []"
  by (simp add: hm_wf_def)

lemma hm_get_retain:
  "hm_wf m \<Longrightarrow>
     hm_get (hm_retain P m) k = (case hm_get m k of None \<Rightarrow> None | Some v \<Rightarrow> if P k v then Some v else None)"
  by (induction m) (auto simp: hm_get_def hm_retain_def hm_wf_def map_of_eq_None_iff split: option.splits)

lemma set_hm_values: "hm_wf m \<Longrightarrow> set (hm_values m) = {v. \<exists>k. hm_get m k = Some v}"
  by (force simp: hm_values_def hm_get_def hm_wf_def map_of_eq_Some_iff)

interpretation hm: hash_map hm_get hm_insert hm_remove hm_retain hm_values hm_wf
proof unfold_locales
  show "hm_get (hm_insert k v m) k' = (if k' = k then Some v else hm_get m k')"
    for k k' and v :: 'v and m
    by (simp add: hm_get_def hm_insert_def update_conv')
  show "hm_get (hm_remove k m) k' = (if k' = k then None else hm_get m k')"
    for k k' and m :: "('k, 'v) hashmap"
    by (simp add: hm_get_def hm_remove_def delete_conv')
  show "hm_wf m \<Longrightarrow> hm_get (hm_retain P m) k =
      (case hm_get m k of None \<Rightarrow> None | Some v \<Rightarrow> if P k v then Some v else None)"
    for m :: "('k, 'v) hashmap" and P k
    by (rule hm_get_retain)
  show "hm_wf m \<Longrightarrow> set (hm_values m) = {v. \<exists>k. hm_get m k = Some v}" for m :: "('k, 'v) hashmap"
    by (rule set_hm_values)
  show "hm_wf m \<Longrightarrow> hm_wf (hm_insert k v m)" for m :: "('k, 'v) hashmap" and k v
    by (simp add: hm_wf_def hm_insert_def distinct_update)
  show "hm_wf m \<Longrightarrow> hm_wf (hm_remove k m)" for m :: "('k, 'v) hashmap" and k
    by (simp add: hm_wf_def hm_remove_def distinct_delete)
  show "hm_wf m \<Longrightarrow> hm_wf (hm_retain P m)" for m :: "('k, 'v) hashmap" and P
    by (simp add: hm_wf_def hm_retain_def distinct_map_filter)
qed

lemmas hm_get_insert [hm_simps] = hm.get_insert
lemmas hm_get_remove [hm_simps] = hm.get_remove
lemmas hm_get_retain_Some [hm_simps] = hm.get_retain_Some_iff
lemmas hm_wf_ops [invs] = hm.wf_insert hm.wf_remove hm.wf_retain

lemma hm_contains_insert [hm_simps]:
  "hm_contains (hm_insert k v m) k' \<longleftrightarrow> k' = k \<or> hm_contains m k'"
  by (simp add: hm_contains_def hm.get_insert)

lemma hm_contains_remove [hm_simps]:
  "hm_contains (hm_remove k m) k' \<longleftrightarrow> k' \<noteq> k \<and> hm_contains m k'"
  by (simp add: hm_contains_def hm.get_remove)

text \<open>Removing a list of keys, one after another.\<close>

lemma hm_get_remove_list:
  "hm_get (fold hm_remove ks m) k = (if k \<in> set ks then None else hm_get m k)"
  by (induction ks arbitrary: m) (auto simp: hm.get_remove)

lemma hm_wf_remove_list: "hm_wf m \<Longrightarrow> hm_wf (fold hm_remove ks m)"
  by (induction ks arbitrary: m) (auto intro: hm.wf_remove)

section \<open>Runs and their invariants\<close>

text \<open>
  A component that consumes a stream of inputs: if every admissible input keeps the invariant, so does
  every run.
\<close>

locale step_invariant =
  fixes step :: "'e \<Rightarrow> 's \<Rightarrow> 's"
    and admissible :: "'e \<Rightarrow> bool"
    and inv :: "'s \<Rightarrow> bool"
  assumes step_inv: "admissible e \<Longrightarrow> inv s \<Longrightarrow> inv (step e s)"
begin

lemma run_inv: "list_all admissible es \<Longrightarrow> inv s \<Longrightarrow> inv (fold step es s)"
  by (induction es arbitrary: s) (auto intro: step_inv)

end

section \<open>Rate gates\<close>

text \<open>
  Several components let an action through at most once per key in a period: a map from key to the
  time of the last action, consulted and updated in one step.  The contract and what follows from it
  for a whole run; the clock need not be monotone.
\<close>

fun gate_run :: "('k \<Rightarrow> nat \<Rightarrow> 's \<Rightarrow> bool \<times> 's) \<Rightarrow> ('k \<times> nat) list \<Rightarrow> 's \<Rightarrow> ('k \<times> nat) list \<times> 's" where
  "gate_run attempt [] s = ([], s)"
| "gate_run attempt ((k, t) # xs) s =
     (let (ok, s1) = attempt k t s; (acc, s2) = gate_run attempt xs s1
      in (if ok then (k, t) # acc else acc, s2))"

lemma gate_run_append:
  "gate_run attempt (xs @ ys) s =
     (let (a, s1) = gate_run attempt xs s; (b, s2) = gate_run attempt ys s1 in (a @ b, s2))"
  by (induction attempt xs s rule: gate_run.induct) (auto split: prod.splits)

locale rate_gate =
  fixes attempt :: "'k \<Rightarrow> nat \<Rightarrow> 's \<Rightarrow> bool \<times> 's"
    and last_of :: "'s \<Rightarrow> 'k \<Rightarrow> nat option"
    and gap :: nat
  assumes pass_updates:
      "attempt k t s = (True, s') \<Longrightarrow> last_of s' k' = (if k' = k then Some t else last_of s k')"
    and pass_gap: "attempt k t s = (True, s') \<Longrightarrow> last_of s k = Some l \<Longrightarrow> gap \<le> t - l"
    and refuse_keeps: "attempt k t s = (False, s') \<Longrightarrow> last_of s' k' = last_of s k'"
    and gap_pos: "0 < gap"
begin

lemma pass_later:
  "attempt k t s = (True, s') \<Longrightarrow> last_of s k = Some l \<Longrightarrow> l + gap \<le> t"
  using pass_gap [of k t s s' l] gap_pos by linarith

lemma passed_after_last:
  "gate_run attempt xs s = (acc, s') \<Longrightarrow> last_of s k = Some l \<Longrightarrow> (k, t) \<in> set acc \<Longrightarrow> l + gap \<le> t"
proof (induction xs arbitrary: s acc l)
  case Nil
  then show ?case by simp
next
  case (Cons x xs)
  obtain k' t' where x: "x = (k', t')" by (cases x)
  obtain ok s1 where at: "attempt k' t' s = (ok, s1)" by (cases "attempt k' t' s")
  obtain acc1 where r: "gate_run attempt xs s1 = (acc1, s')"
      and acc: "acc = (if ok then (k', t') # acc1 else acc1)"
    using Cons.prems(1) by (auto simp: x at split: prod.splits)
  show ?case
  proof (cases ok)
    case False
    with at acc r Cons.prems Cons.IH [OF r] show ?thesis
      by (simp add: refuse_keeps)
  next
    case True
    with at have at': "attempt k' t' s = (True, s1)" by simp
    show ?thesis
    proof (cases "k' = k")
      case True
      have le: "l + gap \<le> t'" using pass_later [OF at'] Cons.prems(2) True by simp
      have "last_of s1 k = Some t'" using pass_updates [OF at'] True by simp
      from Cons.IH [OF r this] le acc Cons.prems(3) show ?thesis
        by (auto split: if_splits)
    next
      case False
      then have "last_of s1 k = Some l" using pass_updates [OF at'] Cons.prems(2) by simp
      from Cons.IH [OF r this] acc Cons.prems(3) False show ?thesis
        by (auto split: if_splits)
    qed
  qed
qed

text \<open>Two passes of the same key are at least the gap apart.\<close>

lemma passed_spaced:
  "gate_run attempt xs s = (acc, s') \<Longrightarrow>
     sorted_wrt (\<lambda>p q. fst p = fst q \<longrightarrow> snd p + gap \<le> snd q) acc"
proof (induction xs arbitrary: s acc)
  case Nil
  then show ?case by simp
next
  case (Cons x xs)
  obtain k t where x: "x = (k, t)" by (cases x)
  obtain ok s1 where at: "attempt k t s = (ok, s1)" by (cases "attempt k t s")
  obtain acc1 where r: "gate_run attempt xs s1 = (acc1, s')"
      and acc: "acc = (if ok then (k, t) # acc1 else acc1)"
    using Cons.prems by (auto simp: x at split: prod.splits)
  have "t + gap \<le> snd q" if "ok" "q \<in> set acc1" "fst q = k" for q
    using passed_after_last [OF r, of k t "snd q"] pass_updates [of k t s s1 k] at that by auto
  with Cons.IH [OF r] acc show ?case by auto
qed

end

text \<open>The gate over a hash map.\<close>

definition hm_gate :: "nat \<Rightarrow> 'k \<Rightarrow> nat \<Rightarrow> ('k, nat) hashmap \<Rightarrow> bool \<times> ('k, nat) hashmap" where
  "hm_gate gap k t m =
     (case hm_get m k of
        None \<Rightarrow> (True, hm_insert k t m)
      | Some l \<Rightarrow> if saturating_sub t l < gap then (False, m) else (True, hm_insert k t m))"

lemma hm_gate_rate_gate: "0 < gap \<Longrightarrow> rate_gate (hm_gate gap) hm_get gap"
  by unfold_locales (auto simp: hm_gate_def saturating_sub_def hm.get_insert split: option.splits if_splits)

section \<open>Sorting\<close>

text \<open>\<open>slice::sort_by_key\<close> is stable, as \<open>sort_key\<close> is; the descending variant negates the key.\<close>

definition sort_desc :: "('a \<Rightarrow> nat) \<Rightarrow> 'a list \<Rightarrow> 'a list" where
  "sort_desc f xs = sort_key (\<lambda>x. - int (f x)) xs"

lemma mset_sort_desc [simp]: "mset (sort_desc f xs) = mset xs"
  by (simp add: sort_desc_def)

lemma set_sort_desc [simp]: "set (sort_desc f xs) = set xs"
  by (simp add: sort_desc_def)

lemma length_sort_desc [simp]: "length (sort_desc f xs) = length xs"
  by (simp add: sort_desc_def)

lemma distinct_map_sort_desc: "distinct (map g (sort_desc f xs)) \<longleftrightarrow> distinct (map g xs)"
  by (metis mset_map mset_sort_desc mset_eq_imp_distinct_iff)

lemma sorted_sort_desc: "sorted_wrt (\<lambda>x y. f y \<le> f x) (sort_desc f xs)"
proof -
  have "sorted (map (\<lambda>x. - int (f x)) (sort_desc f xs))"
    by (simp add: sort_desc_def)
  then show ?thesis by (simp add: sorted_map)
qed

lemma sort_desc_stable:
  "filter (\<lambda>x. f x = k) (sort_desc f xs) = filter (\<lambda>x. f x = k) xs"
proof -
  have "filter (\<lambda>x. - int (f x) = - int k) (sort_desc f xs) = filter (\<lambda>x. - int (f x) = - int k) xs"
    unfolding sort_desc_def by (rule sort_key_stable)
  then show ?thesis by simp
qed

end
