(* ===== verification/F64.thy ===== *)
theory F64
  imports Prelude Complex_Main "HOL-Library.Log_Nat"
begin

text \<open>
  Rust's \<open>f64\<close> as the sources use it: parsing from text, comparison, the four operations, conversion
  from an integer and printing with \<open>to_string\<close>.  A finite value is its sign bit and the rational it
  denotes; every operation computes the exact result and rounds it once, to the nearest
  representable number with ties to even (\<open>round_f64\<close>), as IEEE 754 binary64 does.
\<close>

section \<open>Values and rounding\<close>

datatype f64 = NaN | Infty bool | Fin bool rat

text \<open>Powers of a base with an integer exponent, by cases so that they compute.\<close>

definition pow_int :: "rat \<Rightarrow> int \<Rightarrow> rat" where
  "pow_int b k = (if 0 \<le> k then b ^ nat k else 1 / b ^ nat (- k))"

text \<open>The exponent \<open>e\<close> with \<open>2^e \<le> q < 2^(e+1)\<close>, for a positive rational.\<close>

definition ilog2 :: "rat \<Rightarrow> int" where
  "ilog2 q =
     (let (a, b) = quotient_of q; e = bitlen a - bitlen b
      in if pow_int 2 e \<le> q then e else e - 1)"

definition round_half_even :: "rat \<Rightarrow> int" where
  "round_half_even q =
     (let f = \<lfloor>q\<rfloor>; r = q - of_int f
      in if r < 1 / 2 then f else if 1 / 2 < r then f + 1 else if even f then f else f + 1)"

text \<open>
  The exponent of the last place (at least that of the subnormals), and rounding to a multiple of
  it.  The result overflows exactly when it reaches \<open>2^1024 = 2^53 * 2^971\<close>.
\<close>

definition f64_quantum :: "rat \<Rightarrow> int" where
  "f64_quantum q = max (ilog2 q - 52) (- 1074)"

definition round_f64 :: "bool \<Rightarrow> rat \<Rightarrow> f64" where
  "round_f64 s q =
     (if q = 0 then Fin s 0
      else (let k = f64_quantum q; m = round_half_even (q / pow_int 2 k)
            in if 971 < k \<or> (k = 971 \<and> 9007199254740992 \<le> m) then Infty s
               else Fin s (of_int m * pow_int 2 k)))"

section \<open>Comparison and arithmetic\<close>

fun f64_val :: "f64 \<Rightarrow> rat" where
  "f64_val (Fin s q) = (if s then - q else q)"
| "f64_val _ = 0"

fun f64_lt :: "f64 \<Rightarrow> f64 \<Rightarrow> bool" where
  "f64_lt NaN _ = False"
| "f64_lt _ NaN = False"
| "f64_lt (Infty s) (Infty t) = (s \<and> \<not> t)"
| "f64_lt (Infty s) (Fin _ _) = s"
| "f64_lt (Fin _ _) (Infty t) = (\<not> t)"
| "f64_lt (Fin s q) (Fin t r) = (f64_val (Fin s q) < f64_val (Fin t r))"

fun f64_eq :: "f64 \<Rightarrow> f64 \<Rightarrow> bool" where
  "f64_eq (Infty s) (Infty t) = (s = t)"
| "f64_eq (Fin s q) (Fin t r) = (f64_val (Fin s q) = f64_val (Fin t r))"
| "f64_eq _ _ = False"

definition f64_le :: "f64 \<Rightarrow> f64 \<Rightarrow> bool" where
  "f64_le a b = (f64_lt a b \<or> f64_eq a b)"

fun f64_neg :: "f64 \<Rightarrow> f64" where
  "f64_neg NaN = NaN"
| "f64_neg (Infty s) = Infty (\<not> s)"
| "f64_neg (Fin s q) = Fin (\<not> s) q"

fun f64_abs :: "f64 \<Rightarrow> f64" where
  "f64_abs NaN = NaN"
| "f64_abs (Infty s) = Infty False"
| "f64_abs (Fin s q) = Fin False q"

text \<open>Rounding a signed rational; an exact zero takes the given sign.\<close>

definition round_signed :: "bool \<Rightarrow> rat \<Rightarrow> f64" where
  "round_signed z q = (if q = 0 then Fin z 0 else round_f64 (q < 0) \<bar>q\<bar>)"

fun f64_add :: "f64 \<Rightarrow> f64 \<Rightarrow> f64" where
  "f64_add NaN _ = NaN"
| "f64_add _ NaN = NaN"
| "f64_add (Infty s) (Infty t) = (if s = t then Infty s else NaN)"
| "f64_add (Infty s) (Fin _ _) = Infty s"
| "f64_add (Fin _ _) (Infty t) = Infty t"
| "f64_add (Fin s q) (Fin t r) =
     round_signed (s \<and> t) (f64_val (Fin s q) + f64_val (Fin t r))"

definition f64_sub :: "f64 \<Rightarrow> f64 \<Rightarrow> f64" where
  "f64_sub a b = f64_add a (f64_neg b)"

fun f64_mul :: "f64 \<Rightarrow> f64 \<Rightarrow> f64" where
  "f64_mul NaN _ = NaN"
| "f64_mul _ NaN = NaN"
| "f64_mul (Infty s) (Infty t) = Infty (s \<noteq> t)"
| "f64_mul (Infty s) (Fin t r) = (if r = 0 then NaN else Infty (s \<noteq> t))"
| "f64_mul (Fin s q) (Infty t) = (if q = 0 then NaN else Infty (s \<noteq> t))"
| "f64_mul (Fin s q) (Fin t r) = round_f64 (s \<noteq> t) (q * r)"

fun f64_div :: "f64 \<Rightarrow> f64 \<Rightarrow> f64" where
  "f64_div NaN _ = NaN"
| "f64_div _ NaN = NaN"
| "f64_div (Infty s) (Infty t) = NaN"
| "f64_div (Infty s) (Fin t r) = Infty (s \<noteq> t)"
| "f64_div (Fin s q) (Infty t) = Fin (s \<noteq> t) 0"
| "f64_div (Fin s q) (Fin t r) =
     (if r = 0 then (if q = 0 then NaN else Infty (s \<noteq> t)) else round_f64 (s \<noteq> t) (q / r))"

text \<open>\<open>n as f64\<close>.\<close>

definition f64_of_nat :: "nat \<Rightarrow> f64" where
  "f64_of_nat n = round_f64 False (of_nat n)"

text \<open>\<open>Iterator::sum\<close> folds from zero.\<close>

definition f64_sum :: "f64 list \<Rightarrow> f64" where
  "f64_sum xs = foldl f64_add (Fin False 0) xs"

definition f64_clamp :: "f64 \<Rightarrow> f64 \<Rightarrow> f64 \<Rightarrow> f64" where
  "f64_clamp x lo hi =
     (let y = (if f64_lt x lo then lo else x) in if f64_lt hi y then hi else y)"

section \<open>Parsing\<close>

text \<open>\<open>str::parse::<f64>\<close>: an optional sign, then a special name or a decimal number.\<close>

definition ascii_lower_char :: "char \<Rightarrow> char" where
  "ascii_lower_char c =
     (if 65 \<le> (of_char c :: nat) \<and> (of_char c :: nat) \<le> 90 then char_of (of_char c + 32 :: nat) else c)"

definition to_ascii_lowercase :: "string \<Rightarrow> string" where
  "to_ascii_lowercase s = map ascii_lower_char s"

text \<open>The exponent after \<open>e\<close>: an optional sign and at least one digit, up to the end.\<close>

definition parse_exponent :: "string \<Rightarrow> int option" where
  "parse_exponent s =
     (let (neg, ds) = (if starts_with s ''-'' then (True, tl s)
                       else if starts_with s ''+'' then (False, tl s) else (False, s)) in
      if ds = [] \<or> \<not> list_all is_digit ds then None
      else Some (if neg then - int (digits_val ds) else int (digits_val ds)))"

text \<open>A decimal number as its significand and exponent of ten.\<close>

definition parse_decimal :: "string \<Rightarrow> (nat \<times> int) option" where
  "parse_decimal s =
     (let i = takeWhile is_digit s; r = dropWhile is_digit s;
          f = (if starts_with r ''.'' then takeWhile is_digit (tl r) else []);
          r2 = (if starts_with r ''.'' then dropWhile is_digit (tl r) else r) in
      if i = [] \<and> f = [] then None
      else (case r2 of
              [] \<Rightarrow> Some (digits_val (i @ f), - int (length f))
            | c # t \<Rightarrow>
                (if c = CHR ''e'' \<or> c = CHR ''E''
                 then map_option (\<lambda>x. (digits_val (i @ f), x - int (length f))) (parse_exponent t)
                 else None)))"

definition parse_f64 :: "string \<Rightarrow> f64 option" where
  "parse_f64 s =
     (let (neg, r) = (if starts_with s ''-'' then (True, tl s)
                      else if starts_with s ''+'' then (False, tl s) else (False, s)) in
      case parse_decimal r of
        Some (m, e) \<Rightarrow> Some (round_f64 neg (of_nat m * pow_int 10 e))
      | None \<Rightarrow>
          (let l = to_ascii_lowercase r in
           if l = ''inf'' \<or> l = ''infinity'' then Some (Infty neg)
           else if l = ''nan'' then Some NaN else None))"

section \<open>Printing\<close>

text \<open>
  \<open>to_string\<close> prints the shortest decimal that reads back as the same value and, of those, the one
  closest to it, without an exponent.  The search scales by \<open>10^d\<close> for growing \<open>d\<close>, from one
  significant digit; only the two neighbours of the scaled value can qualify.
\<close>

fun lead_zeros :: "nat \<Rightarrow> rat \<Rightarrow> nat" where
  "lead_zeros 0 q = 0"
| "lead_zeros (Suc n) q = (if 1 / 10 \<le> q then 0 else Suc (lead_zeros n (q * 10)))"

definition dec_exponent :: "rat \<Rightarrow> int" where
  "dec_exponent q =
     (if 1 \<le> q then int (length (show_nat (nat \<lfloor>q\<rfloor>))) else - int (lead_zeros 400 q))"

definition reads_as :: "rat \<Rightarrow> int \<Rightarrow> nat \<Rightarrow> bool" where
  "reads_as q d c = (round_f64 False (of_nat c * pow_int 10 (- d)) = Fin False q)"

fun shortest_decimal :: "nat \<Rightarrow> rat \<Rightarrow> int \<Rightarrow> (nat \<times> int) option" where
  "shortest_decimal 0 q d = None"
| "shortest_decimal (Suc n) q d =
     (let t = q * pow_int 10 d; lo = nat \<lfloor>t\<rfloor> in
      if reads_as q d lo \<and> reads_as q d (Suc lo)
      then Some (if t - of_nat lo < 1 / 2 then lo else Suc lo, d)
      else if reads_as q d lo then Some (lo, d)
      else if reads_as q d (Suc lo) then Some (Suc lo, d)
      else shortest_decimal n q (d + 1))"

definition pad_zeros :: "nat \<Rightarrow> string \<Rightarrow> string" where
  "pad_zeros n s = replicate (n - length s) CHR ''0'' @ s"

text \<open>The decimal \<open>c / 10^d\<close>; for positive \<open>d\<close> with that many fraction digits.\<close>

definition show_decimal :: "nat \<Rightarrow> int \<Rightarrow> string" where
  "show_decimal c d =
     (if d \<le> 0 then show_nat (c * 10 ^ nat (- d))
      else show_nat (c div 10 ^ nat d) @ ''.'' @ pad_zeros (nat d) (show_nat (c mod 10 ^ nat d)))"

text \<open>
  Seventeen significant digits always identify a value, so the exact expansion (\<open>2^1074\<close> divides
  \<open>10^1074\<close>) is only there to make the function total.
\<close>

definition frac_bits :: nat where
  "frac_bits = 1074"

definition show_magnitude :: "rat \<Rightarrow> string" where
  "show_magnitude q =
     (if q = 0 then ''0''
      else (case shortest_decimal 17 q (1 - dec_exponent q) of
              Some (c, d) \<Rightarrow> show_decimal c d
            | None \<Rightarrow> show_decimal (nat \<lfloor>q * 10 ^ frac_bits\<rfloor>) (int frac_bits)))"

fun f64_to_string :: "f64 \<Rightarrow> string" where
  "f64_to_string NaN = ''NaN''"
| "f64_to_string (Infty s) = (if s then ''-inf'' else ''inf'')"
| "f64_to_string (Fin s q) = (if s then ''-'' else []) @ show_magnitude q"

section \<open>Lemmas on rounding\<close>

text \<open>A value the format can hold: rounding leaves it alone.\<close>

fun f64_wf :: "f64 \<Rightarrow> bool" where
  "f64_wf (Fin s q) = (0 \<le> q \<and> round_f64 False q = Fin False q)"
| "f64_wf _ = True"

lemma pow_int_nonneg: "0 \<le> b \<Longrightarrow> 0 \<le> pow_int b k"
  by (simp add: pow_int_def)

lemma pow_int_pos: "0 < b \<Longrightarrow> 0 < pow_int b k"
  by (simp add: pow_int_def)

lemma pow_int_0 [simp]: "pow_int b 0 = 1"
  by (simp add: pow_int_def)

lemma pow_int_powi: "pow_int b k = b powi k"
  by (simp add: pow_int_def power_int_def field_simps)

lemma pow_int_add: "b \<noteq> 0 \<Longrightarrow> pow_int b (j + k) = pow_int b j * pow_int b k"
  by (simp add: pow_int_powi power_int_add)

lemma round_half_even_nonneg: "0 \<le> q \<Longrightarrow> 0 \<le> round_half_even q"
  by (auto simp: round_half_even_def Let_def)

lemma round_half_even_of_int [simp]: "round_half_even (of_int n) = n"
  by (simp add: round_half_even_def)

lemma round_half_even_mono: "q \<le> r \<Longrightarrow> round_half_even q \<le> round_half_even r"
proof -
  assume le: "q \<le> r"
  show ?thesis
  proof (cases "\<lfloor>q\<rfloor> = \<lfloor>r\<rfloor>")
    case True
    with le show ?thesis by (auto simp: round_half_even_def Let_def)
  next
    case False
    with floor_mono [OF le] have "\<lfloor>q\<rfloor> + 1 \<le> \<lfloor>r\<rfloor>" by simp
    moreover have "round_half_even q \<le> \<lfloor>q\<rfloor> + 1" "\<lfloor>r\<rfloor> \<le> round_half_even r"
      by (auto simp: round_half_even_def Let_def)
    ultimately show ?thesis by linarith
  qed
qed

lemma round_f64_sign: "round_f64 False q = Fin False r \<Longrightarrow> round_f64 s q = Fin s r"
  by (auto simp: round_f64_def Let_def split: if_splits)

lemma round_f64_cases: "0 \<le> q \<Longrightarrow> (\<exists>r. round_f64 s q = Fin s r \<and> 0 \<le> r) \<or> round_f64 s q = Infty s"
  by (auto simp: round_f64_def Let_def round_half_even_nonneg pow_int_nonneg)

text \<open>A representable value is a multiple of \<open>2^-1074\<close>.\<close>

lemma representable_scaled:
  assumes "round_f64 False q = Fin False q"
  shows "\<exists>n. q * 10 ^ frac_bits = of_int n"
proof (cases "q = 0")
  case True
  then show ?thesis by (intro exI [of _ 0]) simp
next
  case False
  define k where "k = f64_quantum q"
  define m where "m = round_half_even (q / pow_int 2 k)"
  define N where "N = frac_bits"
  have k: "- int N \<le> k" by (simp add: k_def f64_quantum_def N_def frac_bits_def)
  have q: "q = of_int m * pow_int 2 k"
    using assms False
    by (auto simp: round_f64_def Let_def k_def [symmetric] m_def [symmetric] split: if_splits)
  have "pow_int 2 k * pow_int 2 (int N) = of_int (2 ^ nat (k + int N))"
    using k by (simp add: pow_int_add [symmetric]) (simp add: pow_int_def)
  then have two: "pow_int 2 k * 2 ^ N = of_int (2 ^ nat (k + int N))"
    by (simp add: pow_int_def)
  have "(10 :: rat) ^ N = (2 * 5) ^ N" by simp
  then have "q * 10 ^ N = of_int m * (pow_int 2 k * 2 ^ N) * 5 ^ N"
    by (simp only: q power_mult_distrib mult.assoc)
  then have "q * 10 ^ N = of_int (m * 2 ^ nat (k + int N) * 5 ^ N)"
    by (simp add: two)
  then show ?thesis unfolding N_def by blast
qed

lemma bitlen_rat:
  assumes "0 < (a::int)"
  shows "pow_int 2 (bitlen a - 1) \<le> of_int a" "of_int a < pow_int 2 (bitlen a)"
proof -
  have pos: "0 < bitlen a"
    using assms bitlen_nonneg [of a] bitlen_eq_zero_iff [of a] by linarith
  from bitlen_bounds [OF assms] have b: "2 ^ nat (bitlen a - 1) \<le> a" "a < 2 ^ nat (bitlen a)" by auto
  have "of_int (2 ^ nat (bitlen a - 1)) \<le> (of_int a :: rat)" using b(1) by (simp only: of_int_le_iff)
  with pos show "pow_int 2 (bitlen a - 1) \<le> of_int a" by (simp add: pow_int_def)
  have "(of_int a :: rat) < of_int (2 ^ nat (bitlen a))" using b(2) by (simp only: of_int_less_iff)
  with pos show "of_int a < pow_int 2 (bitlen a)" by (simp add: pow_int_def)
qed

lemma ilog2_bounds:
  assumes "0 < q"
  shows "pow_int 2 (ilog2 q) \<le> q" "q < pow_int 2 (ilog2 q + 1)"
proof -
  obtain a b where ab: "quotient_of q = (a, b)" by (cases "quotient_of q")
  then have b: "0 < b" and q: "q = of_int a / of_int b"
    by (auto simp: quotient_of_denom_pos quotient_of_div)
  with assms have a: "0 < a" by (simp add: zero_less_divide_iff)
  define e where "e = bitlen a - bitlen b"
  have up: "q < pow_int 2 (e + 1)"
  proof -
    have "of_int a < pow_int 2 (bitlen a)" by (rule bitlen_rat [OF a])
    also have "pow_int 2 (bitlen a) = pow_int 2 (e + 1) * pow_int 2 (bitlen b - 1)"
      by (simp add: pow_int_add [symmetric] e_def)
    also have "\<dots> \<le> pow_int 2 (e + 1) * of_int b"
      by (intro mult_left_mono bitlen_rat b pow_int_nonneg) simp
    finally show ?thesis using b by (simp add: q field_simps)
  qed
  have lo: "pow_int 2 (e - 1) \<le> q"
  proof -
    have "pow_int 2 (e - 1) * of_int b \<le> pow_int 2 (e - 1) * pow_int 2 (bitlen b)"
      by (intro mult_left_mono less_imp_le [OF bitlen_rat(2) [OF b]] pow_int_nonneg) simp
    also have "\<dots> = pow_int 2 (bitlen a - 1)"
      by (simp add: pow_int_add [symmetric] e_def)
    also have "\<dots> \<le> of_int a" by (rule bitlen_rat [OF a])
    finally show ?thesis using b by (simp add: q field_simps)
  qed
  have il: "ilog2 q = (if pow_int 2 e \<le> q then e else e - 1)"
    by (simp add: ilog2_def ab e_def)
  show "pow_int 2 (ilog2 q) \<le> q" using lo by (simp add: il)
  show "q < pow_int 2 (ilog2 q + 1)" using up by (auto simp: il)
qed

lemma pow_int_2_less_iff: "pow_int 2 j < pow_int 2 k \<longleftrightarrow> j < k"
proof
  show "j < k" if "pow_int 2 j < pow_int 2 k"
    using that power_int_increasing [of k j "2 :: rat"] by (force simp: pow_int_powi not_le [symmetric])
  show "pow_int 2 j < pow_int 2 k" if "j < k"
    using that by (simp add: pow_int_powi power_int_strict_increasing)
qed

lemma ilog2_unique: "pow_int 2 e \<le> q \<Longrightarrow> q < pow_int 2 (e + 1) \<Longrightarrow> ilog2 q = e"
proof -
  assume 1: "pow_int 2 e \<le> q" and 2: "q < pow_int 2 (e + 1)"
  have pos: "0 < q" using 1 pow_int_pos [of 2 e] by simp
  have "pow_int 2 e < pow_int 2 (ilog2 q + 1)" using 1 ilog2_bounds(2) [OF pos] by linarith
  moreover have "pow_int 2 (ilog2 q) < pow_int 2 (e + 1)" using 2 ilog2_bounds(1) [OF pos] by linarith
  ultimately show ?thesis by (simp add: pow_int_2_less_iff)
qed

text \<open>Every \<open>m * 2^j\<close> with a 53-bit significand is representable.\<close>

lemma round_f64_exact:
  assumes "0 < m" "m < 2 ^ 53" "- 1074 \<le> j" "j \<le> 971"
  shows "round_f64 s (of_int m * pow_int 2 j) = Fin s (of_int m * pow_int 2 j)"
proof -
  define q where "q = of_int m * pow_int 2 j"
  have q: "0 < q" using assms(1) by (simp add: q_def pow_int_pos)
  define k where "k = f64_quantum q"
  have "of_int m < (of_int (2 ^ 53) :: rat)" using assms(2) by (simp only: of_int_less_iff)
  then have "of_int m < pow_int 2 53" by (simp add: pow_int_def)
  then have "q < pow_int 2 53 * pow_int 2 j"
    unfolding q_def by (intro mult_strict_right_mono pow_int_pos) simp_all
  then have "pow_int 2 (ilog2 q) < pow_int 2 (53 + j)"
    using ilog2_bounds(1) [OF q] by (simp add: pow_int_add)
  then have "ilog2 q < 53 + j" by (simp add: pow_int_2_less_iff)
  then have kj: "k \<le> j" using assms(3) by (simp add: k_def f64_quantum_def)
  have "pow_int 2 j / pow_int 2 k = pow_int 2 (j - k)"
    using pow_int_add [of 2 "j - k" k] by (simp add: pow_int_pos less_imp_neq [symmetric])
  also have "\<dots> = of_int (2 ^ nat (j - k))" using kj by (simp add: pow_int_def)
  finally have quot: "q / pow_int 2 k = of_int (m * 2 ^ nat (j - k))"
    by (simp add: q_def times_divide_eq_right [symmetric] del: times_divide_eq_right)
  have lt: "\<not> (971 < k \<or> (k = 971 \<and> 9007199254740992 \<le> m * 2 ^ nat (j - k)))"
    using kj assms by auto
  have "of_int (m * 2 ^ nat (j - k)) * pow_int 2 k = q"
    using quot pow_int_pos [of 2 k] by (metis less_numeral_extra(3) nonzero_eq_divide_eq zero_less_numeral)
  with q lt show ?thesis
    unfolding q_def [symmetric] round_f64_def k_def [symmetric] Let_def quot round_half_even_of_int
    by simp
qed

lemma quantum_ratio:
  assumes "0 < q"
  shows "q / pow_int 2 (f64_quantum q) \<le> of_int (2 ^ 53)"
proof -
  define k where "k = f64_quantum q"
  have "q \<le> pow_int 2 (ilog2 q + 1)" using ilog2_bounds(2) [OF assms] by simp
  also have "\<dots> \<le> pow_int 2 (53 + k)"
    using power_int_increasing [of "ilog2 q + 1" "53 + k" "2 :: rat"]
    by (simp add: pow_int_powi k_def f64_quantum_def)
  also have "\<dots> = pow_int 2 53 * pow_int 2 k" by (simp add: pow_int_add)
  finally have "q / pow_int 2 k \<le> pow_int 2 53" by (simp add: pow_int_pos divide_le_eq)
  then show ?thesis by (simp add: k_def pow_int_def [of 2 53])
qed

text \<open>What rounding returns is representable.\<close>

lemma round_f64_wf:
  assumes "0 \<le> q"
  shows "f64_wf (round_f64 s q)"
proof (cases "\<exists>r. round_f64 s q = Fin s r")
  case False
  then show ?thesis using round_f64_cases [OF assms, of s] by auto
next
  case True
  then obtain r where r: "round_f64 s q = Fin s r" by blast
  then have r0: "0 \<le> r" using round_f64_cases [OF assms, of s] by auto
  show ?thesis
  proof (cases "r = 0")
    case True
    with r show ?thesis by (simp add: round_f64_def)
  next
    case False
    with r have qpos: "0 < q" using assms by (cases "q = 0") (auto simp: round_f64_def)
    define k where "k = f64_quantum q"
    define m where "m = round_half_even (q / pow_int 2 k)"
    have k: "- 1074 \<le> k" by (simp add: k_def f64_quantum_def)
    have nov: "\<not> (971 < k \<or> (k = 971 \<and> 9007199254740992 \<le> m))" and rm: "r = of_int m * pow_int 2 k"
      using r qpos
      by (auto simp: round_f64_def Let_def k_def [symmetric] m_def [symmetric] split: if_splits)
    have "m \<le> round_half_even (of_int (2 ^ 53))"
      unfolding m_def k_def by (rule round_half_even_mono [OF quantum_ratio [OF qpos]])
    then have m53: "m \<le> 2 ^ 53" by (simp only: round_half_even_of_int)
    have m0: "0 < m"
      using False r0 rm pow_int_pos [of 2 k] by (simp add: zero_le_mult_iff)
    show ?thesis
    proof (cases "m = 2 ^ 53")
      case True
      then have "k < 971" using nov by auto
      moreover have "r = of_int (2 ^ 52) * pow_int 2 (k + 1)"
        by (simp add: rm True pow_int_add) (simp add: pow_int_def)
      ultimately show ?thesis
        using k r r0 round_f64_exact [of "2 ^ 52" "k + 1" False] by simp
    next
      case False
      with m53 have "m < 2 ^ 53" by simp
      with nov m0 k rm r r0 show ?thesis using round_f64_exact [of m k False] by simp
    qed
  qed
qed

lemma round_f64_of_nat: "n < 9007199254740992 \<Longrightarrow> round_f64 s (of_nat n) = Fin s (of_nat n)"
  using round_f64_exact [of "int n" 0 s] by (cases "n = 0") (auto simp: round_f64_def)

section \<open>Lemmas on parsing and printing\<close>

lemma span_digits:
  assumes "list_all is_digit ds" "rest = [] \<or> \<not> is_digit (hd rest)"
  shows "takeWhile is_digit (ds @ rest) = ds" "dropWhile is_digit (ds @ rest) = rest"
  using assms by (induction ds; cases rest; simp)+

lemma digits_val_append: "digits_val (xs @ ys) = digits_val xs * 10 ^ length ys + digits_val ys"
proof (induction ys rule: rev_induct)
  case Nil
  then show ?case by (simp add: digits_val_def)
next
  case (snoc y ys)
  have "digits_val (xs @ ys @ [y]) = 10 * digits_val (xs @ ys) + digit_val y"
    using digits_val_snoc [of "xs @ ys" y] by simp
  with snoc show ?case by (simp add: algebra_simps)
qed

lemma digits_val_replicate [simp]: "digits_val (replicate n CHR ''0'') = 0"
proof (induction n)
  case 0
  then show ?case by (simp add: digits_val_def)
next
  case (Suc n)
  then show ?case
    using digits_val_snoc [of "replicate n CHR ''0''" "CHR ''0''"]
    by (simp add: digit_val_def replicate_append_same)
qed

lemma length_show_nat_le: "0 < d \<Longrightarrow> n < 10 ^ d \<Longrightarrow> length (show_nat n) \<le> d"
proof (induction d arbitrary: n)
  case 0
  then show ?case by simp
next
  case (Suc d)
  show ?case
  proof (cases "n < 10")
    case True
    then show ?thesis by (subst show_nat.simps) simp
  next
    case False
    with Suc.prems have "n div 10 < 10 ^ d" "0 < d" by (auto intro!: gr0I)
    with Suc.IH [of "n div 10"] False show ?thesis by (subst show_nat.simps) simp
  qed
qed

lemma pad_zeros_props:
  assumes "0 < d" "n < 10 ^ d"
  shows "list_all is_digit (pad_zeros d (show_nat n))"
    "length (pad_zeros d (show_nat n)) = d"
    "digits_val (pad_zeros d (show_nat n)) = n"
proof -
  have "is_digit CHR ''0''" by (simp add: is_digit_def)
  then show "list_all is_digit (pad_zeros d (show_nat n))"
    by (auto simp: pad_zeros_def show_nat_digits list_all_iff dest: in_set_replicate [THEN iffD1])
       (use show_nat_digits [of n] in \<open>auto simp: list_all_iff\<close>)
  show "length (pad_zeros d (show_nat n)) = d"
    using length_show_nat_le [OF assms] by (simp add: pad_zeros_def)
  show "digits_val (pad_zeros d (show_nat n)) = n"
    by (simp add: pad_zeros_def digits_val_append)
qed

lemma parse_decimal_int: "parse_decimal (show_nat n) = Some (n, 0)"
proof -
  have span: "takeWhile is_digit (show_nat n) = show_nat n" "dropWhile is_digit (show_nat n) = []"
    using span_digits [OF show_nat_digits [of n], of "[]"] by auto
  show ?thesis unfolding parse_decimal_def Let_def span by simp
qed

lemma parse_decimal_frac:
  assumes "list_all is_digit ds"
  shows "parse_decimal (show_nat a @ ''.'' @ ds) = Some (digits_val (show_nat a @ ds), - int (length ds))"
proof -
  have "\<not> is_digit CHR ''.''" by (simp add: is_digit_def)
  then have span: "takeWhile is_digit (show_nat a @ ''.'' @ ds) = show_nat a"
      "dropWhile is_digit (show_nat a @ ''.'' @ ds) = ''.'' @ ds"
    by (auto intro!: span_digits show_nat_digits)
  have rest: "takeWhile is_digit (tl (''.'' @ ds)) = ds" "dropWhile is_digit (tl (''.'' @ ds)) = []"
    using span_digits [OF assms, of "[]"] by auto
  show ?thesis unfolding parse_decimal_def Let_def span rest by simp
qed

lemma parse_show_decimal:
  "\<exists>m e. parse_decimal (show_decimal c d) = Some (m, e) \<and>
     of_nat m * pow_int 10 e = (of_nat c * pow_int 10 (- d) :: rat)"
proof (cases "d \<le> 0")
  case True
  then show ?thesis by (simp add: show_decimal_def parse_decimal_int pow_int_def)
next
  case False
  define n where "n = nat d"
  have d: "d = int n" "0 < n" using False by (auto simp: n_def)
  let ?ds = "pad_zeros n (show_nat (c mod 10 ^ n))"
  have ds: "list_all is_digit ?ds" "length ?ds = n" "digits_val ?ds = c mod 10 ^ n"
    using d by (auto intro!: pad_zeros_props)
  have "parse_decimal (show_decimal c d) = Some (c, - int n)"
    using d parse_decimal_frac [OF ds(1), of "c div 10 ^ n"] div_mult_mod_eq [of c "10 ^ n"]
    by (simp add: show_decimal_def digits_val_append ds del: append.simps)
  then show ?thesis using d by simp
qed

lemma show_decimal_hd: "is_digit (hd (show_decimal c d)) \<and> show_decimal c d \<noteq> []"
proof -
  have "is_digit (hd (show_nat n))" for n
    using show_nat_digits [of n] by (cases "show_nat n") auto
  then show ?thesis by (auto simp: show_decimal_def)
qed

lemma parse_f64_show_decimal:
  "parse_f64 ((if s then ''-'' else []) @ show_decimal c d) =
     Some (round_f64 s (of_nat c * pow_int 10 (- d)))"
proof -
  obtain x xs where x: "show_decimal c d = x # xs" "is_digit x"
    using show_decimal_hd [of c d] by (cases "show_decimal c d") auto
  then have "x \<noteq> CHR ''-''" "x \<noteq> CHR ''+''" by (auto simp: is_digit_def)
  with x parse_show_decimal [of c d] show ?thesis
    by (auto simp: parse_f64_def Let_def)
qed

lemma shortest_decimal_reads:
  "shortest_decimal n q d = Some (c, d') \<Longrightarrow> reads_as q d' c"
  by (induction n q d rule: shortest_decimal.induct) (auto simp: Let_def split: if_splits)


text \<open>What \<open>to_string\<close> prints, \<open>parse\<close> reads back.\<close>

lemma show_magnitude_reads:
  assumes "0 \<le> q" "round_f64 False q = Fin False q"
  shows "\<exists>c d. show_magnitude q = show_decimal c d \<and> reads_as q d c"
proof -
  have zero: "show_decimal 0 0 = ''0''" by code_simp
  have exact: "reads_as q (int frac_bits) (nat \<lfloor>q * 10 ^ frac_bits\<rfloor>)"
  proof -
    obtain n where n: "q * 10 ^ frac_bits = of_int n" using representable_scaled [OF assms(2)] by blast
    have "0 \<le> q * 10 ^ frac_bits" using assms(1) by simp
    then have "0 \<le> n" unfolding n by simp
    then have "of_nat (nat \<lfloor>q * 10 ^ frac_bits\<rfloor>) = q * 10 ^ frac_bits" unfolding n by simp
    then have "of_nat (nat \<lfloor>q * 10 ^ frac_bits\<rfloor>) * pow_int 10 (- int frac_bits) = q"
      unfolding pow_int_def by (simp add: field_simps)
    then show ?thesis unfolding reads_as_def by (simp add: assms(2))
  qed
  consider "q = 0" | "q \<noteq> 0" "shortest_decimal 17 q (1 - dec_exponent q) = None"
    | c d where "q \<noteq> 0" "shortest_decimal 17 q (1 - dec_exponent q) = Some (c, d)"
    by (cases "shortest_decimal 17 q (1 - dec_exponent q)") auto
  then show ?thesis
  proof cases
    case 1
    then have "show_magnitude q = show_decimal 0 0 \<and> reads_as q 0 0"
      by (simp add: show_magnitude_def zero reads_as_def round_f64_def)
    then show ?thesis by blast
  next
    case 2
    then have "show_magnitude q = show_decimal (nat \<lfloor>q * 10 ^ frac_bits\<rfloor>) (int frac_bits)"
      by (simp only: show_magnitude_def option.case if_False)
    with exact show ?thesis by blast
  next
    case 3
    then have "show_magnitude q = show_decimal c d"
      by (simp only: show_magnitude_def option.case prod.case if_False)
    with shortest_decimal_reads [OF 3(2)] show ?thesis by blast
  qed
qed

lemma parse_f64_to_string:
  assumes "f64_wf v"
  shows "parse_f64 (f64_to_string v) = Some v"
proof (cases v)
  case NaN
  have "parse_f64 ''NaN'' = Some NaN" by code_simp
  with NaN show ?thesis by simp
next
  case (Infty s)
  have "parse_f64 ''-inf'' = Some (Infty True)" "parse_f64 ''inf'' = Some (Infty False)" by code_simp+
  with Infty show ?thesis by simp
next
  case (Fin s q)
  with assms obtain c d where cd: "show_magnitude q = show_decimal c d" "reads_as q d c"
    using show_magnitude_reads [of q] by auto
  from cd(2) have "round_f64 s (of_nat c * pow_int 10 (- d)) = Fin s q"
    unfolding reads_as_def by (rule round_f64_sign)
  with Fin cd(1) parse_f64_show_decimal [of s c d] show ?thesis by simp
qed

lemma parse_f64_show_nat: "n < 9007199254740992 \<Longrightarrow> parse_f64 (show_nat n) = Some (Fin False (of_nat n))"
  using parse_f64_show_decimal [of False n 0] by (simp add: show_decimal_def round_f64_of_nat)

text \<open>Operations on representable values give representable values.\<close>

lemma round_signed_wf: "f64_wf (round_signed z q)"
  by (auto simp: round_signed_def round_f64_wf round_f64_def [of False 0])

lemma f64_wf_neg: "f64_wf a \<Longrightarrow> f64_wf (f64_neg a)"
  by (cases a) auto

lemma f64_wf_add: "f64_wf a \<Longrightarrow> f64_wf b \<Longrightarrow> f64_wf (f64_add a b)"
  by (cases a; cases b) (auto simp: round_signed_wf)

lemma f64_wf_div: "f64_wf a \<Longrightarrow> f64_wf b \<Longrightarrow> f64_wf (f64_div a b)"
  by (cases a; cases b) (auto simp: round_f64_wf round_f64_def [of False 0])

lemma f64_wf_of_nat: "f64_wf (f64_of_nat n)"
  by (simp add: f64_of_nat_def round_f64_wf)

lemma f64_wf_foldl: "f64_wf a \<Longrightarrow> \<forall>x\<in>set xs. f64_wf x \<Longrightarrow> f64_wf (foldl f64_add a xs)"
  by (induction xs arbitrary: a) (auto intro: f64_wf_add)

lemma f64_wf_sum: "\<forall>x\<in>set xs. f64_wf x \<Longrightarrow> f64_wf (f64_sum xs)"
  by (auto simp: f64_sum_def round_f64_def [of False 0] intro!: f64_wf_foldl)

lemma f64_wf_parse: "parse_f64 s = Some v \<Longrightarrow> f64_wf v"
  by (auto simp: parse_f64_def Let_def round_f64_wf pow_int_nonneg split: option.splits if_splits prod.splits)

lemma f64_lt_irrefl [simp]: "\<not> f64_lt a a"
  by (cases a) auto

lemma f64_lt_trans: "f64_lt a b \<Longrightarrow> f64_lt b c \<Longrightarrow> f64_lt a c"
  by (cases a; cases b; cases c) (auto split: if_splits)

lemma f64_lt_asym: "f64_lt a b \<Longrightarrow> \<not> f64_lt b a"
  using f64_lt_trans f64_lt_irrefl by blast

end
