(* ===== verification/Exec.thy ===== *)
theory Exec
  imports F64 "HOL-Library.Multiset"
begin

text \<open>
  \<^bold>\<open>agent/src/exec\<close>: what the agent does to a machine.  Recommendations are read as actions (action.rs),
  the fix engine orders and runs them (fix_engine.rs), the executor turns each into commands and file
  writes (executor.rs), and the system actuator ends whole process groups (mod.rs).  The operating system
  is a parameter: a record of functions over an abstract machine.

  A message that is only shown to the user is a value: one constructor per format string of the source,
  with the arguments of the format as its arguments.
\<close>

section \<open>Text\<close>

text \<open>
  \<open>str::to_lowercase\<close>, as far as the tests below can tell: of the characters outside ASCII only the Kelvin
  sign and the dotted capital I have ASCII letters in their lower case; the others stay as they are here,
  and no text that is looked for contains a letter they could become.
\<close>

definition kelvin_sign :: string where
  "kelvin_sign = [CHR 0xE2, CHR 0x84, CHR 0xAA]"

definition dotted_capital_i :: string where
  "dotted_capital_i = [CHR 0xC4, CHR 0xB0]"

fun to_lowercase :: "string \<Rightarrow> string" where
  "to_lowercase [] = []"
| "to_lowercase (c # cs) =
     (if starts_with (c # cs) kelvin_sign then CHR ''k'' # to_lowercase (drop 2 cs)
      else if starts_with (c # cs) dotted_capital_i
      then [CHR ''i'', CHR 0xCC, CHR 0x87] @ to_lowercase (drop 1 cs)
      else ascii_lower_char c # to_lowercase cs)"

fun join_str :: "string \<Rightarrow> string list \<Rightarrow> string" where
  "join_str sep [] = []"
| "join_str sep [p] = p"
| "join_str sep (p # q # ps) = p @ sep @ join_str sep (q # ps)"

definition show_int :: "int \<Rightarrow> string" where
  "show_int i = (if i < 0 then ''-'' @ show_nat (nat (- i)) else show_nat (nat i))"

text \<open>\<open>str::split_whitespace\<close>: the maximal runs without white space.\<close>

definition at_space :: "string \<Rightarrow> bool" where
  "at_space s \<longleftrightarrow> list_ex (\<lambda>w. starts_with s w) ws_encodings"

fun take_word :: "string \<Rightarrow> string \<times> string" where
  "take_word [] = ([], [])"
| "take_word (c # cs) =
     (if at_space (c # cs) then ([], c # cs)
      else (let (w, r) = take_word cs in (c # w, r)))"

lemma take_word_length: "length (snd (take_word s)) \<le> length s"
  by (induction s rule: take_word.induct) (auto split: prod.splits)

lemma trim_front_length: "length (trim_front ws s) \<le> length s"
proof (induction ws s rule: trim_front.induct)
  case (1 ws s)
  then show ?case by (subst trim_front.simps) (fastforce split: option.splits intro: le_trans)
qed

lemma trim_start_not_space: "\<not> at_space (trim_start s)"
proof -
  have "find (\<lambda>w. w \<noteq> [] \<and> starts_with (trim_front ws s) w) ws = None" for ws :: "string list"
  proof (induction ws s rule: trim_front.induct)
    case (1 ws s)
    show ?case
    proof (cases "find (\<lambda>w. w \<noteq> [] \<and> starts_with s w) ws")
      case None
      then show ?thesis by (simp add: trim_front.simps)
    next
      case (Some w)
      then show ?thesis using 1 by (simp add: trim_front.simps[of ws s])
    qed
  qed
  moreover have "[] \<notin> set ws_encodings" by (simp add: ws_encodings_def)
  ultimately show ?thesis by (auto simp: at_space_def trim_start_def find_None_iff list_ex_iff)
qed

function split_whitespace :: "string \<Rightarrow> string list" where
  "split_whitespace s =
     (let t = trim_start s in
      if t = [] then [] else (let (w, r) = take_word t in w # split_whitespace r))"
  by pat_completeness auto
termination
proof (relation "measure length", simp)
  fix s t w r x
  assume t: "t = trim_start s" and ne: "t \<noteq> []" and x: "x = take_word t" "(w, r) = x"
  obtain c cs where c: "t = c # cs" using ne by (cases t) auto
  have "\<not> at_space (c # cs)" using trim_start_not_space[of s] t c by simp
  then have "length r < length t" using x c take_word_length[of cs] by (auto split: prod.splits)
  moreover have "length t \<le> length s" unfolding t trim_start_def by (rule trim_front_length)
  ultimately show "(r, s) \<in> measure length" by simp
qed

declare split_whitespace.simps [simp del]

section \<open>Actions\<close>

datatype action_type =
    Signal int
  | CgroupThrottle "nat option" "nat option" "nat option"
  | NetworkRestart string
  | GracefulShutdown int nat bool
  | KillProcess
  | IsolateNode string
  | CheckCheckpoint string
  | Custom string "string list"

text \<open>The words looked for that are not ASCII, by their meaning.\<close>

definition zh_trigger_checkpoint :: string where
  "zh_trigger_checkpoint = [CHR 0xE8, CHR 0xA7, CHR 0xA6, CHR 0xE5, CHR 0x8F, CHR 0x91] @ '' checkpoint''"

definition zh_save_checkpoint :: string where
  "zh_save_checkpoint = [CHR 0xE4, CHR 0xBF, CHR 0x9D, CHR 0xE5, CHR 0xAD, CHR 0x98] @ '' checkpoint''"

definition zh_terminate_process :: string where
  "zh_terminate_process = [CHR 0xE7, CHR 0xBB, CHR 0x88, CHR 0xE6, CHR 0xAD, CHR 0xA2, CHR 0xE8, CHR 0xBF, CHR 0x9B, CHR 0xE7,
     CHR 0xA8, CHR 0x8B]"

definition zh_clean_up :: string where
  "zh_clean_up = [CHR 0xE6, CHR 0xB8, CHR 0x85, CHR 0xE7, CHR 0x90, CHR 0x86]"

definition zh_graceful :: string where
  "zh_graceful = [CHR 0xE4, CHR 0xBC, CHR 0x98, CHR 0xE9, CHR 0x9B, CHR 0x85]"

definition zh_signal :: string where
  "zh_signal = [CHR 0xE4, CHR 0xBF, CHR 0xA1, CHR 0xE5, CHR 0x8F, CHR 0xB7]"

definition zh_wait :: string where
  "zh_wait = [CHR 0xE7, CHR 0xAD, CHR 0x89, CHR 0xE5, CHR 0xBE, CHR 0x85]"

definition zh_throttle :: string where
  "zh_throttle = [CHR 0xE9, CHR 0x99, CHR 0x90, CHR 0xE6, CHR 0xB5, CHR 0x81]"

definition zh_limit :: string where
  "zh_limit = [CHR 0xE9, CHR 0x99, CHR 0x90, CHR 0xE5, CHR 0x88, CHR 0xB6]"

definition zh_restart_nic :: string where
  "zh_restart_nic = [CHR 0xE9, CHR 0x87, CHR 0x8D, CHR 0xE5, CHR 0x90, CHR 0xAF, CHR 0xE7, CHR 0xBD, CHR 0x91, CHR 0xE5,
     CHR 0x8D, CHR 0xA1]"

definition zh_network_interface :: string where
  "zh_network_interface = [CHR 0xE7, CHR 0xBD, CHR 0x91, CHR 0xE7, CHR 0xBB, CHR 0x9C, CHR 0xE6, CHR 0x8E, CHR 0xA5, CHR 0xE5,
     CHR 0x8F, CHR 0xA3]"

definition zh_isolate :: string where
  "zh_isolate = [CHR 0xE9, CHR 0x9A, CHR 0x94, CHR 0xE7, CHR 0xA6, CHR 0xBB]"

definition zh_check :: string where
  "zh_check = [CHR 0xE6, CHR 0xA3, CHR 0x80, CHR 0xE6, CHR 0x9F, CHR 0xA5]"

definition from_recommendation :: "string \<Rightarrow> action_type option" where
  "from_recommendation text =
     (let has = contains (to_lowercase text) in
      if has ''sigusr1'' \<or> has ''checkpoint dump'' \<or> has zh_trigger_checkpoint \<or> has zh_save_checkpoint
      then Some (Signal 10)
      else if has ''signal'' \<and> has ''dump'' then Some (Signal 10)
      else if has ''ark zap'' \<or> has ''kill'' \<or> has zh_terminate_process \<or> has zh_clean_up
      then Some KillProcess
      else if has zh_graceful \<or> has ''graceful'' \<or> has zh_signal \<and> has zh_wait
      then Some (GracefulShutdown 10 10 True)
      else if has ''cgroup'' \<or> has zh_throttle \<or> has zh_limit \<or> has ''throttle''
      then Some (CgroupThrottle (Some 50000) None None)
      else if has zh_restart_nic \<or> has ''restart network'' \<or> has zh_network_interface
      then Some (NetworkRestart
        (if has ''eth'' then ''eth0'' else if has ''eno'' then ''eno1'' else ''eth0''))
      else if has zh_isolate \<or> has ''isolate'' then Some (IsolateNode text)
      else if has ''checkpoint'' \<and> (has zh_check \<or> has ''check'')
      then Some (CheckCheckpoint ''/tmp/checkpoints'')
      else None)"

definition signal_name :: "int \<Rightarrow> string" where
  "signal_name sig =
     (if sig = 1 then ''SIGHUP'' else if sig = 2 then ''SIGINT'' else if sig = 3 then ''SIGQUIT''
      else if sig = 9 then ''SIGKILL'' else if sig = 10 then ''SIGUSR1''
      else if sig = 12 then ''SIGUSR2'' else if sig = 15 then ''SIGTERM'' else ''UNKNOWN'')"

definition throttle_parts :: "nat option \<Rightarrow> nat option \<Rightarrow> nat option \<Rightarrow> string list" where
  "throttle_parts cpu mem io =
     (case cpu of Some c \<Rightarrow> [''CPU: '' @ show_nat (c div 1000) @ ''%''] | None \<Rightarrow> []) @
     (case mem of Some m \<Rightarrow> [[CHR 0xE5, CHR 0x86, CHR 0x85, CHR 0xE5, CHR 0xAD, CHR 0x98] @ '': '' @ show_nat (m div 1024 div 1024) @ ''MB''] | None \<Rightarrow> []) @
     (case io of Some i \<Rightarrow> [''IO: '' @ show_nat (i div 1024 div 1024) @ ''MB/s''] | None \<Rightarrow> [])"

fun description :: "action_type \<Rightarrow> string" where
  "description (Signal sig) =
     [CHR 0xE5, CHR 0x8F, CHR 0x91, CHR 0xE9, CHR 0x80, CHR 0x81, CHR 0xE4, CHR 0xBF, CHR 0xA1, CHR 0xE5,
     CHR 0x8F, CHR 0xB7] @ '' '' @ show_int sig @ '' ('' @ signal_name sig @ '')''"
| "description (CgroupThrottle cpu mem io) =
     ''Cgroup '' @ [CHR 0xE9, CHR 0x99, CHR 0x90, CHR 0xE6, CHR 0xB5, CHR 0x81] @ '': '' @ join_str '', '' (throttle_parts cpu mem io)"
| "description (NetworkRestart interface) =
     [CHR 0xE9, CHR 0x87, CHR 0x8D, CHR 0xE5, CHR 0x90, CHR 0xAF, CHR 0xE7, CHR 0xBD, CHR 0x91, CHR 0xE7,
     CHR 0xBB, CHR 0x9C, CHR 0xE6, CHR 0x8E, CHR 0xA5, CHR 0xE5, CHR 0x8F, CHR 0xA3] @ '': '' @ interface"
| "description (GracefulShutdown sig wait_seconds force_kill) =
     [CHR 0xE4, CHR 0xBC, CHR 0x98, CHR 0xE9, CHR 0x9B, CHR 0x85, CHR 0xE9, CHR 0x99, CHR 0x8D, CHR 0xE7,
     CHR 0xBA, CHR 0xA7] @ '': '' @ [CHR 0xE5, CHR 0x8F, CHR 0x91, CHR 0xE9, CHR 0x80, CHR 0x81, CHR
     0xE4, CHR 0xBF, CHR 0xA1, CHR 0xE5, CHR 0x8F, CHR 0xB7] @ '' '' @ show_int sig @
     [CHR 0xEF, CHR 0xBC, CHR 0x8C, CHR 0xE7, CHR 0xAD, CHR 0x89, CHR 0xE5, CHR 0xBE, CHR 0x85] @ '' '' @ show_nat wait_seconds @
     '' '' @ [CHR 0xE7, CHR 0xA7, CHR 0x92] @
     (if force_kill then [CHR 0xEF, CHR 0xBC, CHR 0x8C, CHR 0xE7, CHR 0x84, CHR 0xB6, CHR 0xE5, CHR 0x90, CHR 0x8E, CHR 0xE5,
     CHR 0xBC, CHR 0xBA, CHR 0xE5, CHR 0x88, CHR 0xB6, CHR 0xE7, CHR 0xBB, CHR 0x88, CHR 0xE6, CHR 0xAD,
     CHR 0xA2]
      else [])"
| "description KillProcess =
     [CHR 0xE5, CHR 0xBC, CHR 0xBA, CHR 0xE5, CHR 0x88, CHR 0xB6, CHR 0xE7, CHR 0xBB, CHR 0x88, CHR 0xE6,
     CHR 0xAD, CHR 0xA2, CHR 0xE8, CHR 0xBF, CHR 0x9B, CHR 0xE7, CHR 0xA8, CHR 0x8B]"
| "description (IsolateNode reason) =
     [CHR 0xE9, CHR 0x9A, CHR 0x94, CHR 0xE7, CHR 0xA6, CHR 0xBB, CHR 0xE8, CHR 0x8A, CHR 0x82, CHR 0xE7,
     CHR 0x82, CHR 0xB9] @ '': '' @ reason"
| "description (CheckCheckpoint dir) =
     [CHR 0xE6, CHR 0xA3, CHR 0x80, CHR 0xE6, CHR 0x9F, CHR 0xA5] @ '' Checkpoint: '' @ dir"
| "description (Custom command args) =
     [CHR 0xE6, CHR 0x89, CHR 0xA7, CHR 0xE8, CHR 0xA1, CHR 0x8C, CHR 0xE5, CHR 0x91, CHR 0xBD, CHR 0xE4,
     CHR 0xBB, CHR 0xA4] @ '': '' @ command @ '' '' @ join_str '' '' args"

section \<open>The operating system\<close>

text \<open>
  The output of a command that ran: exit status, and standard output and error after
  \<open>from_utf8_lossy\<close>.  A command that cannot be started, and a failing file operation, give the text of
  the error.  A directory listing has the names up to the first failure, each with its time of change
  in seconds where it can be read.
\<close>

record cmd_output =
  success :: bool
  stdout :: string
  stderr :: string

record 'o os =
  run_command :: "string \<Rightarrow> string list \<Rightarrow> 'o \<Rightarrow> (string + cmd_output) \<times> 'o"
  write_file :: "string \<Rightarrow> string \<Rightarrow> 'o \<Rightarrow> (string + unit) \<times> 'o"
  sleep :: "nat \<Rightarrow> 'o \<Rightarrow> 'o"
  read_to_string :: "string \<Rightarrow> 'o \<Rightarrow> string + string"
  metadata_is_dir :: "string \<Rightarrow> 'o \<Rightarrow> string + bool"
  read_dir :: "string \<Rightarrow> 'o \<Rightarrow> string + (string \<times> nat option) list"

section \<open>The executor\<close>

datatype limit_report = CpuLimited nat | CpuLimitFailed string | MemoryLimited nat | MemoryLimitFailed string

datatype exec_ok =
    SignalSent int nat
  | ThrottleApplied "limit_report list"
  | InterfaceRestarted string
  | GracefulDone int nat exec_ok
  | SignalledAndWaited int nat
  | ProcessKilled nat
  | ProcessAlreadyGone
  | NodeIsolated string
  | CheckpointsFound nat "string option"
  | CommandOutput string

datatype exec_err =
    KillNotStarted string
  | SignalFailed string
  | KillFailed string
  | CgroupJoinFailed string
  | LinkDownNotStarted string
  | LinkDownFailed string
  | LinkUpNotStarted string
  | LinkUpFailed string
  | GracefulFailed exec_err
  | ReadDirFailed string
  | NotADirectory string
  | CheckpointCheckFailed string
  | CommandNotStarted string
  | CommandFailed string

type_synonym 'o exec_result_of = "(exec_err + exec_ok) \<times> 'o"

definition send_signal :: "'o os \<Rightarrow> int \<Rightarrow> nat \<Rightarrow> 'o \<Rightarrow> 'o exec_result_of" where
  "send_signal sys sig pid w =
     (case run_command sys ''kill'' [''-'' @ show_int sig, show_nat pid] w of
        (Inl e, w) \<Rightarrow> (Inl (KillNotStarted e), w)
      | (Inr out, w) \<Rightarrow>
          if \<not> success out then (Inl (SignalFailed (stderr out)), w) else (Inr (SignalSent sig pid), w))"

definition cgroup_path :: "nat \<Rightarrow> string" where
  "cgroup_path pid = ''/sys/fs/cgroup/ark/ark-'' @ show_nat pid"

definition apply_cgroup_throttle ::
  "'o os \<Rightarrow> nat \<Rightarrow> nat option \<Rightarrow> nat option \<Rightarrow> nat option \<Rightarrow> 'o \<Rightarrow> 'o exec_result_of" where
  "apply_cgroup_throttle sys pid cpu_quota memory_limit io_limit w0 =
     (let (_, w1) = run_command sys ''mkdir'' [''-p'', cgroup_path pid] w0;
          (r1, w2) =
            (case cpu_quota of
               Some quota \<Rightarrow>
                 (case write_file sys (cgroup_path pid @ ''/cpu.cfs_quota_us'') (show_nat quota) w1 of
                    (Inl e, w) \<Rightarrow> ([CpuLimitFailed e], w)
                  | (Inr _, w) \<Rightarrow> ([CpuLimited (quota div 1000)], w))
             | None \<Rightarrow> ([], w1));
          (r2, w3) =
            (case memory_limit of
               Some limit \<Rightarrow>
                 (case write_file sys (cgroup_path pid @ ''/memory.limit_in_bytes'') (show_nat limit) w2 of
                    (Inl e, w) \<Rightarrow> ([MemoryLimitFailed e], w)
                  | (Inr _, w) \<Rightarrow> ([MemoryLimited (limit div 1024 div 1024)], w))
             | None \<Rightarrow> ([], w2)) in
      case write_file sys (cgroup_path pid @ ''/tasks'') (show_nat pid) w3 of
        (Inl e, w) \<Rightarrow> (Inl (CgroupJoinFailed e), w)
      | (Inr _, w) \<Rightarrow> (Inr (ThrottleApplied (r1 @ r2)), w))"

definition restart_network_interface :: "'o os \<Rightarrow> string \<Rightarrow> 'o \<Rightarrow> 'o exec_result_of" where
  "restart_network_interface sys interface w0 =
     (case run_command sys ''ip'' [''link'', ''set'', ''down'', interface] w0 of
        (Inl e, w) \<Rightarrow> (Inl (LinkDownNotStarted e), w)
      | (Inr down_output, w1) \<Rightarrow>
          if \<not> success down_output then (Inl (LinkDownFailed (stderr down_output)), w1)
          else
            (case run_command sys ''ip'' [''link'', ''set'', ''up'', interface] (sleep sys 1 w1) of
               (Inl e, w) \<Rightarrow> (Inl (LinkUpNotStarted e), w)
             | (Inr up_output, w) \<Rightarrow>
                 if \<not> success up_output then (Inl (LinkUpFailed (stderr up_output)), w)
                 else (Inr (InterfaceRestarted interface), w)))"

definition kill_process :: "'o os \<Rightarrow> nat \<Rightarrow> 'o \<Rightarrow> 'o exec_result_of" where
  "kill_process sys pid w =
     (case run_command sys ''kill'' [''-9'', show_nat pid] w of
        (Inl e, w) \<Rightarrow> (Inl (KillNotStarted e), w)
      | (Inr out, w) \<Rightarrow>
          if \<not> success out
          then (if contains (stderr out) ''No such process'' then Inr ProcessAlreadyGone
                else Inl (KillFailed (stderr out)), w)
          else (Inr (ProcessKilled pid), w))"

definition graceful_shutdown :: "'o os \<Rightarrow> int \<Rightarrow> nat \<Rightarrow> bool \<Rightarrow> nat \<Rightarrow> 'o \<Rightarrow> 'o exec_result_of" where
  "graceful_shutdown sys sig wait_seconds force_kill pid w0 =
     (let (signal_result, w1) = send_signal sys sig pid w0;
          go_on =
            (let w2 = sleep sys wait_seconds w1 in
             if force_kill
             then (case kill_process sys pid w2 of
                     (Inr msg, w) \<Rightarrow> (Inr (GracefulDone sig wait_seconds msg), w)
                   | (Inl e, w) \<Rightarrow> (Inl (GracefulFailed e), w))
             else (Inr (SignalledAndWaited sig wait_seconds), w2)) in
      case signal_result of
        Inl e \<Rightarrow> if force_kill then go_on else (Inl e, w1)
      | Inr _ \<Rightarrow> go_on)"

definition isolate_node :: "string \<Rightarrow> 'o \<Rightarrow> 'o exec_result_of" where
  "isolate_node reason w = (Inr (NodeIsolated reason), w)"

text \<open>The number of entries, and the name of the first one with the largest time of change above zero.\<close>

fun scan_checkpoints :: "(string \<times> nat option) list \<Rightarrow> nat \<Rightarrow> string option \<Rightarrow> nat \<Rightarrow> nat \<times> string option" where
  "scan_checkpoints [] n latest latest_time = (n, latest)"
| "scan_checkpoints ((name, modified) # entries) n latest latest_time =
     (case modified of
        Some time \<Rightarrow>
          if latest_time < time then scan_checkpoints entries (n + 1) (Some name) time
          else scan_checkpoints entries (n + 1) latest latest_time
      | None \<Rightarrow> scan_checkpoints entries (n + 1) latest latest_time)"

definition check_checkpoint :: "'o os \<Rightarrow> string \<Rightarrow> 'o \<Rightarrow> 'o exec_result_of" where
  "check_checkpoint sys dir w =
     (case metadata_is_dir sys dir w of
        Inr is_dir \<Rightarrow>
          if is_dir
          then (case read_dir sys dir w of
                  Inl e \<Rightarrow> (Inl (ReadDirFailed e), w)
                | Inr entries \<Rightarrow>
                    (let (n, latest) = scan_checkpoints entries 0 None 0 in
                     (Inr (CheckpointsFound n latest), w)))
          else (Inl (NotADirectory dir), w)
      | Inl e \<Rightarrow> (Inl (CheckpointCheckFailed e), w))"

definition execute_custom_command :: "'o os \<Rightarrow> string \<Rightarrow> string list \<Rightarrow> 'o \<Rightarrow> 'o exec_result_of" where
  "execute_custom_command sys command args w =
     (case run_command sys command args w of
        (Inl e, w) \<Rightarrow> (Inl (CommandNotStarted e), w)
      | (Inr out, w) \<Rightarrow>
          if \<not> success out then (Inl (CommandFailed (stderr out)), w)
          else (Inr (CommandOutput (trim (stdout out))), w))"

fun execute :: "'o os \<Rightarrow> action_type \<Rightarrow> nat \<Rightarrow> 'o \<Rightarrow> 'o exec_result_of" where
  "execute sys (Signal sig) pid = send_signal sys sig pid"
| "execute sys (CgroupThrottle cpu mem io) pid = apply_cgroup_throttle sys pid cpu mem io"
| "execute sys (NetworkRestart interface) pid = restart_network_interface sys interface"
| "execute sys (GracefulShutdown sig wait_seconds force_kill) pid =
     graceful_shutdown sys sig wait_seconds force_kill pid"
| "execute sys KillProcess pid = kill_process sys pid"
| "execute sys (IsolateNode reason) pid = isolate_node reason"
| "execute sys (CheckCheckpoint dir) pid = check_checkpoint sys dir"
| "execute sys (Custom command args) pid = execute_custom_command sys command args"

section \<open>The fix engine\<close>

record executed_action =
  done_action :: string
  done_result :: exec_ok
  done_priority :: nat

record failed_action =
  failed_what :: string
  failed_error :: exec_err
  failed_priority :: nat

datatype fix_message = NothingToDo | AllDone nat | SomeFailed nat nat

record fix_result =
  fix_success :: bool
  fix_message :: fix_message
  executed_actions :: "executed_action list"
  failed_actions :: "failed_action list"

fun action_priority :: "action_type \<Rightarrow> nat" where
  "action_priority (Signal _) = 1"
| "action_priority (GracefulShutdown _ _ _) = 2"
| "action_priority (CgroupThrottle _ _ _) = 3"
| "action_priority (CheckCheckpoint _) = 4"
| "action_priority (NetworkRestart _) = 5"
| "action_priority (IsolateNode _) = 6"
| "action_priority KillProcess = 10"
| "action_priority (Custom _ _) = 7"

definition parse_recommendations :: "string list \<Rightarrow> (action_type \<times> nat) list" where
  "parse_recommendations recommendations =
     sort_key snd
       (concat (map (\<lambda>rec. case from_recommendation rec of
            Some action \<Rightarrow> [(action, action_priority action)]
          | None \<Rightarrow> []) recommendations))"

fun run_fixes ::
  "'o os \<Rightarrow> nat \<Rightarrow> (action_type \<times> nat) list \<Rightarrow> 'o \<Rightarrow> executed_action list \<times> failed_action list \<times> 'o" where
  "run_fixes sys pid [] w = ([], [], w)"
| "run_fixes sys pid ((action, priority) # actions) w =
     (case execute sys action pid w of
        (Inr msg, w1) \<Rightarrow>
          (let (ok, failed, w2) = run_fixes sys pid actions w1 in
           (\<lparr>done_action = description action, done_result = msg, done_priority = priority\<rparr> # ok, failed, w2))
      | (Inl e, w1) \<Rightarrow>
          (let (ok, failed, w2) = run_fixes sys pid actions w1 in
           (ok, \<lparr>failed_what = description action, failed_error = e, failed_priority = priority\<rparr> # failed, w2)))"

definition fix_from_analysis :: "'o os \<Rightarrow> string list \<Rightarrow> nat \<Rightarrow> 'o \<Rightarrow> fix_result \<times> 'o" where
  "fix_from_analysis sys recommended_actions pid w =
     (let actions = parse_recommendations recommended_actions in
      if actions = []
      then (\<lparr>fix_success = False, fix_message = NothingToDo, executed_actions = [], failed_actions = []\<rparr>, w)
      else
        (let (ok, failed, w1) = run_fixes sys pid actions w;
             success = (failed = []) in
         (\<lparr>fix_success = success,
           fix_message = (if success then AllDone (length ok) else SomeFailed (length ok) (length failed)),
           executed_actions = ok, failed_actions = failed\<rparr>, w1)))"

section \<open>The system actuator\<close>

datatype actuator_error =
    KillCommandNotStarted string
  | KillCommandFailed string
  | ResetNotImplemented
  | UnknownActuatorAction string
  | StatUnreadable string
  | StatMalformed
  | PgidUnparsable

definition get_process_group :: "'o os \<Rightarrow> nat \<Rightarrow> 'o \<Rightarrow> actuator_error + nat" where
  "get_process_group sys pid w =
     (case read_to_string sys (''/proc/'' @ show_nat pid @ ''/stat'') w of
        Inl e \<Rightarrow> Inl (StatUnreadable e)
      | Inr stat_content \<Rightarrow>
          (let fields = split_whitespace stat_content in
           if length fields < 5 then Inl StatMalformed
           else (case parse_uint u32_max (fields ! 4) of
                   None \<Rightarrow> Inl PgidUnparsable
                 | Some pgid \<Rightarrow> Inr pgid)))"

definition kill_command :: "'o os \<Rightarrow> string \<Rightarrow> 'o \<Rightarrow> (actuator_error + unit) \<times> 'o" where
  "kill_command sys target w =
     (case run_command sys ''kill'' [''-9'', target] w of
        (Inl e, w) \<Rightarrow> (Inl (KillCommandNotStarted e), w)
      | (Inr out, w) \<Rightarrow>
          if \<not> success out
          then (if contains (stderr out) ''No such process'' then Inr ()
                else Inl (KillCommandFailed (stderr out)), w)
          else (Inr (), w))"

definition kill_process_tree :: "'o os \<Rightarrow> nat \<Rightarrow> 'o \<Rightarrow> (actuator_error + unit) \<times> 'o" where
  "kill_process_tree sys pid w =
     (case get_process_group sys pid w of
        Inr pgid \<Rightarrow> kill_command sys (''-'' @ show_nat pgid) w
      | Inl _ \<Rightarrow> kill_command sys (show_nat pid) w)"

definition actuator_execute :: "'o os \<Rightarrow> nat \<Rightarrow> string \<Rightarrow> 'o \<Rightarrow> (actuator_error + unit) \<times> 'o" where
  "actuator_execute sys target action w =
     (if action = ''kill'' \<or> action = ''zap'' then kill_process_tree sys target w
      else if action = ''reset'' then (Inl ResetNotImplemented, w)
      else (Inl (UnknownActuatorAction action), w))"

end
