(* ===== verification/Exec_Props.thy ===== *)
theory Exec_Props
  imports Exec
begin

text \<open>
  What the agent does to the machine: every command an action can lead to, the order in which the fix
  engine runs actions, and the process group the system actuator ends.
\<close>

section \<open>The commands of an action\<close>

type_synonym command = "string \<times> string list"

text \<open>The same operating system with a log of the commands given to it.\<close>

definition traced :: "'o os \<Rightarrow> ('o \<times> command list) os" where
  "traced sys =
     \<lparr>run_command = \<lambda>p args (w, l). (let (r, w1) = run_command sys p args w in (r, w1, l @ [(p, args)])),
      write_file = \<lambda>p text (w, l). (let (r, w1) = write_file sys p text w in (r, w1, l)),
      sleep = \<lambda>n (w, l). (sleep sys n w, l),
      read_to_string = \<lambda>p (w, l). read_to_string sys p w,
      metadata_is_dir = \<lambda>p (w, l). metadata_is_dir sys p w,
      read_dir = \<lambda>p (w, l). read_dir sys p w\<rparr>"

definition kill_cmd :: "string \<Rightarrow> nat \<Rightarrow> command" where
  "kill_cmd sig pid = (''kill'', [sig, show_nat pid])"

fun runs :: "nat \<Rightarrow> action_type \<Rightarrow> command list \<Rightarrow> bool" where
  "runs pid (Signal sig) cs \<longleftrightarrow> cs = [kill_cmd (''-'' @ show_int sig) pid]"
| "runs pid (CgroupThrottle _ _ _) cs \<longleftrightarrow> cs = [(''mkdir'', [''-p'', cgroup_path pid])]"
| "runs pid (NetworkRestart i) cs \<longleftrightarrow>
     cs = [(''ip'', [''link'', ''set'', ''down'', i])] \<or>
     cs = [(''ip'', [''link'', ''set'', ''down'', i]), (''ip'', [''link'', ''set'', ''up'', i])]"
| "runs pid (GracefulShutdown sig _ force) cs \<longleftrightarrow>
     cs = [kill_cmd (''-'' @ show_int sig) pid] @ (if force then [kill_cmd ''-9'' pid] else [])"
| "runs pid KillProcess cs \<longleftrightarrow> cs = [kill_cmd ''-9'' pid]"
| "runs pid (IsolateNode _) cs \<longleftrightarrow> cs = []"
| "runs pid (CheckCheckpoint _) cs \<longleftrightarrow> cs = []"
| "runs pid (Custom p args) cs \<longleftrightarrow> cs = [(p, args)]"

text \<open>One traced action: the same result and machine as without the log, and its commands at the end of the log.\<close>

definition trace_ok :: "nat \<Rightarrow> action_type \<Rightarrow> command list \<Rightarrow> 'o exec_result_of \<Rightarrow>
    ('o \<times> command list) exec_result_of \<Rightarrow> bool" where
  "trace_ok pid a l plain logged \<longleftrightarrow>
     fst logged = fst plain \<and> fst (snd logged) = snd plain \<and>
     (\<exists>cs. snd (snd logged) = l @ cs \<and> runs pid a cs)"

lemmas executor_defs = send_signal_def kill_process_def graceful_shutdown_def apply_cgroup_throttle_def
  restart_network_interface_def isolate_node_def check_checkpoint_def execute_custom_command_def

lemma send_signal_traced:
  "send_signal (traced sys) sig pid (w, l) =
     (let (r, w1) = send_signal sys sig pid w in (r, w1, l @ [kill_cmd (''-'' @ show_int sig) pid]))"
  by (auto simp: send_signal_def traced_def kill_cmd_def split: prod.splits sum.splits)

lemma kill_process_traced:
  "kill_process (traced sys) pid (w, l) =
     (let (r, w1) = kill_process sys pid w in (r, w1, l @ [kill_cmd ''-9'' pid]))"
  by (auto simp: kill_process_def traced_def kill_cmd_def split: prod.splits sum.splits)

lemma sleep_traced: "sleep (traced sys) n (w, l) = (sleep sys n w, l)"
  by (simp add: traced_def)

lemma graceful_traced:
  "trace_ok pid (GracefulShutdown sig n force) l (graceful_shutdown sys sig n force pid w)
     (graceful_shutdown (traced sys) sig n force pid (w, l))"
  by (auto simp: trace_ok_def graceful_shutdown_def send_signal_traced kill_process_traced sleep_traced Let_def
      split: prod.splits sum.splits)

lemma throttle_traced:
  "trace_ok pid (CgroupThrottle cpu mem io) l (apply_cgroup_throttle sys pid cpu mem io w)
     (apply_cgroup_throttle (traced sys) pid cpu mem io (w, l))"
  by (cases cpu; cases mem)
     (auto simp: trace_ok_def apply_cgroup_throttle_def traced_def Let_def split: prod.splits sum.splits)

lemma restart_traced:
  "trace_ok pid (NetworkRestart i) l (restart_network_interface sys i w)
     (restart_network_interface (traced sys) i (w, l))"
  by (auto simp: trace_ok_def restart_network_interface_def traced_def Let_def split: prod.splits sum.splits)

lemma execute_traced: "trace_ok pid a l (execute sys a pid w) (execute (traced sys) a pid (w, l))"
proof (cases a)
  case (Signal sig)
  then show ?thesis by (simp add: trace_ok_def send_signal_traced split: prod.splits)
next
  case KillProcess
  then show ?thesis by (simp add: trace_ok_def kill_process_traced split: prod.splits)
next
  case (IsolateNode reason)
  then show ?thesis by (simp add: trace_ok_def isolate_node_def)
next
  case (CheckCheckpoint dir)
  then show ?thesis
    by (auto simp: trace_ok_def check_checkpoint_def traced_def Let_def split: prod.splits sum.splits)
next
  case (Custom p args)
  then show ?thesis
    by (auto simp: trace_ok_def execute_custom_command_def traced_def Let_def split: prod.splits sum.splits)
qed (simp_all add: graceful_traced throttle_traced restart_traced)

section \<open>The order of fixes\<close>

definition recommended :: "string list \<Rightarrow> action_type list" where
  "recommended recs = List.map_filter from_recommendation recs"

lemma recommended_pairs:
  "concat (map (\<lambda>rec. case from_recommendation rec of
       Some action \<Rightarrow> [(action, action_priority action)] | None \<Rightarrow> []) recs) =
   map (\<lambda>a. (a, action_priority a)) (recommended recs)"
  by (induction recs) (auto simp: recommended_def List.map_filter_simps split: option.splits)

lemma insort_key_map: "insort_key f (g x) (map g xs) = map g (insort_key (f \<circ> g) x xs)"
  by (induction xs) simp_all

lemma sort_key_map: "sort_key f (map g xs) = map g (sort_key (f \<circ> g) xs)"
  by (induction xs) (simp_all add: insort_key_map comp_def)

lemma parse_recommendations_sorted:
  "parse_recommendations recs = map (\<lambda>a. (a, action_priority a)) (sort_key action_priority (recommended recs))"
  by (simp add: parse_recommendations_def recommended_pairs sort_key_map comp_def)

text \<open>The commands of a run come in the order of the actions, and every action is accounted for.\<close>

lemma run_fixes_traced:
  "\<exists>ok failed w1 css. run_fixes (traced sys) pid (map (\<lambda>a. (a, action_priority a)) as) (w, l) =
       (ok, failed, w1, l @ concat css) \<and>
     list_all2 (runs pid) as css \<and> length ok + length failed = length as"
proof (induction as arbitrary: w l)
  case Nil
  then show ?case by (auto intro: exI[of _ "[]"])
next
  case (Cons a as)
  obtain r w1 l1 where e: "execute (traced sys) a pid (w, l) = (r, w1, l1)" by (metis prod.exhaust)
  from execute_traced[of pid a l sys w] obtain cs where cs: "l1 = l @ cs" "runs pid a cs"
    by (auto simp: trace_ok_def e)
  from Cons.IH[of w1 l1] obtain ok failed w2 css where
    r: "run_fixes (traced sys) pid (map (\<lambda>a. (a, action_priority a)) as) (w1, l1) = (ok, failed, w2, l1 @ concat css)"
    "list_all2 (runs pid) as css" "length ok + length failed = length as"
    by blast
  show ?case
    by (cases r) (auto simp: e r(1)[unfolded cs(1)] r cs intro!: exI[of _ "cs # css"])
qed

text \<open>In a list sorted by priority the checkpoint signals are in front.\<close>

lemma priority_signal: "action_priority a = 1 \<longleftrightarrow> (\<exists>sig. a = Signal sig)" "1 \<le> action_priority a"
  by (cases a; simp)+

lemma recommended_signal: "Signal sig \<in> set (recommended recs) \<Longrightarrow> sig = 10"
  by (induction recs)
     (auto simp: recommended_def List.map_filter_simps from_recommendation_def Let_def split: option.splits if_splits)

lemma sorted_ones_front:
  "sorted (map f xs) \<Longrightarrow> list_all (\<lambda>x. (1::nat) \<le> f x) xs \<Longrightarrow>
   xs = filter (\<lambda>x. f x = 1) xs @ filter (\<lambda>x. f x \<noteq> 1) xs"
proof (induction xs)
  case (Cons x xs)
  have "filter (\<lambda>y. f y = 1) xs = []" if "f x \<noteq> 1"
    using Cons.prems that by (fastforce simp: filter_empty_conv)
  with Cons show ?case by (cases "f x = 1") (auto simp: filter_empty_conv filter_id_conv)
qed simp

lemma signals_front:
  "sort_key action_priority (recommended recs) =
     replicate (length (filter (\<lambda>a. a = Signal 10) (recommended recs))) (Signal 10) @
     filter (\<lambda>a. a \<noteq> Signal 10) (sort_key action_priority (recommended recs))"
proof -
  define as where "as = sort_key action_priority (recommended recs)"
  have sig: "(action_priority a = 1) = (a = Signal 10)" if "a \<in> set as" for a
  proof
    assume "action_priority a = 1"
    then obtain sig where a: "a = Signal sig" using priority_signal(1)[of a] by blast
    with recommended_signal[of sig recs] that show "a = Signal 10" by (simp add: as_def)
  qed simp
  have "as = filter (\<lambda>a. action_priority a = 1) as @ filter (\<lambda>a. action_priority a \<noteq> 1) as"
    by (rule sorted_ones_front) (use priority_signal(2) in \<open>simp_all add: as_def list_all_iff\<close>)
  moreover have "filter (\<lambda>a. action_priority a = 1) as = filter (\<lambda>a. a = Signal 10) as"
    "filter (\<lambda>a. action_priority a \<noteq> 1) as = filter (\<lambda>a. a \<noteq> Signal 10) as"
    by (intro filter_cong refl; simp only: sig)+
  moreover have "filter (\<lambda>a. a = Signal 10) as = replicate (length (filter (\<lambda>a. a = Signal 10) as)) (Signal 10)"
    by (intro replicate_length_same[symmetric]) simp
  moreover have "length (filter (\<lambda>a. a = Signal 10) as) = length (filter (\<lambda>a. a = Signal 10) (recommended recs))"
    by (rule mset_eq_length) (simp add: as_def mset_filter)
  ultimately show ?thesis unfolding as_def[symmetric] by metis
qed

lemma runs_signals: "list_all2 (runs pid) (replicate n (Signal sig)) css \<Longrightarrow>
    concat css = replicate n (kill_cmd (''-'' @ show_int sig) pid)"
  by (induction n arbitrary: css) (auto simp: list_all2_Cons1)

text \<open>
  \<^bold>\<open>C35.\<close>  A fix runs every recommended action that is understood, once, by priority, with just the
  commands of that action on just that process; the signals that ask for a checkpoint are the first
  commands of all; and the report accounts for every action.  (A graceful shutdown, of priority 2, is a
  signal and then a kill: whatever has a higher number runs after it.)
\<close>

theorem fix_order:
  "let acts = map fst (parse_recommendations recs);
       (res, _, cs) = fix_from_analysis (traced sys) recs pid (w, []);
       n = length (filter (\<lambda>a. a = Signal 10) acts) in
     mset acts = mset (recommended recs) \<and> sorted (map action_priority acts) \<and>
     (\<exists>css. cs = concat css \<and> list_all2 (runs pid) acts css) \<and>
     take n cs = replicate n (kill_cmd ''-10'' pid) \<and>
     length (executed_actions res) + length (failed_actions res) = length acts \<and>
     fix_success res = (acts \<noteq> [] \<and> failed_actions res = [])"
proof -
  define as where "as = sort_key action_priority (recommended recs)"
  have p: "parse_recommendations recs = map (\<lambda>a. (a, action_priority a)) as"
    by (simp add: parse_recommendations_sorted as_def)
  then have acts: "map fst (parse_recommendations recs) = as" by (simp add: comp_def)
  define n where "n = length (filter (\<lambda>a. a = Signal 10) as)"
  have n: "n = length (filter (\<lambda>a. a = Signal 10) (recommended recs))"
    unfolding n_def by (rule mset_eq_length) (simp add: as_def mset_filter)
  obtain ok failed w1 css where r: "run_fixes (traced sys) pid (parse_recommendations recs) (w, []) =
      (ok, failed, w1, concat css)" "list_all2 (runs pid) as css" "length ok + length failed = length as"
    using run_fixes_traced[of sys pid as w "[]"] unfolding p by auto
  have "take n (concat css) = replicate n (kill_cmd ''-10'' pid)"
  proof -
    obtain us vs where css: "css = us @ vs" "list_all2 (runs pid) (replicate n (Signal 10)) us"
      using r(2) signals_front[of recs] unfolding as_def[symmetric] n[symmetric]
      by (metis list_all2_append1)
    have "show_int 10 = ''10''" by code_simp
    with runs_signals[OF css(2)] css(1) show ?thesis by simp
  qed
  note front = this
  have ms: "mset as = mset (recommended recs)" "sorted (map action_priority as)" by (simp_all add: as_def)
  show ?thesis
  proof (cases "as = []")
    case True
    then show ?thesis using ms by (simp add: p fix_from_analysis_def)
  next
    case False
    then have f: "fix_from_analysis (traced sys) recs pid (w, []) =
        (\<lparr>fix_success = (failed = []),
          fix_message = (if failed = [] then AllDone (length ok) else SomeFailed (length ok) (length failed)),
          executed_actions = ok, failed_actions = failed\<rparr>, w1, concat css)"
      by (simp add: fix_from_analysis_def r(1)[unfolded p] p)
    show ?thesis unfolding acts f Let_def n_def[symmetric] using ms r(2,3) front False by auto
  qed
qed

section \<open>Process groups\<close>

text \<open>Printable ASCII without the space.\<close>

definition graphic :: "string \<Rightarrow> bool" where
  "graphic s \<longleftrightarrow> s \<noteq> [] \<and> list_all (\<lambda>c. 0x21 \<le> (of_char c :: nat) \<and> (of_char c :: nat) \<le> 0x7E) s"

lemma at_space_graphic: "0x21 \<le> (of_char c :: nat) \<Longrightarrow> (of_char c :: nat) \<le> 0x7E \<Longrightarrow> \<not> at_space (c # cs)"
  by (auto simp: at_space_def ws_encodings_def)

lemma at_space_blank: "at_space (CHR '' '' # cs)"
  by (simp add: at_space_def ws_encodings_def)

lemma take_word_graphic: "graphic w \<Longrightarrow> take_word (w @ CHR '' '' # s) = (w, CHR '' '' # s)"
proof (induction w)
  case (Cons c w)
  then show ?case
    by (cases "w = []") (auto simp: graphic_def at_space_graphic at_space_blank)
qed (simp add: graphic_def)

lemma trim_start_graphic: "graphic w \<Longrightarrow> trim_start (w @ s) = w @ s"
proof (cases w)
  case (Cons c cs)
  moreover assume "graphic w"
  ultimately have "\<not> at_space (w @ s)" by (simp add: graphic_def at_space_graphic)
  then have "find (\<lambda>u. u \<noteq> [] \<and> starts_with (w @ s) u) ws_encodings = None"
    by (auto simp: at_space_def find_None_iff list_ex_iff)
  then show ?thesis by (simp add: trim_start_def trim_front.simps)
qed (simp add: graphic_def)

lemma split_graphic: "graphic w \<Longrightarrow> split_whitespace (w @ CHR '' '' # s) = w # split_whitespace (CHR '' '' # s)"
  by (subst split_whitespace.simps) (auto simp: trim_start_graphic take_word_graphic graphic_def)

lemma trim_start_blank: "trim_start (CHR '' '' # s) = trim_start s"
proof -
  have "find (\<lambda>u. u \<noteq> [] \<and> starts_with (CHR '' '' # s) u) ws_encodings = Some '' ''"
    by (simp add: ws_encodings_def)
  then show ?thesis by (simp add: trim_start_def trim_front.simps[of _ "CHR '' '' # s"])
qed

lemma split_blank: "split_whitespace (CHR '' '' # s) = split_whitespace s"
  by (subst (1 2) split_whitespace.simps) (simp only: trim_start_blank)

lemma split_words: "list_all graphic ws \<Longrightarrow>
    split_whitespace (concat (map (\<lambda>w. w @ '' '') ws) @ s) = ws @ split_whitespace s"
  by (induction ws) (simp_all add: split_graphic split_blank)

lemma graphic_show_nat: "graphic (show_nat n)"
proof -
  have "0x21 \<le> (of_char c :: nat) \<and> (of_char c :: nat) \<le> 0x7E" if "is_digit c" for c
    using that by (simp add: is_digit_def)
  then show ?thesis using show_nat_digits[of n] show_nat_nonempty[of n] by (auto simp: graphic_def list_all_iff)
qed

text \<open>
  The line the kernel gives for a process: its number, the name of its command in parentheses, as the
  process set it, its state, the number of its parent and its process group, and more.
\<close>

definition stat_line :: "nat \<Rightarrow> string \<Rightarrow> char \<Rightarrow> nat \<Rightarrow> nat \<Rightarrow> string \<Rightarrow> string" where
  "stat_line pid comm st ppid pgrp others =
     show_nat pid @ '' ('' @ comm @ '') '' @ [st] @ '' '' @ show_nat ppid @ '' '' @ show_nat pgrp @ '' '' @ others"

text \<open>The words of the line, for a name of one, two or three words.\<close>

lemma stat_words:
  assumes "list_all graphic names" "graphic [st]" "length names \<in> {1, 2, 3}"
  shows "\<exists>ws. list_all graphic ws \<and> length ws = length names \<and>
    split_whitespace (stat_line pid (join_str '' '' names) st ppid pgrp others) =
      show_nat pid # ws @ [[st], show_nat ppid, show_nat pgrp] @ split_whitespace others"
proof -
  define inner where "inner = (case names of [a] \<Rightarrow> [''('' @ a @ '')''] | [a, b] \<Rightarrow> [''('' @ a, b @ '')'']
    | a # b # c # _ \<Rightarrow> [''('' @ a, b, c @ '')''] | [] \<Rightarrow> [])"
  obtain a b c where n: "names = [a] \<or> names = [a, b] \<or> names = [a, b, c]"
    using assms(3) by (auto simp: numeral_eq_Suc length_Suc_conv)
  have g: "list_all graphic inner" "length inner = length names"
    using n assms(1) by (auto simp: inner_def graphic_def)
  have "stat_line pid (join_str '' '' names) st ppid pgrp others =
      concat (map (\<lambda>w. w @ '' '') (show_nat pid # inner @ [[st], show_nat ppid, show_nat pgrp])) @ others"
    using n by (auto simp: stat_line_def inner_def)
  with g show ?thesis
    using split_words[of "show_nat pid # inner @ [[st], show_nat ppid, show_nat pgrp]" others] assms(2)
    by (auto simp: graphic_show_nat)
qed

text \<open>
  \<^bold>\<open>C36.\<close>  Which processes \<open>kill_process_tree\<close> ends depends on the name of the command.  With a name of one
  word it is the process group, as intended.  With two words the columns shift by one: the number taken
  for the group is that of the parent, and the group of the parent is killed (every process of the
  machine when the parent is process 1, since \<open>kill -9 -1\<close> means all).  With three words it is only the
  process itself, and its group survives.
\<close>

theorem process_group_by_name:
  assumes "read_to_string sys (''/proc/'' @ show_nat pid @ ''/stat'') w =
      Inr (stat_line pid (join_str '' '' names) st ppid pgrp others)"
    and "list_all graphic names" "graphic [st]" "\<not> is_digit st" "st \<noteq> CHR ''+''"
    and "length names \<in> {1, 2, 3}" "ppid \<le> u32_max" "pgrp \<le> u32_max"
  shows "kill_process_tree sys pid w =
    kill_command sys
      (if length names = 1 then ''-'' @ show_nat pgrp
       else if length names = 2 then ''-'' @ show_nat ppid
       else show_nat pid) w"
proof -
  obtain ws where ws: "length ws = length names"
    "split_whitespace (stat_line pid (join_str '' '' names) st ppid pgrp others) =
      show_nat pid # ws @ [[st], show_nat ppid, show_nat pgrp] @ split_whitespace others"
    using stat_words[OF assms(2,3,6)] by blast
  obtain a b c where n: "ws = [a] \<or> ws = [a, b] \<or> ws = [a, b, c]"
    using assms(6) ws(1) by (auto simp: numeral_eq_Suc length_Suc_conv)
  have "parse_uint u32_max [st] = None" using assms(4,5) by (simp add: parse_uint_def)
  then have "get_process_group sys pid w =
      (if length ws = 1 then Inr pgrp else if length ws = 2 then Inr ppid else Inl PgidUnparsable)"
    unfolding get_process_group_def assms(1) using n by (auto simp: ws(2) parse_show_nat assms(7,8))
  then show ?thesis unfolding ws(1)[symmetric] by (simp add: kill_process_tree_def)
qed

text \<open>A machine that runs nothing and shows one line for every process; its state is the list of commands.\<close>

definition one_line :: "string \<Rightarrow> command list os" where
  "one_line line =
     \<lparr>run_command = \<lambda>p args w. (Inr \<lparr>success = True, stdout = [], stderr = []\<rparr>, w @ [(p, args)]),
      write_file = \<lambda>p text w. (Inr (), w),
      sleep = \<lambda>n w. w,
      read_to_string = \<lambda>p w. Inr line,
      metadata_is_dir = \<lambda>p w. Inr False,
      read_dir = \<lambda>p w. Inr []\<rparr>"

theorem process_group_by_name_witness:
  "kill_process_tree (one_line (stat_line 77 ''python'' CHR ''S'' 1 70 ''70 0'')) 77 [] =
     (Inr (), [(''kill'', [''-9'', ''-70''])]) \<and>
   kill_process_tree (one_line (stat_line 77 ''tmux: server'' CHR ''S'' 1 70 ''70 0'')) 77 [] =
     (Inr (), [(''kill'', [''-9'', ''-1''])])"
proof -
  have run: "kill_command (one_line line) target [] = (Inr (), [(''kill'', [''-9'', target])])" for line target
    by (simp add: kill_command_def one_line_def)
  have nums: "show_nat (Suc 0) = ''1''" "show_nat 70 = ''70''" by code_simp+
  have read: "read_to_string (one_line line) p w = Inr line" for line p w by (simp add: one_line_def)
  have gr: "graphic ''python''" "graphic ''tmux:''" "graphic ''server''" "graphic ''S''" "\<not> is_digit CHR ''S''"
    by (simp_all add: graphic_def is_digit_def)
  have "kill_process_tree (one_line (stat_line 77 ''python'' CHR ''S'' 1 70 ''70 0'')) 77 [] =
      (Inr (), [(''kill'', [''-9'', ''-70''])])"
    using process_group_by_name[where sys = "one_line (stat_line 77 ''python'' CHR ''S'' 1 70 ''70 0'')" and pid = 77
        and names = "[''python'']" and st = "CHR ''S''" and ppid = 1 and pgrp = 70 and others = "''70 0''" and w = "[]"]
    by (simp add: gr run nums read u32_max_def)
  moreover have "kill_process_tree (one_line (stat_line 77 ''tmux: server'' CHR ''S'' 1 70 ''70 0'')) 77 [] =
      (Inr (), [(''kill'', [''-9'', ''-1''])])"
    using process_group_by_name[where sys = "one_line (stat_line 77 ''tmux: server'' CHR ''S'' 1 70 ''70 0'')" and pid = 77
        and names = "[''tmux:'', ''server'']" and st = "CHR ''S''" and ppid = 1 and pgrp = 70
        and others = "''70 0''" and w = "[]"]
    by (simp add: gr run nums read u32_max_def)
  ultimately show ?thesis by simp
qed

end
