(* ===== verification/Audit_Log.thy ===== *)
theory Audit_Log
  imports Prelude
begin

text \<open>
  \<^bold>\<open>agent/src/audit.rs\<close>: the audit log of the fixes an agent carries out, with rotation by size.  The file
  system has names for files and, separately, their contents, since an open file keeps its contents when
  it is renamed.  The JSON text of an entry and the readings of the clock are parameters.
\<close>

section \<open>Files\<close>

record audit_fs =
  fs_names :: "(string, nat) hashmap"
  fs_data :: "(nat, string) hashmap"

definition fs_empty :: audit_fs where
  "fs_empty = \<lparr>fs_names = [], fs_data = []\<rparr>"

definition fs_fresh :: "audit_fs \<Rightarrow> nat" where
  "fs_fresh fs = Suc (fold max (map fst (fs_data fs)) 0)"

definition data_of :: "audit_fs \<Rightarrow> nat \<Rightarrow> string" where
  "data_of fs i = (case hm_get (fs_data fs) i of Some t \<Rightarrow> t | None \<Rightarrow> [])"

definition fs_read :: "audit_fs \<Rightarrow> string \<Rightarrow> string option" where
  "fs_read fs path = map_option (data_of fs) (hm_get (fs_names fs) path)"

text \<open>Opening for appending, with creation.\<close>

definition fs_open :: "string \<Rightarrow> audit_fs \<Rightarrow> nat \<times> audit_fs" where
  "fs_open path fs =
     (case hm_get (fs_names fs) path of
        Some i \<Rightarrow> (i, fs)
      | None \<Rightarrow>
          (let i = fs_fresh fs in
           (i, fs\<lparr>fs_names := hm_insert path i (fs_names fs), fs_data := hm_insert i [] (fs_data fs)\<rparr>)))"

text \<open>Renaming replaces a file that has the new name.\<close>

definition fs_rename :: "string \<Rightarrow> string \<Rightarrow> audit_fs \<Rightarrow> audit_fs option" where
  "fs_rename a b fs =
     (case hm_get (fs_names fs) a of
        None \<Rightarrow> None
      | Some i \<Rightarrow> Some (fs\<lparr>fs_names := hm_insert b i (hm_remove a (fs_names fs))\<rparr>))"

definition fs_append :: "nat \<Rightarrow> string \<Rightarrow> audit_fs \<Rightarrow> audit_fs" where
  "fs_append i text fs = fs\<lparr>fs_data := hm_insert i (data_of fs i @ text) (fs_data fs)\<rparr>"

text \<open>
  \<open>Path::with_extension\<close>: the last dot of the file name, if it is not its first character, starts the
  extension.  A path without a file name, which the library leaves alone, is not the path of a log: it
  names a directory and cannot be opened for writing.
\<close>

definition file_name :: "string \<Rightarrow> string" where
  "file_name path = rev (takeWhile (\<lambda>c. c \<noteq> CHR ''/'') (rev path))"

definition file_stem :: "string \<Rightarrow> string" where
  "file_stem name =
     (let before = rev (drop 1 (dropWhile (\<lambda>c. c \<noteq> CHR ''.'') (rev name))) in
      if before = [] then name else before)"

definition with_extension :: "string \<Rightarrow> string \<Rightarrow> string" where
  "with_extension path ext =
     (let name = file_name path in
      take (length path - length name) path @ file_stem name @ ''.'' @ ext)"

section \<open>Entries\<close>

record audit_log_entry =
  entry_timestamp :: string
  entry_user :: string
  entry_action :: string
  entry_target_pid :: nat
  entry_target_job_id :: "string option"
  entry_result :: string
  entry_details :: string

text \<open>The variables USER and USERNAME.\<close>

definition get_current_user :: "string option \<Rightarrow> string option \<Rightarrow> string" where
  "get_current_user user username =
     (case user of Some u \<Rightarrow> u | None \<Rightarrow> (case username of Some u \<Rightarrow> u | None \<Rightarrow> ''unknown''))"

definition create_audit_entry ::
  "string \<Rightarrow> string \<Rightarrow> string \<Rightarrow> nat \<Rightarrow> string option \<Rightarrow> string \<Rightarrow> string \<Rightarrow> audit_log_entry" where
  "create_audit_entry now_rfc3339 user action pid job result details =
     \<lparr>entry_timestamp = now_rfc3339, entry_user = user, entry_action = action, entry_target_pid = pid,
      entry_target_job_id = job, entry_result = result, entry_details = details\<rparr>"

section \<open>The logger\<close>

text \<open>
  \<open>audit_handle\<close> is the open file and \<open>audit_buffer\<close> what the buffered writer could not write yet.  The faults say
  which operations of the file system succeed; a write that fails leaves the text in the buffer.
\<close>

record audit_logger =
  audit_handle :: nat
  audit_buffer :: string
  log_path :: string
  max_size :: nat
  current_size :: nat

record audit_faults =
  dir_ok :: bool
  open_ok :: bool
  metadata_ok :: bool
  flush_ok :: bool
  rename_ok :: bool
  reopen_ok :: bool
  write_ok :: bool

definition no_faults :: audit_faults where
  "no_faults = \<lparr>dir_ok = True, open_ok = True, metadata_ok = True, flush_ok = True, rename_ok = True, reopen_ok = True, write_ok = True\<rparr>"

datatype audit_error = DirFailed | OpenFailed | MetadataFailed | FlushFailed | RenameFailed | ReopenFailed | WriteFailed

text \<open>
  The limit is a 64-bit product, which wraps around in a build without overflow checks.  A log that cannot
  tell its size is an error after the file is there.
\<close>

definition audit_new ::
  "audit_faults \<Rightarrow> string \<Rightarrow> nat \<Rightarrow> audit_fs \<Rightarrow> (audit_error + audit_logger) \<times> audit_fs" where
  "audit_new flt path max_size_mb fs =
     (if \<not> dir_ok flt then (Inl DirFailed, fs)
      else if \<not> open_ok flt then (Inl OpenFailed, fs)
      else (let (i, fs1) = fs_open path fs in
            if \<not> metadata_ok flt then (Inl MetadataFailed, fs1)
            else (Inr \<lparr>audit_handle = i, audit_buffer = [], log_path = path, max_size = max_size_mb * 1024 * 1024 mod 2 ^ 64,
                       current_size = length (data_of fs1 i)\<rparr>, fs1)))"

definition rotated_path :: "string \<Rightarrow> string \<Rightarrow> string" where
  "rotated_path path stamp = with_extension path (stamp @ ''.log'')"

definition rotate_log ::
  "audit_faults \<Rightarrow> string \<Rightarrow> audit_logger \<Rightarrow> audit_fs \<Rightarrow> (audit_error + unit) \<times> audit_logger \<times> audit_fs" where
  "rotate_log flt stamp lg fs =
     (if audit_buffer lg \<noteq> [] \<and> \<not> flush_ok flt then (Inl FlushFailed, lg, fs)
      else
        (let fs1 = fs_append (audit_handle lg) (audit_buffer lg) fs; lg1 = lg\<lparr>audit_buffer := []\<rparr> in
         case (if rename_ok flt then fs_rename (log_path lg) (rotated_path (log_path lg) stamp) fs1 else None) of
           None \<Rightarrow> (Inl RenameFailed, lg1, fs1)
         | Some fs2 \<Rightarrow>
             if \<not> reopen_ok flt then (Inl ReopenFailed, lg1, fs2)
             else (let (i, fs3) = fs_open (log_path lg) fs2 in (Inr (), lg1\<lparr>audit_handle := i\<rparr>, fs3))))"

definition write_line ::
  "audit_faults \<Rightarrow> string \<Rightarrow> audit_logger \<Rightarrow> audit_fs \<Rightarrow> (audit_error + unit) \<times> audit_logger \<times> audit_fs" where
  "write_line flt line lg fs =
     (if write_ok flt
      then (Inr (), lg\<lparr>audit_buffer := [], current_size := current_size lg + length line\<rparr>,
            fs_append (audit_handle lg) (audit_buffer lg @ line) fs)
      else (Inl WriteFailed, lg\<lparr>audit_buffer := audit_buffer lg @ line\<rparr>, fs))"

definition audit_log ::
  "(audit_log_entry \<Rightarrow> string) \<Rightarrow> audit_faults \<Rightarrow> string \<Rightarrow> audit_log_entry \<Rightarrow> audit_logger \<Rightarrow> audit_fs \<Rightarrow>
   (audit_error + unit) \<times> audit_logger \<times> audit_fs" where
  "audit_log to_json flt stamp entry lg fs =
     (let line = to_json entry @ [CHR 0x0A] in
      if max_size lg < current_size lg + length line
      then (case rotate_log flt stamp lg fs of
              (Inl e, lg1, fs1) \<Rightarrow> (Inl e, lg1, fs1)
            | (Inr _, lg1, fs1) \<Rightarrow> write_line flt line (lg1\<lparr>current_size := 0\<rparr>) fs1)
      else write_line flt line lg fs)"

fun audit_run ::
  "(audit_log_entry \<Rightarrow> string) \<Rightarrow> (string \<times> audit_log_entry) list \<Rightarrow> audit_logger \<Rightarrow> audit_fs \<Rightarrow> audit_logger \<times> audit_fs" where
  "audit_run to_json [] lg fs = (lg, fs)"
| "audit_run to_json ((stamp, entry) # es) lg fs =
     (let (_, lg1, fs1) = audit_log to_json no_faults stamp entry lg fs in audit_run to_json es lg1 fs1)"

section \<open>No entry is lost\<close>

lemma fold_max_ge: "x \<in> set xs \<or> x \<le> m \<Longrightarrow> x \<le> fold max xs (m :: nat)"
proof (induction xs arbitrary: m)
  case (Cons y xs)
  have "x \<in> set xs \<or> x \<le> max y m" using Cons.prems by (auto simp: le_max_iff_disj)
  from Cons.IH[OF this] show ?case by simp
qed simp

lemma fs_fresh_new: "hm_get (fs_data fs) (fs_fresh fs) = None"
proof (rule ccontr)
  assume "hm_get (fs_data fs) (fs_fresh fs) \<noteq> None"
  then have "fs_fresh fs \<in> set (map fst (fs_data fs))"
    by (simp only: hm_get_def map_of_eq_None_iff set_map) blast
  then have "fs_fresh fs \<le> fold max (map fst (fs_data fs)) 0" by (intro fold_max_ge disjI1)
  then show False unfolding fs_fresh_def by (rule Suc_n_not_le_n[THEN notE])
qed

lemma data_of_append: "data_of (fs_append i t fs) j = (if j = i then data_of fs i @ t else data_of fs j)"
  by (simp add: data_of_def fs_append_def hm_simps)

lemma file_stem_dot: "file_stem name @ ''.'' @ stamp @ ''.log'' \<noteq> name"
proof (cases "rev (drop 1 (dropWhile (\<lambda>c. c \<noteq> CHR ''.'') (rev name))) = []")
  case True
  then show ?thesis by (simp add: file_stem_def)
next
  case False
  define r where "r = dropWhile (\<lambda>c. c \<noteq> CHR ''.'') (rev name)"
  define ext where "ext = rev (takeWhile (\<lambda>c. c \<noteq> CHR ''.'') (rev name))"
  have ext: "CHR ''.'' \<notin> set ext" 
  proof
    assume "CHR ''.'' \<in> set ext"
    then have "CHR ''.'' \<in> set (takeWhile (\<lambda>c. c \<noteq> CHR ''.'') (rev name))" unfolding ext_def set_rev .
    from conjunct2[OF set_takeWhileD[OF this]] show False by simp
  qed
  have "r \<noteq> []" using False unfolding r_def[symmetric] by (cases r) simp_all
  moreover from this have "hd r = CHR ''.''"
    using hd_dropWhile[of "\<lambda>c. c \<noteq> CHR ''.''" "rev name"] unfolding r_def by blast
  ultimately obtain t where t: "r = CHR ''.'' # t" by (cases r) simp_all
  have "rev name = takeWhile (\<lambda>c. c \<noteq> CHR ''.'') (rev name) @ r" by (simp add: r_def)
  from arg_cong[OF this, of rev] have "name = rev r @ ext" unfolding rev_append rev_rev_ident ext_def .
  moreover have "rev r = rev t @ ''.''" by (simp add: t)
  ultimately have name: "name = rev t @ ''.'' @ ext" by (simp only: append_assoc)
  moreover have "file_stem name = rev t" using False by (simp add: file_stem_def r_def[symmetric] t Let_def)
  ultimately have "file_stem name @ ''.'' @ stamp @ ''.log'' = name \<longleftrightarrow> stamp @ ''.log'' = ext" by simp
  then show ?thesis using ext by auto
qed

lemma rotated_path_inject: "rotated_path path s = rotated_path path t \<longleftrightarrow> s = t"
  by (simp add: rotated_path_def with_extension_def Let_def)

lemma rotated_path_other: "rotated_path path stamp \<noteq> path"
proof
  assume "rotated_path path stamp = path"
  have "path = take (length path - length (file_name path)) path @ file_name path"
  proof -
    have "rev path = takeWhile (\<lambda>c. c \<noteq> CHR ''/'') (rev path) @ dropWhile (\<lambda>c. c \<noteq> CHR ''/'') (rev path)" by simp
    from arg_cong[OF this, of rev]
    have "path = rev (dropWhile (\<lambda>c. c \<noteq> CHR ''/'') (rev path)) @ file_name path"
      unfolding file_name_def rev_append rev_rev_ident .
    then obtain u where u: "path = u @ file_name path" by blast
    have "length path = length u + length (file_name path)"
      by (rule trans[OF arg_cong[OF u, of length] length_append])
    then have n: "length path - length (file_name path) = length u" by arith
    have t: "take (length u) path = u" by (subst u) simp
    show ?thesis unfolding n t by (rule u)
  qed
  moreover have "path = take (length path - length (file_name path)) path @ file_stem (file_name path) @ ''.'' @ stamp @ ''.log''"
    using \<open>rotated_path path stamp = path\<close> by (simp add: rotated_path_def with_extension_def Let_def)
  ultimately have "file_stem (file_name path) @ ''.'' @ stamp @ ''.log'' = file_name path"
    by (metis same_append_eq)
  with file_stem_dot show False by blast
qed

lemma names_append [simp]: "fs_names (fs_append i t fs) = fs_names fs"
  by (simp add: fs_append_def)

definition has_data :: "audit_fs \<Rightarrow> nat \<Rightarrow> bool" where
  "has_data fs i \<longleftrightarrow> hm_get (fs_data fs) i \<noteq> None"

lemma has_data_append: "has_data (fs_append i t fs) j \<longleftrightarrow> j = i \<or> has_data fs j"
  by (simp add: fs_append_def has_data_def hm_simps)

lemma has_data_fresh: "\<not> has_data fs (fs_fresh fs)"
  by (simp add: has_data_def fs_fresh_new)

text \<open>Files by name and number that together hold a text.\<close>

definition holds :: "audit_fs \<Rightarrow> (string \<times> nat) list \<Rightarrow> string \<Rightarrow> bool" where
  "holds fs files text \<longleftrightarrow>
     distinct (map fst files) \<and> distinct (map snd files) \<and>
     (\<forall>p i. (p, i) \<in> set files \<longrightarrow> hm_get (fs_names fs) p = Some i \<and> has_data fs i) \<and>
     concat (map (\<lambda>(p, i). data_of fs i) files) = text"

lemma holds_append:
  assumes "holds fs (rot @ [(p, i)]) text"
  shows "holds (fs_append i line fs) (rot @ [(p, i)]) (text @ line)"
proof -
  have "concat (map (\<lambda>(p, j). data_of (fs_append i line fs) j) rot) = concat (map (\<lambda>(p, j). data_of fs j) rot)"
    using assms by (intro arg_cong[of _ _ concat] map_cong refl) (force simp: holds_def data_of_append)
  moreover have "data_of (fs_append i line fs) i = data_of fs i @ line" by (simp add: data_of_append)
  ultimately have c: "concat (map (\<lambda>(p, j). data_of (fs_append i line fs) j) (rot @ [(p, i)])) = text @ line"
    using assms by (simp add: holds_def)
  show ?thesis unfolding holds_def c using assms by (auto simp: holds_def has_data_append)
qed

lemma holds_rotate:
  assumes h: "holds fs (rot @ [(p, i)]) text" and q: "q \<noteq> p" "q \<notin> set (map fst rot)"
    and r: "fs_rename p q fs = Some fs2" and op: "fs_open p fs2 = (j, fs3)"
  shows "holds fs3 (rot @ [(q, i), (p, j)]) text" and "data_of fs3 j = []"
proof -
  have fs2: "fs2 = fs\<lparr>fs_names := hm_insert q i (hm_remove p (fs_names fs))\<rparr>"
    using h r by (auto simp: holds_def fs_rename_def)
  have "hm_get (fs_names fs2) p = None" using q by (simp add: fs2 hm_simps)
  then have fs3: "j = fs_fresh fs2"
    "fs3 = fs2\<lparr>fs_names := hm_insert p j (fs_names fs2), fs_data := hm_insert j [] (fs_data fs2)\<rparr>"
    using op by (auto simp: fs_open_def Let_def)
  have new: "\<not> has_data fs j"
    using has_data_fresh[of fs2] by (simp add: fs3(1) has_data_def fs2)
  have data: "data_of fs3 k = (if k = j then [] else data_of fs k)" "has_data fs3 k \<longleftrightarrow> k = j \<or> has_data fs k" for k
    by (simp_all add: fs3(2) fs2 data_of_def has_data_def hm_simps)
  have names: "hm_get (fs_names fs3) x = (if x = p then Some j else if x = q then Some i else hm_get (fs_names fs) x)" for x
    using q by (simp add: fs3(2) fs2 hm_simps)
  show "data_of fs3 j = []" by (simp add: data)
  have old: "hm_get (fs_names fs) x = Some k \<and> has_data fs k \<and> x \<noteq> p \<and> x \<noteq> q \<and> k \<noteq> i" if "(x, k) \<in> set rot" for x k
  proof -
    have "x \<in> fst ` set rot" "k \<in> snd ` set rot" using that by (auto intro: rev_image_eqI)
    moreover have "p \<notin> fst ` set rot" "i \<notin> snd ` set rot" using h by (simp_all add: holds_def)
    moreover have "hm_get (fs_names fs) x = Some k \<and> has_data fs k" using h that by (simp add: holds_def)
    ultimately show ?thesis using q by auto
  qed
  have i: "has_data fs i" using h by (simp add: holds_def)
  have "concat (map (\<lambda>(x, k). data_of fs3 k) rot) = concat (map (\<lambda>(x, k). data_of fs k) rot)"
    using old new by (intro arg_cong[of _ _ concat] map_cong refl) (auto simp: data)
  moreover have "data_of fs3 i = data_of fs i" "data_of fs3 j = []" using i new by (auto simp: data)
  ultimately have c: "concat (map (\<lambda>(x, k). data_of fs3 k) (rot @ [(q, i), (p, j)])) = text"
    using h by (simp add: holds_def)
  have n: "j \<notin> set (map snd (rot @ [(q, i)]))" using old i new by auto
  have "distinct (map fst (rot @ [(q, i), (p, j)]))" using h q by (auto simp: holds_def)
  moreover have "distinct (map snd (rot @ [(q, i), (p, j)]))" using h n by (auto simp: holds_def)
  moreover have "hm_get (fs_names fs3) x = Some k \<and> has_data fs3 k" if "(x, k) \<in> set (rot @ [(q, i), (p, j)])" for x k
    using that old[of x k] i q by (auto simp: data names)
  ultimately show "holds fs3 (rot @ [(q, i), (p, j)]) text" unfolding holds_def c by simp
qed

text \<open>The rotated files so far and then the active one hold everything logged.\<close>

definition log_ok :: "(string \<times> nat) list \<Rightarrow> string \<Rightarrow> audit_logger \<Rightarrow> audit_fs \<Rightarrow> bool" where
  "log_ok rot text lg fs \<longleftrightarrow>
     audit_buffer lg = [] \<and> current_size lg = length (data_of fs (audit_handle lg)) \<and>
     holds fs (rot @ [(log_path lg, audit_handle lg)]) text"

lemma log_ok_write:
  assumes "log_ok rot text lg fs"
  shows "\<exists>lg1 fs1. write_line no_faults line lg fs = (Inr (), lg1, fs1) \<and> log_ok rot (text @ line) lg1 fs1 \<and>
    log_path lg1 = log_path lg \<and> max_size lg1 = max_size lg \<and> audit_handle lg1 = audit_handle lg \<and>
    current_size lg1 = current_size lg + length line \<and> (\<forall>i. i \<noteq> audit_handle lg \<longrightarrow> data_of fs1 i = data_of fs i)"
  using assms holds_append[of fs rot "log_path lg" "audit_handle lg" "text" line]
  by (auto simp: write_line_def no_faults_def log_ok_def data_of_append)

lemma log_ok_rotate:
  assumes l: "log_ok rot text lg fs" and q: "rotated_path (log_path lg) stamp \<notin> set (map fst rot)"
  shows "\<exists>lg1 fs1. rotate_log no_faults stamp lg fs = (Inr (), lg1, fs1) \<and>
    log_ok (rot @ [(rotated_path (log_path lg) stamp, audit_handle lg)]) text (lg1\<lparr>current_size := 0\<rparr>) fs1 \<and>
    log_path lg1 = log_path lg \<and> max_size lg1 = max_size lg"
proof -
  let ?q = "rotated_path (log_path lg) stamp" and ?h = "audit_handle lg"
  have h: "holds fs (rot @ [(log_path lg, ?h)]) text" "audit_buffer lg = []" using l by (simp_all add: log_ok_def)
  have h1: "holds (fs_append ?h [] fs) (rot @ [(log_path lg, ?h)]) text"
    using holds_append[OF h(1), of "[]"] by simp
  have "fs_rename (log_path lg) ?q (fs_append ?h [] fs) \<noteq> None"
    using h1 by (auto simp: fs_rename_def holds_def)
  then obtain fs2 where r: "fs_rename (log_path lg) ?q (fs_append ?h [] fs) = Some fs2" by blast
  obtain j fs3 where op: "fs_open (log_path lg) fs2 = (j, fs3)" by (rule prod.exhaust)
  note hr = holds_rotate[OF h1 rotated_path_other q r op]
  have "rotate_log no_faults stamp lg fs = (Inr (), lg\<lparr>audit_buffer := [], audit_handle := j\<rparr>, fs3)"
    by (simp add: rotate_log_def no_faults_def h(2) r op Let_def)
  then show ?thesis using hr by (simp add: log_ok_def)
qed

lemma log_ok_log:
  assumes l: "log_ok rot text lg fs" and q: "rotated_path (log_path lg) stamp \<notin> set (map fst rot)"
  shows "\<exists>lg1 fs1 rot1. audit_log to_json no_faults stamp e lg fs = (Inr (), lg1, fs1) \<and>
    log_ok rot1 (text @ to_json e @ [CHR 0x0A]) lg1 fs1 \<and> log_path lg1 = log_path lg \<and>
    set (map fst rot1) \<subseteq> insert (rotated_path (log_path lg) stamp) (set (map fst rot))"
proof (cases "max_size lg < current_size lg + length (to_json e @ [CHR 0x0A])")
  case True
  obtain lg1 fs1 where r: "rotate_log no_faults stamp lg fs = (Inr (), lg1, fs1)"
    "log_ok (rot @ [(rotated_path (log_path lg) stamp, audit_handle lg)]) text (lg1\<lparr>current_size := 0\<rparr>) fs1"
    "log_path lg1 = log_path lg"
    using log_ok_rotate[OF l q] by blast
  obtain lg2 fs2 where w: "write_line no_faults (to_json e @ [CHR 0x0A]) (lg1\<lparr>current_size := 0\<rparr>) fs1 = (Inr (), lg2, fs2)"
    "log_ok (rot @ [(rotated_path (log_path lg) stamp, audit_handle lg)]) (text @ to_json e @ [CHR 0x0A]) lg2 fs2"
    "log_path lg2 = log_path lg"
    using log_ok_write[OF r(2), of "to_json e @ [CHR 0x0A]"] r(3) by auto
  have "audit_log to_json no_faults stamp e lg fs = (Inr (), lg2, fs2)"
    using True by (simp add: audit_log_def Let_def r(1) w(1))
  then show ?thesis using w(2,3)
    by (intro exI[of _ lg2] exI[of _ fs2] exI[of _ "rot @ [(rotated_path (log_path lg) stamp, audit_handle lg)]"]) auto
next
  case False
  obtain lg2 fs2 where w: "write_line no_faults (to_json e @ [CHR 0x0A]) lg fs = (Inr (), lg2, fs2)"
    "log_ok rot (text @ to_json e @ [CHR 0x0A]) lg2 fs2" "log_path lg2 = log_path lg"
    using log_ok_write[OF l, of "to_json e @ [CHR 0x0A]"] by blast
  have "audit_log to_json no_faults stamp e lg fs = (Inr (), lg2, fs2)"
    using False w(1) by (simp add: audit_log_def Let_def)
  then show ?thesis using w(2,3) by (intro exI[of _ lg2] exI[of _ fs2] exI[of _ rot]) auto
qed

definition audit_lines :: "(audit_log_entry \<Rightarrow> string) \<Rightarrow> (string \<times> audit_log_entry) list \<Rightarrow> string" where
  "audit_lines to_json es = concat (map (\<lambda>(stamp, e). to_json e @ [CHR 0x0A]) es)"

lemma disjoint_insert_subset: "A \<subseteq> insert x B \<Longrightarrow> x \<notin> C \<Longrightarrow> B \<inter> C = {} \<Longrightarrow> A \<inter> C = {}"
  by auto

lemma log_ok_run:
  "log_ok rot text lg fs \<Longrightarrow> distinct (map fst es) \<Longrightarrow>
   set (map fst rot) \<inter> rotated_path (log_path lg) ` set (map fst es) = {} \<Longrightarrow>
   \<exists>rot1. log_ok rot1 (text @ audit_lines to_json es) (fst (audit_run to_json es lg fs)) (snd (audit_run to_json es lg fs)) \<and>
     log_path (fst (audit_run to_json es lg fs)) = log_path lg"
proof (induction es arbitrary: rot "text" lg fs)
  case Nil
  then show ?case by (auto simp: audit_lines_def)
next
  case (Cons se es)
  obtain stamp e where se: "se = (stamp, e)" by (rule prod.exhaust)
  have "rotated_path (log_path lg) stamp \<notin> set (map fst rot)" using Cons.prems(3) by (auto simp: se)
  from log_ok_log[OF Cons.prems(1) this, of to_json e] obtain lg1 fs1 rot1 where
    l: "audit_log to_json no_faults stamp e lg fs = (Inr (), lg1, fs1)"
      "log_ok rot1 (text @ to_json e @ [CHR 0x0A]) lg1 fs1" "log_path lg1 = log_path lg"
      "set (map fst rot1) \<subseteq> insert (rotated_path (log_path lg) stamp) (set (map fst rot))" by blast
  have "set (map fst rot1) \<inter> rotated_path (log_path lg1) ` set (map fst es) = {}"
  proof -
    have "rotated_path (log_path lg) stamp \<notin> rotated_path (log_path lg) ` set (map fst es)"
      using Cons.prems(2) by (simp add: se image_iff rotated_path_inject)
    moreover have "set (map fst rot) \<inter> rotated_path (log_path lg) ` set (map fst es) = {}"
      using Cons.prems(3) by (auto simp: se)
    ultimately show ?thesis unfolding l(3) by (rule disjoint_insert_subset[OF l(4)])
  qed
  from Cons.IH[OF l(2) _ this] Cons.prems(2) l(1,3) show ?case by (auto simp: se audit_lines_def)
qed

text \<open>
  \<^bold>\<open>C40.\<close>  The audit log loses nothing as long as its files can be written and no two entries share the
  second that names a rotated file: after any entries there are files, each under its own name and the
  last of them under the name of the log, that hold the old contents of the log and then every entry, in
  order and once.
\<close>

theorem audit_keeps_entries:
  assumes "audit_new no_faults path mb fs0 = (Inr lg0, fs1)" "audit_run to_json es lg0 fs1 = (lg, fs)"
    and "distinct (map fst es)" "hm_get (fs_names fs0) path \<noteq> None \<longrightarrow> has_data fs0 (audit_handle lg0)"
  shows "\<exists>names texts. distinct (names @ [path]) \<and> map (fs_read fs) (names @ [path]) = map Some texts \<and>
    concat texts = (case fs_read fs0 path of Some old \<Rightarrow> old | None \<Rightarrow> []) @ audit_lines to_json es"
proof -
  have new: "fs_open path fs0 = (audit_handle lg0, fs1)" "audit_buffer lg0 = []" "log_path lg0 = path"
    "current_size lg0 = length (data_of fs1 (audit_handle lg0))"
    using assms(1) by (auto simp: audit_new_def no_faults_def split: prod.splits)
  have "holds fs1 [(path, audit_handle lg0)] (case fs_read fs0 path of Some old \<Rightarrow> old | None \<Rightarrow> [])"
    using new(1) assms(4)
    by (auto simp: holds_def fs_open_def fs_read_def has_data_def data_of_def Let_def hm_simps split: option.splits)
  then have "log_ok [] (case fs_read fs0 path of Some old \<Rightarrow> old | None \<Rightarrow> []) lg0 fs1"
    using new by (simp add: log_ok_def)
  from log_ok_run[OF this assms(3), of to_json] assms(2) new(3) obtain rot where
    l: "log_ok rot ((case fs_read fs0 path of Some old \<Rightarrow> old | None \<Rightarrow> []) @ audit_lines to_json es) lg fs" "log_path lg = path"
    by auto
  let ?files = "rot @ [(path, audit_handle lg)]"
  have h: "holds fs ?files ((case fs_read fs0 path of Some old \<Rightarrow> old | None \<Rightarrow> []) @ audit_lines to_json es)"
    using l by (simp add: log_ok_def)
  have "map (fs_read fs) (map fst ?files) = map Some (map (\<lambda>(p, i). data_of fs i) ?files)"
    using h by (auto simp: holds_def fs_read_def)
  moreover have "distinct (map fst ?files)" using h by (simp add: holds_def)
  moreover have "concat (map (\<lambda>(p, i). data_of fs i) ?files) =
      (case fs_read fs0 path of Some old \<Rightarrow> old | None \<Rightarrow> []) @ audit_lines to_json es"
    using h by (simp only: holds_def)
  moreover have "map fst ?files = map fst rot @ [path]" by simp
  ultimately show ?thesis by metis
qed

text \<open>A log without room, which rotates before every entry.\<close>

definition small_entry :: "string \<Rightarrow> audit_log_entry" where
  "small_entry t = create_audit_entry t ''root'' ''kill'' 42 None ''success'' []"

theorem audit_keeps_entries_witness:
  "\<exists>names texts.
     distinct (names @ [''/v/audit.log'']) \<and>
     map (fs_read (snd (audit_run entry_timestamp [(''t1'', small_entry ''a''), (''t2'', small_entry ''b'')]
       (projr (fst (audit_new no_faults ''/v/audit.log'' 0 fs_empty))) (snd (audit_new no_faults ''/v/audit.log'' 0 fs_empty)))))
       (names @ [''/v/audit.log'']) = map Some texts \<and>
     concat texts = [CHR ''a'', CHR 0x0A, CHR ''b'', CHR 0x0A]"
proof -
  let ?new = "audit_new no_faults ''/v/audit.log'' 0 fs_empty" and ?es = "[(''t1'', small_entry ''a''), (''t2'', small_entry ''b'')]"
  have n: "?new = (Inr (projr (fst ?new)), snd ?new)" by code_simp
  have v: "fs_read fs_empty ''/v/audit.log'' = None" "hm_get (fs_names fs_empty) ''/v/audit.log'' = None"
    "audit_lines entry_timestamp ?es = [CHR ''a'', CHR 0x0A, CHR ''b'', CHR 0x0A]"
    by code_simp+
  have d: "distinct (map fst ?es)" by simp
  have t: "hm_get (fs_names fs_empty) ''/v/audit.log'' \<noteq> None \<longrightarrow> has_data fs_empty (audit_handle (projr (fst ?new)))"
    by (simp add: v(2))
  from audit_keeps_entries[OF n prod.collapse[symmetric] d t, of entry_timestamp]
  show ?thesis unfolding v(1,3) option.case append_Nil .
qed

text \<open>Two rotations within a second: the second replaces the file of the first, and an entry is gone.\<close>

lemma same_second_loses:
  "let new = audit_new no_faults ''/v/audit.log'' 0 fs_empty;
       fs = snd (audit_run entry_timestamp [(''t'', small_entry ''a''), (''t'', small_entry ''b''), (''t'', small_entry ''c'')]
              (projr (fst new)) (snd new)) in
     fs_read fs ''/v/audit.log'' = Some [CHR ''c'', CHR 0x0A] \<and>
     fs_read fs ''/v/audit.t.log'' = Some [CHR ''b'', CHR 0x0A] \<and> length (fs_names fs) = 2"
  by code_simp

end
