(* ===== verification/Event.thy ===== *)
theory Event
  imports Prelude
begin

text \<open>
  \<^bold>\<open>core/src/event.rs\<close>: the event types with their wire names, the event record and the event bus.
\<close>

section \<open>Event types\<close>

datatype event_type =
    ComputeUtil | ComputeMem
  | TransportBw | TransportDrop
  | StorageIops | StorageQDepth
  | ProcessState
  | ErrorHw | ErrorNet
  | TopoLinkDown
  | IntentRun
  | ActionExec

text \<open>\<open>impl Display for EventType\<close>.\<close>

fun event_type_display :: "event_type \<Rightarrow> string" where
  "event_type_display ComputeUtil = ''compute.util''"
| "event_type_display ComputeMem = ''compute.mem''"
| "event_type_display TransportBw = ''transport.bw''"
| "event_type_display TransportDrop = ''transport.drop''"
| "event_type_display StorageIops = ''storage.iops''"
| "event_type_display StorageQDepth = ''storage.qdepth''"
| "event_type_display ProcessState = ''process.state''"
| "event_type_display ErrorHw = ''error.hw''"
| "event_type_display ErrorNet = ''error.net''"
| "event_type_display TopoLinkDown = ''topo.link_down''"
| "event_type_display IntentRun = ''intent.run''"
| "event_type_display ActionExec = ''action.exec''"

text \<open>
  The serde names of the variants, as \<open>#[serde(rename = ...)]\<close> gives them: the table a message is
  decoded with.
\<close>

definition event_type_wire :: "(string \<times> event_type) list" where
  "event_type_wire =
     [(''compute.util'', ComputeUtil), (''compute.mem'', ComputeMem),
      (''transport.bw'', TransportBw), (''transport.drop'', TransportDrop),
      (''storage.iops'', StorageIops), (''storage.qdepth'', StorageQDepth),
      (''process.state'', ProcessState),
      (''error.hw'', ErrorHw), (''error.net'', ErrorNet),
      (''topo.link_down'', TopoLinkDown), (''intent.run'', IntentRun), (''action.exec'', ActionExec)]"

definition event_type_from_wire :: "string \<Rightarrow> event_type option" where
  "event_type_from_wire s = map_of event_type_wire s"

lemma event_type_from_display: "event_type_from_wire (event_type_display t) = Some t"
  by (cases t) (simp_all add: event_type_from_wire_def event_type_wire_def)

lemma event_type_display_inject: "event_type_display s = event_type_display t \<longleftrightarrow> s = t"
  by (metis event_type_from_display option.inject)

lemma event_type_wire_display: "event_type_from_wire s = Some t \<Longrightarrow> event_type_display t = s"
  by (auto simp: event_type_from_wire_def event_type_wire_def split: if_splits)

section \<open>Events\<close>

record event =
  ev_ts :: nat
  ev_type :: event_type
  ev_entity_id :: string
  ev_job_id :: "string option"
  ev_pid :: "nat option"
  ev_value :: string
  ev_node_id :: "string option"

text \<open>\<open>Event::new\<close>; the clock reading is an argument.\<close>

definition event_new ::
  "nat \<Rightarrow> event_type \<Rightarrow> string \<Rightarrow> string \<Rightarrow> string option \<Rightarrow> nat option \<Rightarrow> event" where
  "event_new now t entity v job pid =
     \<lparr>ev_ts = now, ev_type = t, ev_entity_id = entity, ev_job_id = job, ev_pid = pid,
      ev_value = v, ev_node_id = None\<rparr>"

section \<open>The event bus\<close>

text \<open>
  A bounded channel and the receiver handle that can be taken once.  \<open>send\<close> completes only when the
  channel has room (the task waits otherwise), which is the \<open>None\<close> of \<open>bus_send\<close>.
\<close>

record event_bus =
  bus_capacity :: nat
  bus_queue :: "event list"
  bus_rx_present :: bool

definition event_bus_new :: "nat \<Rightarrow> event_bus" where
  "event_bus_new capacity = \<lparr>bus_capacity = capacity, bus_queue = [], bus_rx_present = True\<rparr>"

definition bus_send :: "event \<Rightarrow> event_bus \<Rightarrow> event_bus option" where
  "bus_send e b =
     (if length (bus_queue b) < bus_capacity b then Some (b\<lparr>bus_queue := bus_queue b @ [e]\<rparr>) else None)"

text \<open>\<open>receiver()\<close>: whether the handle was handed out, and the bus without it.\<close>

definition bus_receiver :: "event_bus \<Rightarrow> bool \<times> event_bus" where
  "bus_receiver b = (bus_rx_present b, b\<lparr>bus_rx_present := False\<rparr>)"

definition bus_recv :: "event_bus \<Rightarrow> (event \<times> event_bus) option" where
  "bus_recv b = (case bus_queue b of [] \<Rightarrow> None | e # es \<Rightarrow> Some (e, b\<lparr>bus_queue := es\<rparr>))"

definition bus_ok :: "event_bus \<Rightarrow> bool" where
  "bus_ok b = (length (bus_queue b) \<le> bus_capacity b)"

lemma bus_send_ok: "bus_ok b \<Longrightarrow> bus_send e b = Some b' \<Longrightarrow> bus_ok b'"
  by (auto simp: bus_ok_def bus_send_def split: if_splits)

lemma bus_recv_ok: "bus_ok b \<Longrightarrow> bus_recv b = Some (e, b') \<Longrightarrow> bus_ok b'"
  by (auto simp: bus_ok_def bus_recv_def split: list.splits)

end
