(* ===== verification/Signals.thy ===== *)
theory Signals
  imports Event F64
begin

text \<open>
  \<^bold>\<open>core/src/signals\<close>: the signal registry and the engine that turns events into windowed rates and
  averages.  An engine keeps, per signal and entity, a queue of timestamps or samples and the time of
  the last emission.
\<close>

section \<open>Data\<close>

datatype signal_value = Number f64 | Flag bool | Txt string

datatype entity_kind = NodeEntity

record entity_ref =
  ent_kind :: entity_kind
  ent_id :: string

record signal_point =
  pt_name :: string
  pt_ts :: nat
  pt_entity :: entity_ref
  pt_value :: signal_value
  pt_window_ms :: nat
  pt_unit :: string

record window_spec =
  window_ms :: nat
  step_ms :: nat

datatype aggregator = CounterRate | GaugeAvg

record signal_spec =
  spec_name :: string
  spec_window :: window_spec
  spec_aggregator :: aggregator
  spec_unit :: string

datatype signal_state = CounterTimestamps "nat list" | GaugeSamples "(nat \<times> f64) list"

fun for_aggregator :: "aggregator \<Rightarrow> signal_state" where
  "for_aggregator CounterRate = CounterTimestamps []"
| "for_aggregator GaugeAvg = GaugeSamples []"

text \<open>\<open>SignalRegistry::default_mvp\<close>.\<close>

definition retransmit_rate :: signal_spec where
  "retransmit_rate =
     \<lparr>spec_name = ''network.tcp.retransmit_rate_1m'',
      spec_window = \<lparr>window_ms = 60000, step_ms = 1000\<rparr>,
      spec_aggregator = CounterRate, spec_unit = ''count/s''\<rparr>"

definition gpu_util_avg :: signal_spec where
  "gpu_util_avg =
     \<lparr>spec_name = ''hardware.gpu.util_avg_1m'',
      spec_window = \<lparr>window_ms = 60000, step_ms = 1000\<rparr>,
      spec_aggregator = GaugeAvg, spec_unit = ''percent''\<rparr>"

definition default_mvp :: "signal_spec list" where
  "default_mvp = [retransmit_rate, gpu_util_avg]"

record signal_engine =
  registry :: "signal_spec list"
  states :: "(string, signal_state) hashmap"
  last_emit_ts :: "(string, nat) hashmap"

definition signal_engine_new :: "signal_spec list \<Rightarrow> signal_engine" where
  "signal_engine_new reg = \<lparr>registry = reg, states = [], last_emit_ts = []\<rparr>"

section \<open>Operations\<close>

definition extract_sample :: "signal_spec \<Rightarrow> event \<Rightarrow> f64 option" where
  "extract_sample spec e =
     (if spec_name spec = ''network.tcp.retransmit_rate_1m'' then
        (if ev_type e \<noteq> TransportDrop then None
         else (let lower = to_ascii_lowercase (ev_value e) in
               if contains lower ''retransmit'' \<or> contains lower ''drop''
               then Some (Fin False 1) else None))
      else if spec_name spec = ''hardware.gpu.util_avg_1m'' then
        (if ev_type e \<noteq> ComputeUtil then None else parse_f64 (ev_value e))
      else None)"

definition entity_from_event :: "event \<Rightarrow> string" where
  "entity_from_event e = (case ev_node_id e of Some n \<Rightarrow> n | None \<Rightarrow> ''local'')"

definition trim_counter :: "nat list \<Rightarrow> nat \<Rightarrow> nat \<Rightarrow> nat list" where
  "trim_counter events now window =
     (let cutoff = saturating_sub now window in dropWhile (\<lambda>ts. ts < cutoff) events)"

definition trim_gauge :: "(nat \<times> f64) list \<Rightarrow> nat \<Rightarrow> nat \<Rightarrow> (nat \<times> f64) list" where
  "trim_gauge samples now window =
     (let cutoff = saturating_sub now window in dropWhile (\<lambda>s. fst s < cutoff) samples)"

fun compute_value :: "signal_state \<Rightarrow> aggregator \<Rightarrow> nat \<Rightarrow> f64 option" where
  "compute_value (CounterTimestamps events) CounterRate window =
     Some (f64_div (f64_of_nat (length events)) (f64_div (f64_of_nat window) (Fin False 1000)))"
| "compute_value (GaugeSamples samples) GaugeAvg window =
     (if samples = [] then None
      else Some (f64_div (f64_sum (map snd samples)) (f64_of_nat (length samples))))"
| "compute_value _ _ _ = None"

text \<open>The \<open>match spec.aggregator\<close> that pushes the sample and trims the queue.\<close>

fun push_sample :: "aggregator \<Rightarrow> nat \<Rightarrow> f64 \<Rightarrow> nat \<Rightarrow> signal_state \<Rightarrow> signal_state" where
  "push_sample CounterRate ts v window (CounterTimestamps events) =
     CounterTimestamps (trim_counter (events @ [ts]) ts window)"
| "push_sample GaugeAvg ts v window (GaugeSamples samples) =
     GaugeSamples (trim_gauge (samples @ [(ts, v)]) ts window)"
| "push_sample _ _ _ _ st = st"

definition signal_key :: "string \<Rightarrow> string \<Rightarrow> string" where
  "signal_key name entity = name @ ''::'' @ entity"

definition should_emit :: "signal_engine \<Rightarrow> string \<Rightarrow> event \<Rightarrow> signal_spec \<Rightarrow> bool" where
  "should_emit eng key e spec =
     (case hm_get (last_emit_ts eng) key of
        None \<Rightarrow> True
      | Some l \<Rightarrow> step_ms (spec_window spec) \<le> saturating_sub (ev_ts e) l)"

text \<open>One iteration of the loop over the registered signals.\<close>

definition on_event_spec :: "event \<Rightarrow> signal_spec \<Rightarrow> signal_engine \<Rightarrow> signal_engine \<times> signal_point list" where
  "on_event_spec e spec eng =
     (case extract_sample spec e of
        None \<Rightarrow> (eng, [])
      | Some sample \<Rightarrow>
          (let entity = entity_from_event e;
               key = signal_key (spec_name spec) entity;
               window = window_ms (spec_window spec);
               st0 = (case hm_get (states eng) key of
                        Some st \<Rightarrow> st | None \<Rightarrow> for_aggregator (spec_aggregator spec));
               st = push_sample (spec_aggregator spec) (ev_ts e) sample window st0;
               eng1 = eng\<lparr>states := hm_insert key st (states eng)\<rparr> in
           if \<not> should_emit eng key e spec then (eng1, [])
           else (case compute_value st (spec_aggregator spec) window of
                   None \<Rightarrow> (eng1, [])
                 | Some v \<Rightarrow>
                     (eng1\<lparr>last_emit_ts := hm_insert key (ev_ts e) (last_emit_ts eng1)\<rparr>,
                      [\<lparr>pt_name = spec_name spec, pt_ts = ev_ts e,
                        pt_entity = \<lparr>ent_kind = NodeEntity, ent_id = entity\<rparr>,
                        pt_value = Number v, pt_window_ms = window, pt_unit = spec_unit spec\<rparr>]))))"

fun on_event_specs :: "event \<Rightarrow> signal_spec list \<Rightarrow> signal_engine \<Rightarrow> signal_engine \<times> signal_point list" where
  "on_event_specs e [] eng = (eng, [])"
| "on_event_specs e (spec # specs) eng =
     (let (eng1, out1) = on_event_spec e spec eng; (eng2, out2) = on_event_specs e specs eng1
      in (eng2, out1 @ out2))"

definition on_event :: "event \<Rightarrow> signal_engine \<Rightarrow> signal_engine \<times> signal_point list" where
  "on_event e eng = on_event_specs e (registry eng) eng"

section \<open>The window is exact for events in order\<close>

fun run_signals :: "event list \<Rightarrow> signal_engine \<Rightarrow> signal_engine \<times> signal_point list" where
  "run_signals [] eng = (eng, [])"
| "run_signals (e # es) eng =
     (let (eng1, out1) = on_event e eng; (eng2, out2) = run_signals es eng1 in (eng2, out1 @ out2))"

text \<open>The samples of one signal for one entity, oldest first, and those of the last window.\<close>

definition sample_of :: "signal_spec \<Rightarrow> string \<Rightarrow> event \<Rightarrow> (nat \<times> f64) list" where
  "sample_of spec node e =
     (if entity_from_event e = node
      then (case extract_sample spec e of None \<Rightarrow> [] | Some v \<Rightarrow> [(ev_ts e, v)]) else [])"

definition sample_history :: "signal_spec \<Rightarrow> string \<Rightarrow> event list \<Rightarrow> (nat \<times> f64) list" where
  "sample_history spec node es = concat (map (sample_of spec node) es)"

definition last_window :: "nat \<Rightarrow> (nat \<times> f64) list \<Rightarrow> (nat \<times> f64) list" where
  "last_window w h = filter (\<lambda>p. fst (last h) - w \<le> fst p) h"

definition window_state :: "aggregator \<Rightarrow> nat \<Rightarrow> (nat \<times> f64) list \<Rightarrow> signal_state option" where
  "window_state a w h =
     (if h = [] then None
      else Some (case a of
             CounterRate \<Rightarrow> CounterTimestamps (map fst (last_window w h))
           | GaugeAvg \<Rightarrow> GaugeSamples (last_window w h)))"

lemma signal_key_inject [simp]: "signal_key n a = signal_key n b \<longleftrightarrow> a = b"
  by (simp add: signal_key_def)

lemma signal_key_distinct [simp]:
  "signal_key (spec_name retransmit_rate) a \<noteq> signal_key (spec_name gpu_util_avg) b"
  "signal_key (spec_name gpu_util_avg) b \<noteq> signal_key (spec_name retransmit_rate) a"
  by (simp_all add: signal_key_def retransmit_rate_def gpu_util_avg_def)

lemma dropWhile_sorted_filter:
  "sorted (map f xs) \<Longrightarrow> dropWhile (\<lambda>x. f x < c) xs = filter (\<lambda>x. c \<le> f x) xs"
  for f :: "'a \<Rightarrow> nat"
proof (induction xs)
  case (Cons x xs)
  show ?case
  proof (cases "f x < c")
    case True
    with Cons show ?thesis by simp
  next
    case False
    with Cons.prems have "\<forall>y\<in>set (x # xs). c \<le> f y" by (auto intro: order_trans)
    then have "filter (\<lambda>x. c \<le> f x) (x # xs) = x # xs" by (simp only: filter_True)
    with False show ?thesis by simp
  qed
qed simp

lemma dropWhile_map_fst:
  "dropWhile (\<lambda>t. t < c) (map fst h) = map fst (dropWhile (\<lambda>p. fst p < c) h)"
  by (induction h) auto

text \<open>Pushing the next sample onto the window of the history gives the window of the longer one.\<close>

lemma last_window_snoc:
  assumes "sorted (map fst (h @ [(t, v)]))"
  shows "dropWhile (\<lambda>p. fst p < t - w) (last_window w h @ [(t, v)]) = last_window w (h @ [(t, v)])"
proof -
  have sub: "sorted (map fst (last_window w h @ [(t, v)]))"
    using assms by (auto simp: last_window_def sorted_append sorted_map intro!: sorted_wrt_filter)
  have "dropWhile (\<lambda>p. fst p < t - w) (last_window w h @ [(t, v)]) =
      filter (\<lambda>p. t - w \<le> fst p) (last_window w h @ [(t, v)])"
    by (rule dropWhile_sorted_filter [OF sub])
  also have "\<dots> = last_window w (h @ [(t, v)])"
  proof (cases "h = []")
    case True
    then show ?thesis by (simp add: last_window_def)
  next
    case False
    then have "fst (last h) \<le> t" using assms by (auto simp: sorted_append)
    then show ?thesis by (auto simp: last_window_def intro!: filter_cong)
  qed
  finally show ?thesis .
qed

lemma push_sample_window:
  assumes "sorted (map fst (h @ [(t, v)]))"
  shows "push_sample a t v w (case window_state a w h of None \<Rightarrow> for_aggregator a | Some st \<Rightarrow> st) =
     the (window_state a w (h @ [(t, v)]))"
proof (cases a)
  case CounterRate
  have "trim_counter (map fst (last_window w h) @ [t]) t w =
      map fst (dropWhile (\<lambda>p. fst p < t - w) (last_window w h @ [(t, v)]))"
    by (simp add: trim_counter_def saturating_sub_def dropWhile_map_fst [symmetric])
  with last_window_snoc [OF assms, of w] CounterRate show ?thesis
    by (cases "h = []") (simp_all add: window_state_def, simp_all add: last_window_def)
next
  case GaugeAvg
  have "trim_gauge (last_window w h @ [(t, v)]) t w =
      dropWhile (\<lambda>p. fst p < t - w) (last_window w h @ [(t, v)])"
    by (simp add: trim_gauge_def saturating_sub_def)
  with last_window_snoc [OF assms, of w] GaugeAvg show ?thesis
    by (cases "h = []") (simp_all add: window_state_def, simp_all add: last_window_def)
qed

text \<open>One event, for one signal: other keys are untouched.\<close>

lemma on_event_spec_states:
  "hm_get (states (fst (on_event_spec e spec eng))) k =
     (case extract_sample spec e of
        None \<Rightarrow> hm_get (states eng) k
      | Some v \<Rightarrow>
          if k = signal_key (spec_name spec) (entity_from_event e)
          then Some (push_sample (spec_aggregator spec) (ev_ts e) v (window_ms (spec_window spec))
                 (case hm_get (states eng) k of None \<Rightarrow> for_aggregator (spec_aggregator spec) | Some st \<Rightarrow> st))
          else hm_get (states eng) k)"
  by (auto simp: on_event_spec_def Let_def hm_simps split: option.splits)

lemma on_event_spec_registry [simp]: "registry (fst (on_event_spec e spec eng)) = registry eng"
  by (auto simp: on_event_spec_def Let_def split: option.splits)

lemma on_event_specs_registry [simp]: "registry (fst (on_event_specs e specs eng)) = registry eng"
proof (induction specs arbitrary: eng)
  case (Cons spec specs)
  then show ?case by (simp add: case_prod_beta Let_def)
qed simp

lemma on_event_registry [simp]: "registry (fst (on_event e eng)) = registry eng"
  by (simp add: on_event_def)

lemma on_event_default_states:
  assumes "registry eng = default_mvp" "spec \<in> set default_mvp"
  shows "hm_get (states (fst (on_event e eng))) (signal_key (spec_name spec) node) =
     hm_get (states (fst (on_event_spec e spec eng))) (signal_key (spec_name spec) node)"
  using assms
  by (auto simp: on_event_def default_mvp_def case_prod_beta Let_def on_event_spec_states
      split: option.splits)

lemma run_signals_snoc:
  "fst (run_signals (es @ [e]) eng) = fst (on_event e (fst (run_signals es eng)))"
  by (induction es arbitrary: eng) (auto simp: case_prod_beta Let_def)

lemma run_signals_registry [simp]: "registry (fst (run_signals es eng)) = registry eng"
  by (induction es arbitrary: eng) (auto simp: case_prod_beta Let_def)

lemma sample_history_snoc:
  "sample_history spec node (es @ [e]) = sample_history spec node es @ sample_of spec node e"
  by (simp add: sample_history_def)

lemma sample_history_ts:
  "set (map fst (sample_history spec node es)) \<subseteq> ev_ts ` set es"
  by (auto simp: sample_history_def sample_of_def split: option.splits if_splits)

lemma sample_history_sorted:
  "sorted (map ev_ts es) \<Longrightarrow> sorted (map fst (sample_history spec node es))"
proof (induction es rule: rev_induct)
  case Nil
  then show ?case by (simp add: sample_history_def)
next
  case (snoc e es)
  have "fst p \<le> ev_ts e" if "p \<in> set (sample_history spec node es)" for p
    using snoc.prems sample_history_ts [of spec node es] that by (fastforce simp: sorted_append)
  with snoc show ?case
    by (cases "sample_of spec node e")
       (auto simp: sample_history_snoc sorted_append sample_of_def split: option.splits if_splits)
qed

text \<open>
  \<^bold>\<open>C7.\<close> For events that arrive in timestamp order, the queue the engine keeps for a signal and an
  entity is exactly the part of that signal's sample history that lies in the last window: nothing
  that should still count is dropped and nothing stale is kept.
\<close>

theorem signal_window_exact:
  assumes "sorted (map ev_ts es)" "spec \<in> set default_mvp"
  shows "hm_get (states (fst (run_signals es (signal_engine_new default_mvp))))
            (signal_key (spec_name spec) node) =
         window_state (spec_aggregator spec) (window_ms (spec_window spec))
            (sample_history spec node es)"
  using assms(1)
proof (induction es rule: rev_induct)
  case Nil
  then show ?case by (simp add: signal_engine_new_def window_state_def sample_history_def)
next
  case (snoc e es)
  let ?eng = "fst (run_signals es (signal_engine_new default_mvp))"
  have IH: "hm_get (states ?eng) (signal_key (spec_name spec) node) =
      window_state (spec_aggregator spec) (window_ms (spec_window spec)) (sample_history spec node es)"
    using snoc by (simp add: sorted_append)
  have reg: "registry ?eng = default_mvp" by (simp add: signal_engine_new_def)
  note eq = on_event_default_states [OF reg assms(2)]
  show ?case
  proof (cases "sample_of spec node e")
    case Nil
    then show ?thesis
      using IH by (auto simp: run_signals_snoc eq on_event_spec_states sample_history_snoc sample_of_def
          split: option.splits if_splits)
  next
    case (Cons p ps)
    then obtain v where v: "sample_of spec node e = [(ev_ts e, v)]"
        "entity_from_event e = node" "extract_sample spec e = Some v"
      by (auto simp: sample_of_def split: option.splits if_splits)
    have "sorted (map fst (sample_history spec node es @ [(ev_ts e, v)]))"
      using sample_history_sorted [OF snoc.prems, of spec node] by (simp add: sample_history_snoc v)
    from push_sample_window [OF this] IH show ?thesis
      by (simp add: run_signals_snoc eq on_event_spec_states sample_history_snoc v window_state_def)
  qed
qed

definition drop_event :: "nat \<Rightarrow> event" where
  "drop_event t = \<lparr>ev_ts = t, ev_type = TransportDrop, ev_entity_id = ''eth0'', ev_job_id = None,
     ev_pid = None, ev_value = ''Retransmit'', ev_node_id = Some ''a''\<rparr>"

theorem signal_window_exact_witness:
  "hm_get (states (fst (run_signals [drop_event 1000, drop_event 5000, drop_event 62000]
       (signal_engine_new default_mvp)))) (signal_key (spec_name retransmit_rate) ''a'') =
     Some (CounterTimestamps [5000, 62000])"
proof -
  let ?es = "[drop_event 1000, drop_event 5000, drop_event 62000]"
  have "sorted (map ev_ts ?es)" "retransmit_rate \<in> set default_mvp"
    by (simp_all add: drop_event_def default_mvp_def)
  moreover have "window_state (spec_aggregator retransmit_rate) (window_ms (spec_window retransmit_rate))
      (sample_history retransmit_rate ''a'' ?es) = Some (CounterTimestamps [5000, 62000])"
    by code_simp
  ultimately show ?thesis using signal_window_exact [of ?es retransmit_rate "''a''"] by simp
qed

section \<open>Emissions are rate limited\<close>

interpretation emit_gate: rate_gate "hm_gate 1000" hm_get 1000
  by (rule hm_gate_rate_gate) simp

definition point_key :: "signal_point \<Rightarrow> string \<times> nat" where
  "point_key p = (signal_key (pt_name p) (ent_id (pt_entity p)), pt_ts p)"

lemma default_step [simp]: "spec \<in> set default_mvp \<Longrightarrow> step_ms (spec_window spec) = 1000"
  by (auto simp: default_mvp_def retransmit_rate_def gpu_util_avg_def)

lemma on_event_spec_gate:
  assumes "step_ms (spec_window spec) = gap" "on_event_spec e spec eng = (eng', pts)"
  shows "\<exists>xs. gate_run (hm_gate gap) xs (last_emit_ts eng) = (map point_key pts, last_emit_ts eng')"
proof (cases "pts = []")
  case True
  with assms(2) have "last_emit_ts eng' = last_emit_ts eng"
    by (auto simp: on_event_spec_def Let_def split: option.splits if_splits)
  with True show ?thesis by (intro exI [of _ "[]"]) simp
next
  case False
  let ?k = "signal_key (spec_name spec) (entity_from_event e)"
  have "should_emit eng ?k e spec"
      and pts: "map point_key pts = [(?k, ev_ts e)]"
      and "last_emit_ts eng' = hm_insert ?k (ev_ts e) (last_emit_ts eng)"
    using assms(2) False
    by (auto simp: on_event_spec_def Let_def point_key_def split: option.splits if_splits)
  then have "gate_run (hm_gate gap) [(?k, ev_ts e)] (last_emit_ts eng) = ([(?k, ev_ts e)], last_emit_ts eng')"
    using assms(1) by (auto simp: hm_gate_def should_emit_def split: option.splits)
  with pts show ?thesis by metis
qed

lemma gate_chain:
  assumes "\<exists>xs. gate_run g xs s = (a, s1)" "\<exists>ys. gate_run g ys s1 = (b, s2)"
  shows "\<exists>zs. gate_run g zs s = (a @ b, s2)"
proof -
  obtain xs ys where "gate_run g xs s = (a, s1)" "gate_run g ys s1 = (b, s2)" using assms by blast
  then have "gate_run g (xs @ ys) s = (a @ b, s2)" by (simp add: gate_run_append)
  then show ?thesis by blast
qed

lemma on_event_specs_gate:
  assumes "\<forall>spec\<in>set specs. step_ms (spec_window spec) = gap" "on_event_specs e specs eng = (eng', pts)"
  shows "\<exists>xs. gate_run (hm_gate gap) xs (last_emit_ts eng) = (map point_key pts, last_emit_ts eng')"
  using assms
proof (induction specs arbitrary: eng pts)
  case Nil
  then show ?case by (intro exI [of _ "[]"]) simp
next
  case (Cons spec specs)
  obtain eng1 out1 where 1: "on_event_spec e spec eng = (eng1, out1)" by (cases "on_event_spec e spec eng")
  obtain out2 where 2: "on_event_specs e specs eng1 = (eng', out2)" and pts: "pts = out1 @ out2"
    using Cons.prems(2) by (auto simp: 1 Let_def split: prod.splits)
  show ?case
    unfolding pts map_append
    by (rule gate_chain [OF on_event_spec_gate [OF _ 1] Cons.IH [OF _ 2]]) (use Cons.prems(1) in auto)
qed

lemma run_signals_gate:
  assumes "registry eng = default_mvp" "run_signals es eng = (eng', pts)"
  shows "\<exists>xs. gate_run (hm_gate 1000) xs (last_emit_ts eng) = (map point_key pts, last_emit_ts eng')"
  using assms
proof (induction es arbitrary: eng pts)
  case Nil
  then show ?case by (intro exI [of _ "[]"]) simp
next
  case (Cons e es)
  obtain eng1 out1 where 1: "on_event e eng = (eng1, out1)" by (cases "on_event e eng")
  obtain out2 where 2: "run_signals es eng1 = (eng', out2)" and pts: "pts = out1 @ out2"
    using Cons.prems(2) by (auto simp: 1 Let_def split: prod.splits)
  have reg: "registry eng1 = default_mvp" using Cons.prems(1) on_event_registry [of e eng] 1 by simp
  have "\<exists>xs. gate_run (hm_gate 1000) xs (last_emit_ts eng) = (map point_key out1, last_emit_ts eng1)"
    by (rule on_event_specs_gate [of default_mvp]) (use 1 Cons.prems(1) in \<open>auto simp: on_event_def\<close>)
  then show ?case
    unfolding pts map_append by (rule gate_chain [OF _ Cons.IH [OF reg 2]])
qed

text \<open>
  \<^bold>\<open>C8.\<close> Whatever the order of the events, the engine emits a signal for an entity at most once
  per step of one second: of two points of the same signal and entity, the later one carries a
  timestamp at least 1000 ms above the earlier one's.
\<close>

theorem signal_emissions_spaced:
  "sorted_wrt (\<lambda>p q. pt_name p = pt_name q \<and> ent_id (pt_entity p) = ent_id (pt_entity q) \<longrightarrow>
       pt_ts p + 1000 \<le> pt_ts q)
     (snd (run_signals es (signal_engine_new default_mvp)))"
proof -
  obtain eng pts where r: "run_signals es (signal_engine_new default_mvp) = (eng, pts)"
    by (cases "run_signals es (signal_engine_new default_mvp)")
  then obtain xs s where "gate_run (hm_gate 1000) xs s = (map point_key pts, last_emit_ts eng)"
    using run_signals_gate [OF _ r] by (auto simp: signal_engine_new_def)
  from emit_gate.passed_spaced [OF this]
  have "sorted_wrt (\<lambda>p q. fst (point_key p) = fst (point_key q) \<longrightarrow> pt_ts p + 1000 \<le> pt_ts q) pts"
    by (simp add: sorted_wrt_map point_key_def)
  then have "sorted_wrt (\<lambda>p q. pt_name p = pt_name q \<and> ent_id (pt_entity p) = ent_id (pt_entity q) \<longrightarrow>
       pt_ts p + 1000 \<le> pt_ts q) pts"
    by (rule sorted_wrt_mono_rel [rotated]) (auto simp: point_key_def)
  with r show ?thesis by simp
qed

lemma drop_sample: "extract_sample retransmit_rate (drop_event t) = Some (Fin False 1)"
  "extract_sample gpu_util_avg (drop_event t) = None"
proof -
  have "contains (to_ascii_lowercase ''Retransmit'') ''retransmit''" by code_simp
  then show "extract_sample retransmit_rate (drop_event t) = Some (Fin False 1)"
    by (simp add: extract_sample_def retransmit_rate_def drop_event_def)
  show "extract_sample gpu_util_avg (drop_event t) = None"
    by (simp add: extract_sample_def gpu_util_avg_def drop_event_def)
qed

theorem signal_emissions_spaced_witness:
  "let ps = snd (run_signals [drop_event 1000, drop_event 1500, drop_event 2500] (signal_engine_new default_mvp)) in
     length ps = 2 \<and> pt_ts (ps ! 0) + 1000 \<le> pt_ts (ps ! 1)"
proof -
  let ?ps = "snd (run_signals [drop_event 1000, drop_event 1500, drop_event 2500] (signal_engine_new default_mvp))"
  have "length ?ps = 2 \<and> pt_name (?ps ! 0) = pt_name (?ps ! 1) \<and>
    ent_id (pt_entity (?ps ! 0)) = ent_id (pt_entity (?ps ! 1))"
    by (simp add: on_event_def on_event_spec_def signal_engine_new_def default_mvp_def drop_sample Let_def
        should_emit_def hm_simps saturating_sub_def retransmit_rate_def[THEN arg_cong[of _ _ spec_aggregator]]
        retransmit_rate_def[THEN arg_cong[of _ _ spec_window]])
       (simp add: drop_event_def entity_from_event_def)
  then show ?thesis
    using signal_emissions_spaced [of "[drop_event 1000, drop_event 1500, drop_event 2500]"]
    by (simp add: sorted_wrt_iff_nth_less)
qed

end
