(* ===== verification/Graph.thy ===== *)
theory Graph
  imports Signals
begin

text \<open>
  \<^bold>\<open>core/src/graph.rs\<close>: the state graph, built from the event stream.  The locks of the source are
  dropped here: every operation is a function of the whole graph, as a task sees it that holds the
  locks it takes.  Log output is not modelled.
\<close>

section \<open>Data\<close>

definition EDGE_TTL_MS :: nat where
  "EDGE_TTL_MS = 60 * 60 * 1000"

definition MAX_EDGES :: nat where
  "MAX_EDGES = 100000"

definition DEFAULT_CLEANUP_INTERVAL_MS :: nat where
  "DEFAULT_CLEANUP_INTERVAL_MS = 30000"

datatype edge_type = Consumes | WaitsOn | BlockedBy

record edge =
  edge_type :: edge_type
  edge_from :: string
  edge_to :: string
  edge_ts :: nat

datatype node_type = ProcessNode | ResourceNode | ErrorNode

record node =
  node_id :: string
  node_type :: node_type
  last_update :: nat
  metadata :: "(string, string) hashmap"

record edge_key =
  key_type :: edge_type
  key_from :: string
  key_to :: string

record indexed_edge =
  ix_type :: edge_type
  ix_to :: string

record state_graph =
  nodes :: "(string, node) hashmap"
  edges :: "edge list"
  edge_index :: "edge_key set"
  edge_out_index :: "(string, indexed_edge list) hashmap"
  signals :: signal_engine
  error_window_ms :: nat
  cleanup_interval_ms :: nat
  last_cleanup_ts :: nat

record graph_metrics =
  nodes_total :: nat
  edges_total :: nat
  edges_by_type :: "(string, nat) hashmap"

definition state_graph_new :: state_graph where
  "state_graph_new =
     \<lparr>nodes = [], edges = [], edge_index = {}, edge_out_index = [],
      signals = signal_engine_new default_mvp, error_window_ms = 5 * 60 * 1000,
      cleanup_interval_ms = DEFAULT_CLEANUP_INTERVAL_MS, last_cleanup_ts = 0\<rparr>"

section \<open>Edges and their indexes\<close>

definition edge_key_of :: "edge \<Rightarrow> edge_key" where
  "edge_key_of e = \<lparr>key_type = edge_type e, key_from = edge_from e, key_to = edge_to e\<rparr>"

definition indexed :: "edge \<Rightarrow> indexed_edge" where
  "indexed e = \<lparr>ix_type = edge_type e, ix_to = edge_to e\<rparr>"

text \<open>\<open>entry(from).or_default().push(...)\<close>.\<close>

definition push_out :: "edge \<Rightarrow> (string, indexed_edge list) hashmap \<Rightarrow> (string, indexed_edge list) hashmap" where
  "push_out e out =
     hm_insert (edge_from e)
       ((case hm_get out (edge_from e) of Some l \<Rightarrow> l | None \<Rightarrow> []) @ [indexed e]) out"

definition upsert_edge :: "edge \<Rightarrow> state_graph \<Rightarrow> bool \<times> state_graph" where
  "upsert_edge e g =
     (if edge_key_of e \<notin> edge_index g
      then (True, g\<lparr>edge_index := insert (edge_key_of e) (edge_index g),
                    edge_out_index := push_out e (edge_out_index g),
                    edges := edges g @ [e]\<rparr>)
      else (False, g))"

definition rebuild_indexes :: "state_graph \<Rightarrow> state_graph" where
  "rebuild_indexes g =
     g\<lparr>edge_index := fold (\<lambda>e. insert (edge_key_of e)) (edges g) {},
       edge_out_index := fold push_out (edges g) []\<rparr>"

section \<open>Event handlers\<close>

definition namespace_node_id :: "event \<Rightarrow> string \<Rightarrow> string" where
  "namespace_node_id e n = (case ev_node_id e of Some p \<Rightarrow> p @ ''::'' @ n | None \<Rightarrow> n)"

definition pid_node_id :: "event \<Rightarrow> nat \<Rightarrow> string" where
  "pid_node_id e pid = namespace_node_id e (''pid-'' @ show_nat pid)"

text \<open>\<open>if !nodes.contains_key(&id) { nodes.insert(id, ...) }\<close>.\<close>

definition ensure_node :: "string \<Rightarrow> node \<Rightarrow> (string, node) hashmap \<Rightarrow> (string, node) hashmap" where
  "ensure_node k n m = (if \<not> hm_contains m k then hm_insert k n m else m)"

text \<open>\<open>if let Some(node) = nodes.get_mut(&id) { ... }\<close>: set one metadata field and the update time.\<close>

definition touch_node :: "string \<Rightarrow> string \<Rightarrow> string \<Rightarrow> nat \<Rightarrow> (string, node) hashmap \<Rightarrow> (string, node) hashmap" where
  "touch_node k field v ts m =
     (case hm_get m k of
        Some n \<Rightarrow> hm_insert k (n\<lparr>metadata := hm_insert field v (metadata n), last_update := ts\<rparr>) m
      | None \<Rightarrow> m)"

definition handle_process_state :: "event \<Rightarrow> state_graph \<Rightarrow> state_graph" where
  "handle_process_state e g =
     (case ev_pid e of
        None \<Rightarrow> g
      | Some pid \<Rightarrow>
          (let pid_str = pid_node_id e pid in
           if ev_value e = ''start'' then
             (let md0 = (case ev_job_id e of Some j \<Rightarrow> hm_insert ''job_id'' j [] | None \<Rightarrow> []);
                  md = hm_insert ''state'' ''running'' md0
              in g\<lparr>nodes := hm_insert pid_str
                     \<lparr>node_id = pid_str, node_type = ProcessNode, last_update = ev_ts e, metadata = md\<rparr>
                     (nodes g)\<rparr>)
           else if ev_value e = ''exit'' \<or> ev_value e = ''zombie'' then
             g\<lparr>nodes := touch_node pid_str ''state'' (ev_value e) (ev_ts e) (nodes g)\<rparr>
           else g))"

definition handle_compute_event :: "event \<Rightarrow> state_graph \<Rightarrow> state_graph" where
  "handle_compute_event e g =
     (let resource_id = namespace_node_id e (ev_entity_id e);
          ns1 = ensure_node resource_id
                  \<lparr>node_id = resource_id, node_type = ResourceNode, last_update = ev_ts e, metadata = []\<rparr>
                  (nodes g);
          ns2 = touch_node resource_id ''util'' (ev_value e) (ev_ts e) ns1;
          g2 = g\<lparr>nodes := ns2\<rparr> in
      case ev_pid e of
        None \<Rightarrow> g2
      | Some pid \<Rightarrow>
          (let pid_str = pid_node_id e pid;
               g3 = g2\<lparr>nodes := ensure_node pid_str
                      \<lparr>node_id = pid_str, node_type = ProcessNode, last_update = ev_ts e, metadata = []\<rparr>
                      (nodes g2)\<rparr>
           in snd (upsert_edge
                \<lparr>edge_type = Consumes, edge_from = pid_str, edge_to = resource_id, edge_ts = ev_ts e\<rparr> g3)))"

definition transport_resource :: "event \<Rightarrow> string" where
  "transport_resource e =
     (if starts_with (ev_entity_id e) ''network-'' then
        (case strip_prefix (ev_entity_id e) ''network-pid-'' of
           Some _ \<Rightarrow> ''network''
         | None \<Rightarrow> ev_entity_id e)
      else ev_entity_id e)"

definition transport_field :: "event \<Rightarrow> string" where
  "transport_field e =
     (case ev_type e of TransportBw \<Rightarrow> ''bw'' | TransportDrop \<Rightarrow> ''drop'' | _ \<Rightarrow> ''unknown'')"

text \<open>The process a drop is charged to; 0 when there is none.\<close>

definition transport_drop_pid :: "event \<Rightarrow> nat" where
  "transport_drop_pid e =
     (case ev_pid e of
        Some pid \<Rightarrow> pid
      | None \<Rightarrow>
          (case strip_prefix (ev_entity_id e) ''network-pid-'' of
             Some s \<Rightarrow> (case parse_uint u32_max s of Some n \<Rightarrow> n | None \<Rightarrow> 0)
           | None \<Rightarrow> 0))"

definition bw_blocks :: "event \<Rightarrow> bool" where
  "bw_blocks e =
     (contains (ev_value e) ''IO_WAIT'' \<or>
      f64_lt (case parse_f64 (ev_value e) of Some v \<Rightarrow> v | None \<Rightarrow> Fin False 1000) (Fin False 1))"

definition add_waits_on :: "event \<Rightarrow> nat \<Rightarrow> (string, string) hashmap \<Rightarrow> string \<Rightarrow> state_graph \<Rightarrow> state_graph" where
  "add_waits_on e pid md resource_id g =
     (let pid_str = pid_node_id e pid;
          g1 = g\<lparr>nodes := ensure_node pid_str
                  \<lparr>node_id = pid_str, node_type = ProcessNode, last_update = ev_ts e, metadata = md\<rparr>
                  (nodes g)\<rparr>
      in snd (upsert_edge
           \<lparr>edge_type = WaitsOn, edge_from = pid_str, edge_to = resource_id, edge_ts = ev_ts e\<rparr> g1))"

definition handle_transport_event :: "event \<Rightarrow> state_graph \<Rightarrow> state_graph" where
  "handle_transport_event e g =
     (let resource_id = namespace_node_id e (transport_resource e);
          ns1 = ensure_node resource_id
                  \<lparr>node_id = resource_id, node_type = ResourceNode, last_update = ev_ts e, metadata = []\<rparr>
                  (nodes g);
          ns2 = touch_node resource_id (transport_field e) (ev_value e) (ev_ts e) ns1;
          g2 = g\<lparr>nodes := ns2\<rparr>;
          g3 = (if ev_type e = TransportDrop \<and> 0 < transport_drop_pid e
                then add_waits_on e (transport_drop_pid e) (hm_insert ''state'' ''running'' []) resource_id g2
                else g2) in
      if ev_type e = TransportBw then
        (case ev_pid e of
           Some pid \<Rightarrow> if bw_blocks e then add_waits_on e pid [] resource_id g3 else g3
         | None \<Rightarrow> g3)
      else g3)"

definition handle_storage_event :: "event \<Rightarrow> state_graph \<Rightarrow> state_graph" where
  "handle_storage_event e g = handle_transport_event e g"

definition handle_error_event :: "event \<Rightarrow> state_graph \<Rightarrow> state_graph" where
  "handle_error_event e g =
     (let error_id = namespace_node_id e (''error-'' @ ev_entity_id e);
          g1 = g\<lparr>nodes := ensure_node error_id
                  \<lparr>node_id = error_id, node_type = ErrorNode, last_update = ev_ts e,
                   metadata = hm_insert ''error_type'' (ev_value e) []\<rparr> (nodes g)\<rparr>;
          resource_id = namespace_node_id e (ev_entity_id e);
          affected_pids = map edge_from
            (filter (\<lambda>ed. edge_type ed = Consumes \<and> edge_to ed = resource_id) (edges g1)) in
      fold (\<lambda>pid_str g. snd (upsert_edge
              \<lparr>edge_type = BlockedBy, edge_from = pid_str, edge_to = error_id, edge_ts = ev_ts e\<rparr> g))
        affected_pids g1)"

definition handle_topo_event :: "event \<Rightarrow> state_graph \<Rightarrow> state_graph" where
  "handle_topo_event e g = handle_error_event e g"

section \<open>Cleanup\<close>

definition expired_error :: "nat \<Rightarrow> node \<Rightarrow> bool" where
  "expired_error cutoff n = (node_type n = ErrorNode \<and> last_update n < cutoff)"

definition dead_process :: "nat \<Rightarrow> node \<Rightarrow> bool" where
  "dead_process process_cutoff n =
     (node_type n = ProcessNode \<and>
      (let state = hm_get (metadata n) ''state'';
           is_explicitly_dead = (state = Some ''exit'' \<or> state = Some ''zombie'');
           is_stale_non_running = (last_update n < process_cutoff \<and> state \<noteq> Some ''running'')
       in is_explicitly_dead \<or> is_stale_non_running))"

definition keys_where :: "(node \<Rightarrow> bool) \<Rightarrow> (string, node) hashmap \<Rightarrow> string list" where
  "keys_where P m = map fst (filter (\<lambda>(_, n). P n) m)"

definition cap_edges :: "edge list \<Rightarrow> edge list" where
  "cap_edges es =
     (if MAX_EDGES < length es then take MAX_EDGES (sort_desc edge_ts es) else es)"

text \<open>
  The two halves of \<open>cleanup_old_errors\<close>: the sets computed under the read lock, and the removal under
  the write locks.
\<close>

definition cleanup_sets :: "nat \<Rightarrow> state_graph \<Rightarrow> string list \<times> string list" where
  "cleanup_sets current_ts g =
     (let cutoff_ts = saturating_sub current_ts (error_window_ms g);
          process_cutoff = saturating_sub current_ts (10 * 60 * 1000)
      in (keys_where (expired_error cutoff_ts) (nodes g),
          keys_where (dead_process process_cutoff) (nodes g)))"

definition cleanup_apply :: "nat \<Rightarrow> string list \<Rightarrow> string list \<Rightarrow> state_graph \<Rightarrow> state_graph" where
  "cleanup_apply current_ts error_ids dead_pids g =
     (let edge_cutoff = saturating_sub current_ts EDGE_TTL_MS;
          ns1 = fold hm_remove error_ids (nodes g);
          es1 = filter (\<lambda>e. \<not> (edge_type e = BlockedBy \<and> edge_to e \<in> set error_ids)) (edges g);
          ns2 = fold hm_remove dead_pids ns1;
          es2 = filter (\<lambda>e. edge_from e \<notin> set dead_pids \<and> edge_to e \<notin> set dead_pids) es1;
          es3 = filter (\<lambda>e. edge_cutoff \<le> edge_ts e) es2
      in rebuild_indexes (g\<lparr>nodes := ns2, edges := cap_edges es3\<rparr>))"

definition cleanup_old_errors :: "nat \<Rightarrow> state_graph \<Rightarrow> state_graph" where
  "cleanup_old_errors current_ts g =
     (let (error_ids, dead_pids) = cleanup_sets current_ts g
      in cleanup_apply current_ts error_ids dead_pids g)"

section \<open>Processing an event\<close>

definition signal_node_id :: "signal_point \<Rightarrow> string" where
  "signal_node_id p = ''signal::'' @ pt_name p @ ''::'' @ ent_id (pt_entity p)"

definition signal_node :: "signal_point \<Rightarrow> node" where
  "signal_node p =
     (let md0 = (case pt_value p of Number v \<Rightarrow> hm_insert ''value'' (f64_to_string v) [] | _ \<Rightarrow> []);
          md1 = hm_insert ''window_ms'' (show_nat (pt_window_ms p)) md0;
          md2 = hm_insert ''unit'' (pt_unit p) md1
      in \<lparr>node_id = signal_node_id p, node_type = ResourceNode, last_update = pt_ts p, metadata = md2\<rparr>)"

definition update_signals :: "event \<Rightarrow> state_graph \<Rightarrow> state_graph" where
  "update_signals e g =
     (let (eng, points) = on_event e (signals g); g1 = g\<lparr>signals := eng\<rparr> in
      if points = [] then g1
      else g1\<lparr>nodes := fold (\<lambda>p. hm_insert (signal_node_id p) (signal_node p)) points (nodes g1)\<rparr>)"

definition handle_event :: "event \<Rightarrow> state_graph \<Rightarrow> state_graph" where
  "handle_event e g =
     (case ev_type e of
        ProcessState \<Rightarrow> handle_process_state e g
      | ComputeUtil \<Rightarrow> handle_compute_event e g
      | ComputeMem \<Rightarrow> handle_compute_event e g
      | TransportBw \<Rightarrow> handle_transport_event e g
      | TransportDrop \<Rightarrow> handle_transport_event e g
      | StorageIops \<Rightarrow> handle_storage_event e g
      | StorageQDepth \<Rightarrow> handle_storage_event e g
      | ErrorHw \<Rightarrow> handle_error_event e g
      | ErrorNet \<Rightarrow> handle_error_event e g
      | TopoLinkDown \<Rightarrow> handle_topo_event e g
      | _ \<Rightarrow> g)"

definition cleanup_due :: "nat \<Rightarrow> state_graph \<Rightarrow> bool" where
  "cleanup_due ts g =
     (last_cleanup_ts g = 0 \<or> cleanup_interval_ms g \<le> saturating_sub ts (last_cleanup_ts g))"

text \<open>Every handler returns \<open>Ok(())\<close>, so \<open>process_event\<close> does.\<close>

definition process_event :: "event \<Rightarrow> state_graph \<Rightarrow> (string + unit) \<times> state_graph" where
  "process_event e g =
     (let g1 = handle_event e g;
          g2 = (if cleanup_due (ev_ts e) g1
                then (cleanup_old_errors (ev_ts e) g1)\<lparr>last_cleanup_ts := ev_ts e\<rparr> else g1)
      in (Inr (), update_signals e g2))"

definition process_events :: "event list \<Rightarrow> state_graph \<Rightarrow> state_graph" where
  "process_events es g = fold (\<lambda>e g. snd (process_event e g)) es g"

section \<open>Queries\<close>

definition edge_type_name :: "edge_type \<Rightarrow> string" where
  "edge_type_name t =
     (case t of Consumes \<Rightarrow> ''consumes'' | WaitsOn \<Rightarrow> ''waits_on'' | BlockedBy \<Rightarrow> ''blocked_by'')"

definition metrics_snapshot :: "state_graph \<Rightarrow> graph_metrics" where
  "metrics_snapshot g =
     \<lparr>nodes_total = length (nodes g), edges_total = length (edges g),
      edges_by_type = fold (\<lambda>e m. hm_insert (edge_type_name (edge_type e))
        ((case hm_get m (edge_type_name (edge_type e)) of Some n \<Rightarrow> n | None \<Rightarrow> 0) + 1) m) (edges g) []\<rparr>"

definition get_active_processes :: "state_graph \<Rightarrow> node list" where
  "get_active_processes g =
     filter (\<lambda>n. node_type n = ProcessNode \<and> hm_get (metadata n) ''state'' \<noteq> Some ''exit'' \<and>
                 hm_get (metadata n) ''state'' \<noteq> Some ''zombie'') (hm_values (nodes g))"

definition get_process_resources :: "nat \<Rightarrow> state_graph \<Rightarrow> string list" where
  "get_process_resources pid g =
     (case hm_get (edge_out_index g) (''pid-'' @ show_nat pid) of
        Some es \<Rightarrow> map ix_to (filter (\<lambda>e. ix_type e = Consumes) es)
      | None \<Rightarrow> [])"

text \<open>The UTF-8 bytes of the two Chinese literals of the search.\<close>

definition unknown_error :: string where
  "unknown_error = [CHR 0xE6, CHR 0x9C, CHR 0xAA, CHR 0xE7, CHR 0x9F, CHR 0xA5, CHR 0xE9, CHR 0x94,
                    CHR 0x99, CHR 0xE8, CHR 0xAF, CHR 0xAF]"

definition waiting_for :: string where
  "waiting_for = [CHR 0xE7, CHR 0xAD, CHR 0x89, CHR 0xE5, CHR 0xBE, CHR 0x85, CHR 0xE8, CHR 0xB5,
                  CHR 0x84, CHR 0xE6, CHR 0xBA, CHR 0x90] @ '': ''"

definition error_desc :: "string \<Rightarrow> node \<Rightarrow> string" where
  "error_desc to n =
     to @ '': '' @ (case hm_get (metadata n) ''error_type'' of Some t \<Rightarrow> t | None \<Rightarrow> unknown_error)"

text \<open>
  \<open>dfs_backward\<close> is the recursive search, \<open>dfs_edges\<close> its loop over the outgoing edges of a node; the
  pair is the visited set and the list of causes, which the source passes as mutable references.
\<close>

function (sequential)
  dfs_backward :: "string \<Rightarrow> (string, indexed_edge list) hashmap \<Rightarrow> (string, node) hashmap \<Rightarrow>
    string set \<times> string list \<Rightarrow> string set \<times> string list" and
  dfs_edges :: "indexed_edge list \<Rightarrow> (string, indexed_edge list) hashmap \<Rightarrow> (string, node) hashmap \<Rightarrow>
    string set \<times> string list \<Rightarrow> string set \<times> string list"
where
  "dfs_backward n out ns (visited, causes) =
     (if n \<in> visited then (visited, causes)
      else case hm_get out n of
             Some out_edges \<Rightarrow> dfs_edges out_edges out ns (insert n visited, causes)
           | None \<Rightarrow> (insert n visited, causes))"
| "dfs_edges [] out ns st = st"
| "dfs_edges (e # es) out ns (visited, causes) =
     (if ix_type e = BlockedBy then
        (case hm_get ns (ix_to e) of
           Some nd \<Rightarrow>
             dfs_edges es out ns
               (dfs_backward (ix_to e) out ns
                 (visited, if node_type nd = ErrorNode then causes @ [error_desc (ix_to e) nd] else causes))
         | None \<Rightarrow> dfs_edges es out ns (visited, causes))
      else if ix_type e = WaitsOn then
        dfs_edges es out ns (visited, causes @ [waiting_for @ ix_to e])
      else dfs_edges es out ns (visited, causes))"
  by pat_completeness auto

text \<open>The visited set only grows, on every call in the domain.\<close>

lemma dfs_visited_grows_dom:
  "dfs_backward_dfs_edges_dom (Inl (n, out, ns, st)) \<Longrightarrow> fst st \<subseteq> fst (dfs_backward n out ns st)"
  "dfs_backward_dfs_edges_dom (Inr (es, out, ns, st)) \<Longrightarrow> fst st \<subseteq> fst (dfs_edges es out ns st)"
proof (induction n out ns st and es out ns st rule: dfs_backward_dfs_edges.pinduct)
  case (1 n out ns visited causes)
  then show ?case by (auto simp: dfs_backward.psimps split: option.splits)
next
  case (2 out ns st)
  then show ?case by (simp add: dfs_edges.psimps)
next
  case (3 e es out ns visited causes)
  then show ?case by (fastforce simp: dfs_edges.psimps split: option.splits)
qed

definition unvisited :: "(string, indexed_edge list) hashmap \<Rightarrow> string set \<Rightarrow> nat" where
  "unvisited out visited = card (fst ` set out - visited)"

lemma unvisited_mono: "v \<subseteq> w \<Longrightarrow> unvisited out w \<le> unvisited out v"
  unfolding unvisited_def by (rule card_mono) auto

lemma unvisited_insert:
  assumes "hm_get out n = Some es" "n \<notin> v"
  shows "unvisited out (insert n v) < unvisited out v"
proof -
  have "n \<in> fst ` set out" using assms(1) by (force simp: hm_get_def dest: map_of_SomeD)
  then show ?thesis unfolding unvisited_def
    by (intro psubset_card_mono) (use assms(2) in auto)
qed

lemma dfs_unvisited_dom:
  assumes "dfs_backward_dfs_edges_dom (Inl (n, out, ns, v, cs))"
  shows "unvisited out (fst (dfs_backward n out ns (v, cs))) < unvisited out v \<or>
         unvisited out (fst (dfs_backward n out ns (v, cs))) = unvisited out v"
  using unvisited_mono[of v "fst (dfs_backward n out ns (v, cs))" out] dfs_visited_grows_dom(1)[OF assms]
  by (auto simp: le_less)

termination dfs_backward
  by (relation "measures [case_sum (\<lambda>(n, out, ns, st). unvisited out (fst st))
                                    (\<lambda>(es, out, ns, st). unvisited out (fst st)),
                           case_sum (\<lambda>_. 1) (\<lambda>(es, _). 2 * length es)]")
     (auto simp: unvisited_insert dest: dfs_unvisited_dom split: if_splits)

definition find_root_cause_by_id :: "string \<Rightarrow> state_graph \<Rightarrow> string list" where
  "find_root_cause_by_id n g = snd (dfs_backward n (edge_out_index g) (nodes g) ({}, []))"

definition find_root_cause :: "nat \<Rightarrow> state_graph \<Rightarrow> string list" where
  "find_root_cause pid g = find_root_cause_by_id (''pid-'' @ show_nat pid) g"

definition get_all_edges_async :: "state_graph \<Rightarrow> edge list" where
  "get_all_edges_async g = edges g"

definition get_nodes_async :: "state_graph \<Rightarrow> (string, node) hashmap" where
  "get_nodes_async g = nodes g"

end
