(* ===== verification/Ipc.thy ===== *)
theory Ipc
  imports Graph
begin

text \<open>
  \<^bold>\<open>agent/src/ipc.rs\<close>: the queries of the command line to the daemon over a Unix socket.  A message is its
  length as four bytes, the highest first, and then its JSON text.  The two directions of a connection
  are byte strings; the JSON texts of requests and responses are parameters.
\<close>

section \<open>Messages\<close>

datatype rpc_request = ListProcesses | WhyProcess nat | Ping

text \<open>\<open>serde_json::Value\<close>, as far as the responses use it.\<close>

datatype json =
    JNull
  | JNum nat
  | JStr string
  | JArr "json list"
  | JObj "(string \<times> json) list"

record rpc_response =
  rpc_success :: bool
  rpc_data :: "json option"
  rpc_error :: "string option"

definition response_success :: "json \<Rightarrow> rpc_response" where
  "response_success data = \<lparr>rpc_success = True, rpc_data = Some data, rpc_error = None\<rparr>"

definition response_error :: "string \<Rightarrow> rpc_response" where
  "response_error msg = \<lparr>rpc_success = False, rpc_data = None, rpc_error = Some msg\<rparr>"

text \<open>The JSON codec: what each side writes and reads.\<close>

record codec =
  request_text :: "rpc_request \<Rightarrow> string"
  parse_request :: "string \<Rightarrow> string + rpc_request"
  response_text :: "rpc_response \<Rightarrow> string"
  parse_response :: "string \<Rightarrow> string + rpc_response"

definition MAX_REQUEST_SIZE :: nat where
  "MAX_REQUEST_SIZE = 10 * 1024 * 1024"

definition MAX_RESPONSE_SIZE :: nat where
  "MAX_RESPONSE_SIZE = 100 * 1024 * 1024"

section \<open>Frames\<close>

text \<open>\<open>write_u32\<close> of a length that was cast with \<open>as u32\<close>, and \<open>read_u32\<close>, which fails at the end of the stream.\<close>

definition write_u32 :: "nat \<Rightarrow> string" where
  "write_u32 n =
     [char_of (n div 2 ^ 24 mod 256), char_of (n div 2 ^ 16 mod 256), char_of (n div 2 ^ 8 mod 256), char_of (n mod 256)]"

fun read_u32 :: "string \<Rightarrow> (nat \<times> string) option" where
  "read_u32 (a # b # c # d # rest) =
     Some (of_char a * 2 ^ 24 + of_char b * 2 ^ 16 + of_char c * 2 ^ 8 + of_char d, rest)"
| "read_u32 _ = None"

definition read_exact :: "nat \<Rightarrow> string \<Rightarrow> (string \<times> string) option" where
  "read_exact n s = (if n \<le> length s then Some (take n s, drop n s) else None)"

definition frame :: "string \<Rightarrow> string" where
  "frame body = write_u32 (length body) @ body"

lemma read_u32_length: "read_u32 s = Some (n, rest) \<Longrightarrow> length s = length rest + 4"
  by (induction s rule: read_u32.induct) auto

lemma read_write_u32: "read_u32 (write_u32 n @ s) = Some (n mod 2 ^ 32, s)"
proof -
  have "n div 2 ^ 24 mod 256 * 2 ^ 24 + n div 2 ^ 16 mod 256 * 2 ^ 16 + n div 2 ^ 8 mod 256 * 2 ^ 8 + n mod 256 = n mod 2 ^ 32"
  proof -
    have "n mod (256 * (256 * (256 * 256))) =
        256 * (256 * (256 * (n div 256 div 256 div 256 mod 256) + n div 256 div 256 mod 256) + n div 256 mod 256) + n mod 256"
      by (simp only: mod_mult2_eq)
    moreover have "n div 2 ^ 24 = n div 256 div 256 div 256" "n div 2 ^ 16 = n div 256 div 256" "n div 2 ^ 8 = n div 256"
      by (simp_all flip: div_mult2_eq)
    ultimately show ?thesis by simp
  qed
  then show ?thesis by (simp add: write_u32_def of_char_of)
qed

lemma read_exact_frame: "read_exact (length body) (body @ s) = Some (body, s)"
  by (simp add: read_exact_def)

section \<open>The server\<close>

text \<open>\<open>default_socket_path\<close>: \<open>var_run\<close> says whether /var/run is there, \<open>home\<close> is the variable HOME.\<close>

definition default_socket_path :: "bool \<Rightarrow> string option \<Rightarrow> string" where
  "default_socket_path var_run home =
     (if var_run then ''/var/run/ark.sock''
      else (case home of Some h \<Rightarrow> h | None \<Rightarrow> ''.'') @ ''/.ark/ark.sock'')"

definition opt_json :: "string option \<Rightarrow> json" where
  "opt_json x = (case x of Some s \<Rightarrow> JStr s | None \<Rightarrow> JNull)"

definition process_pid :: "node \<Rightarrow> nat" where
  "process_pid n =
     (let digits = (case strip_prefix (node_id n) ''pid-'' of Some s \<Rightarrow> s | None \<Rightarrow> node_id n) in
      case parse_uint u32_max digits of Some pid \<Rightarrow> pid | None \<Rightarrow> 0)"

definition process_json_of :: "state_graph \<Rightarrow> node \<Rightarrow> json" where
  "process_json_of g n =
     JObj [(''pid'', JNum (process_pid n)), (''id'', JStr (node_id n)),
       (''job_id'', opt_json (hm_get (metadata n) ''job_id'')),
       (''state'', JStr (case hm_get (metadata n) ''state'' of Some s \<Rightarrow> s | None \<Rightarrow> ''unknown'')),
       (''resources'', JArr (map JStr (get_process_resources (process_pid n) g))),
       (''last_update'', JNum (last_update n))]"

definition handle_request :: "rpc_request \<Rightarrow> state_graph \<Rightarrow> string + json" where
  "handle_request req g =
     (case req of
        ListProcesses \<Rightarrow> Inr (JArr (map (process_json_of g) (get_active_processes g)))
      | WhyProcess pid \<Rightarrow>
          Inr (JObj [(''pid'', JNum pid), (''causes'', JArr (map JStr (find_root_cause pid g)))])
      | Ping \<Rightarrow> Inr (JObj [(''status'', JStr ''ok'')]))"

definition answer :: "rpc_request \<Rightarrow> state_graph \<Rightarrow> rpc_response" where
  "answer req g = (case handle_request req g of Inr data \<Rightarrow> response_success data | Inl e \<Rightarrow> response_error e)"

text \<open>
  \<open>handle_client_unix\<close> on everything the client sends: the responses, and whether the loop ends with an
  error.  The texts of the two error responses are parameters, since they only quote numbers and the
  message of the JSON library.  All responses can be written here.  A response that cannot be written ends
  the loop with the error, as a request that cannot be read does; since no request changes the graph, the
  responses are then the first few of these.
\<close>

function handle_client ::
  "codec \<Rightarrow> (nat \<Rightarrow> string) \<Rightarrow> (string \<Rightarrow> string) \<Rightarrow> state_graph \<Rightarrow> string \<Rightarrow> rpc_response list \<times> bool" where
  "handle_client c too_big unparsable g input =
     (case read_u32 input of
        None \<Rightarrow> ([], False)
      | Some (n, rest) \<Rightarrow>
          if n = 0 then ([], True)
          else if MAX_REQUEST_SIZE < n
          then (let (rs, ok) = handle_client c too_big unparsable g rest in (response_error (too_big n) # rs, ok))
          else (case read_exact n rest of
                  None \<Rightarrow> ([], False)
                | Some (body, rest2) \<Rightarrow>
                    (let (rs, ok) = handle_client c too_big unparsable g rest2 in
                     (case parse_request c body of
                        Inl e \<Rightarrow> (response_error (unparsable e) # rs, ok)
                      | Inr req \<Rightarrow> (answer req g # rs, ok)))))"
  by pat_completeness auto
termination
  by (relation "measure (\<lambda>(c, t, u, g, s). length s)")
     (auto dest!: read_u32_length simp: read_exact_def split: if_splits)

declare handle_client.simps [simp del]

text \<open>What the client can read: \<open>send_response_unix\<close> for each response.\<close>

definition server_output :: "codec \<Rightarrow> rpc_response list \<Rightarrow> string" where
  "server_output c rs = concat (map (\<lambda>r. frame (response_text c r)) rs)"

section \<open>The client\<close>

datatype call_error =
    NotConnectedToDaemon
  | ResponseLengthMissing
  | ResponseTooBig nat
  | ResponseIncomplete
  | ResponseUnparsable string
  | RemoteError string
  | UnknownRemoteError
  | NoData
  | MalformedCauses
  | MalformedProcesses

definition read_response :: "codec \<Rightarrow> string \<Rightarrow> call_error + rpc_response" where
  "read_response c s =
     (case read_u32 s of
        None \<Rightarrow> Inl ResponseLengthMissing
      | Some (n, rest) \<Rightarrow>
          if MAX_RESPONSE_SIZE < n then Inl (ResponseTooBig n)
          else (case read_exact n rest of
                  None \<Rightarrow> Inl ResponseIncomplete
                | Some (body, _) \<Rightarrow>
                    (case parse_response c body of
                       Inl e \<Rightarrow> Inl (ResponseUnparsable e)
                     | Inr r \<Rightarrow> Inr r)))"

text \<open>\<open>daemon\<close> is the other end of the connection, a function from what is sent to what comes back, if it can be reached.\<close>

definition call :: "codec \<Rightarrow> (string \<Rightarrow> string) option \<Rightarrow> rpc_request \<Rightarrow> call_error + rpc_response" where
  "call c daemon req =
     (case daemon of
        None \<Rightarrow> Inl NotConnectedToDaemon
      | Some f \<Rightarrow> read_response c (f (frame (request_text c req))))"

definition response_data :: "rpc_response \<Rightarrow> call_error + json" where
  "response_data r =
     (if \<not> rpc_success r
      then Inl (case rpc_error r of Some e \<Rightarrow> RemoteError e | None \<Rightarrow> UnknownRemoteError)
      else (case rpc_data r of None \<Rightarrow> Inl NoData | Some d \<Rightarrow> Inr d))"

definition json_index :: "json \<Rightarrow> string \<Rightarrow> json" where
  "json_index j k = (case j of JObj kvs \<Rightarrow> (case map_of kvs k of Some v \<Rightarrow> v | None \<Rightarrow> JNull) | _ \<Rightarrow> JNull)"

definition json_strings :: "json list \<Rightarrow> string list" where
  "json_strings js = List.map_filter (\<lambda>j. case j of JStr s \<Rightarrow> Some s | _ \<Rightarrow> None) js"

definition list_processes :: "codec \<Rightarrow> (string \<Rightarrow> string) option \<Rightarrow> call_error + json list" where
  "list_processes c daemon =
     (case call c daemon ListProcesses of
        Inl e \<Rightarrow> Inl e
      | Inr r \<Rightarrow>
          (case response_data r of
             Inl e \<Rightarrow> Inl e
           | Inr (JArr ps) \<Rightarrow> Inr ps
           | Inr _ \<Rightarrow> Inl MalformedProcesses))"

definition why_process :: "codec \<Rightarrow> (string \<Rightarrow> string) option \<Rightarrow> nat \<Rightarrow> call_error + string list" where
  "why_process c daemon pid =
     (case call c daemon (WhyProcess pid) of
        Inl e \<Rightarrow> Inl e
      | Inr r \<Rightarrow>
          (case response_data r of
             Inl e \<Rightarrow> Inl e
           | Inr d \<Rightarrow>
               (case json_index d ''causes'' of
                  JArr js \<Rightarrow> Inr (json_strings js)
                | _ \<Rightarrow> Inl MalformedCauses)))"

definition ping :: "codec \<Rightarrow> (string \<Rightarrow> string) option \<Rightarrow> bool" where
  "ping c daemon = (case call c daemon Ping of Inr r \<Rightarrow> rpc_success r | Inl _ \<Rightarrow> False)"

text \<open>The daemon as the client sees it.\<close>

definition daemon_of :: "codec \<Rightarrow> (nat \<Rightarrow> string) \<Rightarrow> (string \<Rightarrow> string) \<Rightarrow> state_graph \<Rightarrow> string \<Rightarrow> string" where
  "daemon_of c too_big unparsable g input = server_output c (fst (handle_client c too_big unparsable g input))"

section \<open>Requests are answered\<close>

definition respond :: "codec \<Rightarrow> (string \<Rightarrow> string) \<Rightarrow> state_graph \<Rightarrow> string \<Rightarrow> rpc_response" where
  "respond c unparsable g body =
     (case parse_request c body of Inl e \<Rightarrow> response_error (unparsable e) | Inr req \<Rightarrow> answer req g)"

definition request_size_ok :: "string \<Rightarrow> bool" where
  "request_size_ok body \<longleftrightarrow> body \<noteq> [] \<and> length body \<le> MAX_REQUEST_SIZE"

lemma handle_client_frame:
  assumes "request_size_ok body"
  shows "handle_client c tb up g (frame body @ rest) =
    (respond c up g body # fst (handle_client c tb up g rest), snd (handle_client c tb up g rest))"
proof -
  have n: "length body mod 2 ^ 32 = length body" "length body \<noteq> 0" "\<not> MAX_REQUEST_SIZE < length body"
    using assms by (simp_all add: request_size_ok_def MAX_REQUEST_SIZE_def)
  have "read_u32 (frame body @ rest) = Some (length body, body @ rest)"
    using read_write_u32[of "length body" "body @ rest"] n(1) by (simp add: frame_def)
  then show ?thesis
    using n by (subst handle_client.simps) (simp add: read_exact_frame respond_def split: prod.splits sum.splits)
qed

lemma handle_client_end: "handle_client c tb up g [] = ([], False)"
  by (subst handle_client.simps) simp

lemma handle_client_oversized:
  assumes "MAX_REQUEST_SIZE < n" "n < 2 ^ 32"
  shows "handle_client c tb up g (write_u32 n @ rest) =
    (response_error (tb n) # fst (handle_client c tb up g rest), snd (handle_client c tb up g rest))"
  using assms by (subst handle_client.simps) (simp add: read_write_u32 split: prod.splits)

lemma handle_client_frames:
  "list_all request_size_ok bodies \<Longrightarrow>
     handle_client c tb up g (concat (map frame bodies)) = (map (respond c up g) bodies, False)"
  by (induction bodies) (simp_all add: handle_client_end handle_client_frame)

lemma handle_client_responses: "4 * length (fst (handle_client c tb up g input)) \<le> length input"
proof (induction c tb up g input rule: handle_client.induct)
  case (1 c tb up g input)
  show ?case
  proof (cases "read_u32 input")
    case None
    then show ?thesis by (subst handle_client.simps) simp
  next
    case (Some p)
    obtain n rest where p: "p = (n, rest)" by (rule prod.exhaust)
    note len = read_u32_length[OF Some[unfolded p]]
    consider "n = 0" | "n \<noteq> 0" "MAX_REQUEST_SIZE < n" | "n \<noteq> 0" "\<not> MAX_REQUEST_SIZE < n" by blast
    then show ?thesis
    proof cases
      case 1
      then show ?thesis by (subst handle_client.simps) (simp add: Some p)
    next
      case 2
      then show ?thesis using "1.IH"(1)[OF Some p[symmetric] 2] len
        by (subst handle_client.simps) (simp add: Some p case_prod_unfold Let_def)
    next
      case 3
      show ?thesis
      proof (cases "read_exact n rest")
        case None
        then show ?thesis using 3 by (subst handle_client.simps) (simp add: Some p)
      next
        case (Some q)
        obtain body rest2 where q: "q = (body, rest2)" by (rule prod.exhaust)
        have "length rest2 \<le> length rest" using Some by (auto simp: read_exact_def q split: if_splits)
        moreover have "4 * length (fst (handle_client c tb up g rest2)) \<le> length rest2"
          using "1.IH"(2)[OF \<open>read_u32 input = Some p\<close> p[symmetric] 3 Some q[symmetric]] .
        ultimately show ?thesis using 3 len Some
          by (subst handle_client.simps) (simp add: \<open>read_u32 input = Some p\<close> p q case_prod_unfold Let_def split: sum.splits)
      qed
    qed
  qed
qed

text \<open>
  \<^bold>\<open>C38.\<close>  The loop of the server ends on every input, after at most one response for every four bytes; on
  a sequence of requests of admissible size it gives exactly one response for each, in order, and ends
  with the error that the stream is over: a client that closes the connection is never the clean end
  the code has a branch for.
\<close>

theorem ipc_loop_ends:
  "4 * length (fst (handle_client c tb up g input)) \<le> length input \<and>
   (list_all request_size_ok bodies \<longrightarrow>
      handle_client c tb up g (concat (map frame bodies)) = (map (respond c up g) bodies, False))"
  using handle_client_responses handle_client_frames by blast

text \<open>The codec works for a request and its answer, and both fit into their limits.\<close>

definition codec_works :: "codec \<Rightarrow> state_graph \<Rightarrow> rpc_request \<Rightarrow> bool" where
  "codec_works c g req \<longleftrightarrow>
     parse_request c (request_text c req) = Inr req \<and> request_size_ok (request_text c req) \<and>
     parse_response c (response_text c (answer req g)) = Inr (answer req g) \<and>
     length (response_text c (answer req g)) \<le> MAX_RESPONSE_SIZE"

lemma call_answer:
  assumes "codec_works c g req"
  shows "call c (Some (daemon_of c tb up g)) req = Inr (answer req g)"
proof -
  let ?t = "response_text c (answer req g)"
  have n: "length ?t mod 2 ^ 32 = length ?t" "\<not> MAX_RESPONSE_SIZE < length ?t"
    using assms by (simp_all add: codec_works_def MAX_RESPONSE_SIZE_def)
  have "handle_client c tb up g (frame (request_text c req)) = ([answer req g], False)"
    using handle_client_frame[of "request_text c req" c tb up g "[]"] assms
    by (simp add: handle_client_end respond_def codec_works_def)
  moreover have "read_u32 (frame ?t) = Some (length ?t, ?t)"
    using read_write_u32[of "length ?t" ?t] n(1) by (simp add: frame_def)
  ultimately show ?thesis
    using assms n(2) read_exact_frame[of ?t "[]"]
    by (simp add: call_def daemon_of_def server_output_def read_response_def codec_works_def)
qed

lemma json_strings_JStr: "json_strings (map JStr xs) = xs"
  by (induction xs) (simp_all add: json_strings_def List.map_filter_simps)

text \<open>
  \<^bold>\<open>C37.\<close>  The command line sees the graph of the daemon: asking why a process is blocked gives exactly the
  root causes the search in the daemon's graph finds, in its order; the list of processes has exactly
  the active ones with their resources; and a ping succeeds.
\<close>

theorem ipc_sees_graph:
  assumes "codec_works c g (WhyProcess pid)" "codec_works c g ListProcesses" "codec_works c g Ping"
  shows "let daemon = Some (daemon_of c tb up g) in
    why_process c daemon pid = Inr (find_root_cause pid g) \<and>
    list_processes c daemon = Inr (map (process_json_of g) (get_active_processes g)) \<and> ping c daemon"
  using call_answer[OF assms(1), of tb up] call_answer[OF assms(2), of tb up] call_answer[OF assms(3), of tb up]
  by (simp add: why_process_def list_processes_def ping_def answer_def handle_request_def response_success_def
      response_data_def json_index_def json_strings_JStr Let_def)

text \<open>A codec that is enough for three requests on the empty graph.\<close>

definition small_codec :: codec where
  "small_codec =
     \<lparr>request_text = \<lambda>req. (case req of ListProcesses \<Rightarrow> ''l'' | WhyProcess n \<Rightarrow> ''w'' @ show_nat n | Ping \<Rightarrow> ''p''),
      parse_request = \<lambda>s. (case s of
         [] \<Rightarrow> Inl ''empty''
       | x # xs \<Rightarrow> if x = CHR ''l'' then Inr ListProcesses else if x = CHR ''p'' then Inr Ping
                    else (case parse_uint u32_max xs of Some n \<Rightarrow> Inr (WhyProcess n) | None \<Rightarrow> Inl ''pid'')),
      response_text = \<lambda>r. (if rpc_data r = Some (JArr []) then ''[]''
                           else if rpc_data r = Some (JObj [(''status'', JStr ''ok'')]) then ''ok'' else ''42''),
      parse_response = \<lambda>s. Inr (if s = ''[]'' then response_success (JArr [])
                                else if s = ''ok'' then response_success (JObj [(''status'', JStr ''ok'')])
                                else response_success (JObj [(''pid'', JNum 42), (''causes'', JArr [])]))\<rparr>"

theorem ipc_sees_graph_witness:
  "why_process small_codec (Some (daemon_of small_codec show_nat id state_graph_new)) 42 = Inr (find_root_cause 42 state_graph_new) \<and>
   ping small_codec (Some (daemon_of small_codec show_nat id state_graph_new))"
proof -
  have "codec_works small_codec state_graph_new (WhyProcess 42)" "codec_works small_codec state_graph_new ListProcesses"
    "codec_works small_codec state_graph_new Ping" by code_simp+
  from ipc_sees_graph[OF this, of show_nat id] show ?thesis by (simp add: Let_def)
qed

theorem ipc_loop_ends_witness:
  "handle_client small_codec show_nat id state_graph_new (concat (map frame [''p'', ''x''])) =
     (map (respond small_codec id state_graph_new) [''p'', ''x''], False)"
  using ipc_loop_ends[of small_codec show_nat id state_graph_new "[]" "[''p'', ''x'']"]
  by (simp add: request_size_ok_def MAX_REQUEST_SIZE_def)

text \<open>
  A request that is refused for its size is not skipped: its body is read as the next requests.
  A client that announces too many bytes gets the refusal and then the answers to whatever frames those
  bytes contain.
\<close>

theorem oversized_body_is_read:
  assumes "MAX_REQUEST_SIZE < n" "n < 2 ^ 32" "list_all request_size_ok bodies"
  shows "handle_client c tb up g (write_u32 n @ concat (map frame bodies)) =
    (response_error (tb n) # map (respond c up g) bodies, False)"
  using assms by (simp add: handle_client_oversized handle_client_frames)

theorem oversized_body_is_read_witness:
  "handle_client small_codec show_nat id state_graph_new (write_u32 20000000 @ concat (map frame [''p''])) =
     ([response_error ''20000000'', response_success (JObj [(''status'', JStr ''ok'')])], False)"
proof -
  have "respond small_codec id state_graph_new ''p'' = response_success (JObj [(''status'', JStr ''ok'')])"
    "show_nat 20000000 = ''20000000''" by code_simp+
  with oversized_body_is_read[of 20000000 "[''p'']" small_codec show_nat id state_graph_new] show ?thesis
    by (simp add: request_size_ok_def MAX_REQUEST_SIZE_def)
qed

end
