(* ===== verification/Agent_Cli.thy ===== *)
theory Agent_Cli
  imports Exec_Props Audit_Log Ipc "HOL-Library.Char_ord" "HOL-Library.List_Lexorder"
begin

text \<open>
  \<^bold>\<open>agent/src/main.rs\<close>, the commands on one machine: the rows of \<open>ark ps\<close>, the report of \<open>ark why\<close>,
  \<open>ark zap\<close>, and \<open>ark fix\<close>, which asks the daemon for root causes, takes them for a scene
  (agent/src/scene/types.rs), runs the actions of the scene and records them in the audit log.
\<close>

section \<open>Scenes\<close>

datatype scene_type =
    GpuOom | GpuUtilLow | GpuError | NpuSubhealth | WorkloadStalled | NetworkStall | NetworkDrop
  | StorageIoError | StorageSlow | ProcessBlocked | ProcessCrash

fun scene_as_str :: "scene_type \<Rightarrow> string" where
  "scene_as_str GpuOom = ''gpu_oom''"
| "scene_as_str GpuUtilLow = ''gpu_util_low''"
| "scene_as_str GpuError = ''gpu_error''"
| "scene_as_str NpuSubhealth = ''npu_subhealth''"
| "scene_as_str WorkloadStalled = ''workload_stalled''"
| "scene_as_str NetworkStall = ''network_stall''"
| "scene_as_str NetworkDrop = ''network_drop''"
| "scene_as_str StorageIoError = ''storage_io_error''"
| "scene_as_str StorageSlow = ''storage_slow''"
| "scene_as_str ProcessBlocked = ''process_blocked''"
| "scene_as_str ProcessCrash = ''process_crash''"

text \<open>The derived \<open>Debug\<close>.\<close>

fun scene_debug :: "scene_type \<Rightarrow> string" where
  "scene_debug GpuOom = ''GpuOom''"
| "scene_debug GpuUtilLow = ''GpuUtilLow''"
| "scene_debug GpuError = ''GpuError''"
| "scene_debug NpuSubhealth = ''NpuSubhealth''"
| "scene_debug WorkloadStalled = ''WorkloadStalled''"
| "scene_debug NetworkStall = ''NetworkStall''"
| "scene_debug NetworkDrop = ''NetworkDrop''"
| "scene_debug StorageIoError = ''StorageIoError''"
| "scene_debug StorageSlow = ''StorageSlow''"
| "scene_debug ProcessBlocked = ''ProcessBlocked''"
| "scene_debug ProcessCrash = ''ProcessCrash''"

datatype severity = Critical | Warning | Info

record analysis_result =
  scene :: scene_type
  root_causes :: "string list"
  confidence :: f64
  recommendations :: "string list"
  recommended_actions :: "string list"
  severity :: severity

section \<open>ark ps\<close>

text \<open>The columns of a row: process, job, resources and state.\<close>

definition json_str :: "json \<Rightarrow> string \<Rightarrow> string" where
  "json_str j d = (case j of JStr s \<Rightarrow> s | _ \<Rightarrow> d)"

definition ps_row :: "json \<Rightarrow> nat \<times> string \<times> string \<times> string" where
  "ps_row proc =
     ((case json_index proc ''pid'' of JNum n \<Rightarrow> n mod 2 ^ 32 | _ \<Rightarrow> 0),
      json_str (json_index proc ''job_id'') ''-'',
      (let resources = (case json_index proc ''resources'' of JArr js \<Rightarrow> json_strings js | _ \<Rightarrow> []) in
       if resources = [] then ''-'' else join_str '', '' resources),
      json_str (json_index proc ''state'') ''unknown'')"

datatype cli_error = DaemonNotRunning | CallFailed call_error

definition query_processes ::
  "codec \<Rightarrow> (string \<Rightarrow> string) option \<Rightarrow> cli_error + (nat \<times> string \<times> string \<times> string) list" where
  "query_processes c daemon =
     (if \<not> ping c daemon then Inl DaemonNotRunning
      else (case list_processes c daemon of
              Inl e \<Rightarrow> Inl (CallFailed e)
            | Inr processes \<Rightarrow> Inr (map ps_row processes)))"

section \<open>ark why\<close>

text \<open>The words looked for that are not ASCII: video memory, network, waiting for a resource.\<close>

definition zh_video_memory :: string where
  "zh_video_memory = [CHR 0xE6, CHR 0x98, CHR 0xBE, CHR 0xE5, CHR 0xAD, CHR 0x98]"

definition zh_network :: string where
  "zh_network = [CHR 0xE7, CHR 0xBD, CHR 0x91, CHR 0xE7, CHR 0xBB, CHR 0x9C]"

definition zh_wait_resource :: string where
  "zh_wait_resource = [CHR 0xE7, CHR 0xAD, CHR 0x89, CHR 0xE5, CHR 0xBE, CHR 0x85, CHR 0xE8, CHR 0xB5, CHR 0x84, CHR 0xE6,
     CHR 0xBA, CHR 0x90]"

definition infer_scene :: "string list \<Rightarrow> string option" where
  "infer_scene causes =
     (if causes = [] then None
      else if list_ex (\<lambda>c. contains c ''GPU'' \<or> contains c ''OOM'' \<or> contains c zh_video_memory) causes
      then Some ''gpu_oom''
      else if list_ex (\<lambda>c. contains c zh_network \<or> contains (to_ascii_lowercase c) ''network'' \<or>
                           contains (to_ascii_lowercase c) ''retransmit'') causes
      then Some ''network_stall''
      else if list_ex (\<lambda>c. contains (to_ascii_lowercase c) ''exit'' \<or> contains (to_ascii_lowercase c) ''crash'' \<or>
                           contains (to_ascii_lowercase c) ''failed'') causes
      then Some ''process_crash''
      else None)"

definition push_new :: "bool \<Rightarrow> string \<Rightarrow> string list \<Rightarrow> string list" where
  "push_new found code codes = (if found \<and> code \<notin> set codes then codes @ [code] else codes)"

definition cause_codes :: "string \<Rightarrow> string list \<Rightarrow> string list" where
  "cause_codes cause codes0 =
     (let lower = to_ascii_lowercase cause;
          codes1 = push_new (contains lower ''retransmit'') ''TCP_RETRANSMIT_BURST'' codes0;
          codes2 = push_new (contains lower ''transport.drop'' \<or> contains lower ''packet drop'')
                     ''TRANSPORT_DROP_OBSERVED'' codes1;
          codes3 = push_new (contains lower ''oom'' \<or> contains cause zh_video_memory \<or> contains lower ''out of memory'')
                     ''GPU_OOM'' codes2;
          codes4 = push_new (contains cause zh_wait_resource \<or> contains lower ''resource wait'') ''RESOURCE_WAIT'' codes3 in
      push_new (contains lower ''crash'' \<or> contains lower ''exit'' \<or> contains lower ''segfault'') ''PROCESS_CRASH'' codes4)"

definition infer_reason_codes :: "string list \<Rightarrow> string list" where
  "infer_reason_codes causes = fold cause_codes causes []"

record why_error =
  why_code :: string
  why_message :: string
  why_hint :: "string option"

record why_report =
  schema_version :: nat
  why_timestamp :: string
  why_node_id :: string
  why_agent_id :: string
  why_pid :: nat
  why_scene :: "string option"
  reason_codes :: "string list"
  why_evidence :: "string list"
  why_tags :: "(string \<times> string) list"
  why_metrics :: "(string \<times> nat) list"
  why_err :: "why_error option"
  why_causes :: "string list"

text \<open>
  Sorting and then \<open>dedup\<close>, which drops a value equal to the one before it.  The tags and metrics are
  \<open>BTreeMap\<close>s: lists in the order of their keys.
\<close>

definition sort_dedup :: "string list \<Rightarrow> string list" where
  "sort_dedup xs = remdups_adj (sort xs)"

definition build_why_report :: "string \<Rightarrow> nat \<Rightarrow> string list \<Rightarrow> string \<Rightarrow> string \<Rightarrow> why_report" where
  "build_why_report now pid causes node agent =
     (let scene_name = infer_scene causes;
          codes = sort_dedup (infer_reason_codes causes) in
      \<lparr>schema_version = 1, why_timestamp = now, why_node_id = node, why_agent_id = agent, why_pid = pid,
       why_scene = scene_name, reason_codes = codes, why_evidence = sort_dedup causes,
       why_tags = (case scene_name of Some s \<Rightarrow> [(''scene'', s)] | None \<Rightarrow> []) @ [(''source'', ''ipc'')],
       why_metrics = [(''cause_count'', length causes), (''reason_code_count'', length codes)],
       why_err = None, why_causes = causes\<rparr>)"

definition build_why_error_report ::
  "string \<Rightarrow> nat \<Rightarrow> string \<Rightarrow> string \<Rightarrow> string \<Rightarrow> string \<Rightarrow> string option \<Rightarrow> why_report" where
  "build_why_error_report now pid node agent code message hint =
     \<lparr>schema_version = 1, why_timestamp = now, why_node_id = node, why_agent_id = agent, why_pid = pid,
      why_scene = None, reason_codes = [], why_evidence = [], why_tags = [(''source'', ''ipc'')], why_metrics = [],
      why_err = Some \<lparr>why_code = code, why_message = message, why_hint = hint\<rparr>, why_causes = []\<rparr>"

text \<open>
  The report that is shown and the outcome.  Without a daemon the JSON output has an error report, the
  text output none.
\<close>

definition query_why ::
  "codec \<Rightarrow> (string \<Rightarrow> string) option \<Rightarrow> string \<Rightarrow> string \<Rightarrow> string option \<Rightarrow> bool \<Rightarrow> nat \<Rightarrow>
   why_report option \<times> (cli_error + unit)" where
  "query_why c daemon now node agent_var json_output pid =
     (let agent = (case agent_var of Some a \<Rightarrow> a | None \<Rightarrow> node) in
      if \<not> ping c daemon
      then (if json_output
            then Some (build_why_error_report now pid node agent ''DAEMON_UNREACHABLE'' ''ark daemon is not reachable''
                   (Some ''start daemon with `ark run`''))
            else None, Inl DaemonNotRunning)
      else (case why_process c daemon pid of
              Inl e \<Rightarrow> (None, Inl (CallFailed e))
            | Inr causes \<Rightarrow> (Some (build_why_report now pid causes node agent), Inr ())))"

section \<open>ark zap\<close>

definition zap_process :: "'o os \<Rightarrow> nat \<Rightarrow> 'o \<Rightarrow> (actuator_error + unit) \<times> 'o" where
  "zap_process sys pid w = actuator_execute sys pid ''zap'' w"

section \<open>ark fix\<close>

definition zh_storage :: string where
  "zh_storage = [CHR 0xE5, CHR 0xAD, CHR 0x98, CHR 0xE5, CHR 0x82, CHR 0xA8]"

definition zh_crash :: string where
  "zh_crash = [CHR 0xE5, CHR 0xB4, CHR 0xA9, CHR 0xE6, CHR 0xBA, CHR 0x83]"

fun identify_scene_from_causes :: "string list \<Rightarrow> scene_type option" where
  "identify_scene_from_causes [] = Some WorkloadStalled"
| "identify_scene_from_causes (cause # causes) =
     (let has = contains (to_lowercase cause) in
      if has ''gpu'' \<and> has ''oom'' then Some GpuOom
      else if has ''network'' \<or> has zh_network then Some NetworkStall
      else if has ''storage'' \<or> has zh_storage then Some StorageIoError
      else if has ''crash'' \<or> has zh_crash then Some ProcessCrash
      else identify_scene_from_causes causes)"

definition scene_actions :: "scene_type \<Rightarrow> string list" where
  "scene_actions s =
     (case s of
        GpuOom \<Rightarrow>
          [[CHR 0xE5, CHR 0xB0, CHR 0x9D, CHR 0xE8, CHR 0xAF, CHR 0x95, CHR 0xE8, CHR 0xA7, CHR 0xA6, CHR 0xE5,
     CHR 0x8F, CHR 0x91, CHR 0xE6, CHR 0xA1, CHR 0x86, CHR 0xE6, CHR 0x9E, CHR 0xB6, CHR 0xE5, CHR 0xB1,
     CHR 0x82, CHR 0xE7, CHR 0x9A, CHR 0x84] @ '' Checkpoint Dump '' @ [CHR 0xE4, CHR 0xBF, CHR 0xA1, CHR
     0xE5, CHR 0x8F, CHR 0xB7] @ '' (SIGUSR1)'',
           [CHR 0xE9, CHR 0x9A, CHR 0x94, CHR 0xE7, CHR 0xA6, CHR 0xBB, CHR 0xE8, CHR 0xAF, CHR 0xA5, CHR 0xE8,
     CHR 0x8A, CHR 0x82, CHR 0xE7, CHR 0x82, CHR 0xB9, CHR 0xEF, CHR 0xBC, CHR 0x8C, CHR 0xE6, CHR 0x89,
     CHR 0xA7, CHR 0xE8, CHR 0xA1, CHR 0x8C] @ '' ark zap '' @ [CHR 0xE6, CHR 0xB8, CHR 0x85, CHR 0xE7,
     CHR 0x90, CHR 0x86, CHR 0xE5, CHR 0x83, CHR 0xB5, CHR 0xE5, CHR 0xB0, CHR 0xB8, CHR 0xE8, CHR 0xBF,
     CHR 0x9B, CHR 0xE7, CHR 0xA8, CHR 0x8B]]
      | NetworkStall \<Rightarrow>
          [[CHR 0xE6, CHR 0xA3, CHR 0x80, CHR 0xE6, CHR 0x9F, CHR 0xA5, CHR 0xE4, CHR 0xBA, CHR 0xA4, CHR 0xE6,
     CHR 0x8D, CHR 0xA2, CHR 0xE6, CHR 0x9C, CHR 0xBA] @ '' PFC '' @ [CHR 0xE9, CHR 0x85, CHR 0x8D, CHR
     0xE7, CHR 0xBD, CHR 0xAE],
           [CHR 0xE6, CHR 0xA3, CHR 0x80, CHR 0xE6, CHR 0x9F, CHR 0xA5] @ '' RoCE/HCCS '' @ [CHR 0xE8, CHR
     0xBF, CHR 0x9E, CHR 0xE6, CHR 0x8E, CHR 0xA5, CHR 0xE7, CHR 0x8A, CHR 0xB6, CHR 0xE6, CHR 0x80, CHR
     0x81]]
      | WorkloadStalled \<Rightarrow>
          [[CHR 0xE5, CHR 0xA6, CHR 0x82, CHR 0xE6, CHR 0x9E, CHR 0x9C, CHR 0xE7, CHR 0xA1, CHR 0xAE, CHR 0xE8,
     CHR 0xAE, CHR 0xA4, CHR 0xE5, CHR 0x8D, CHR 0xA1, CHR 0xE6, CHR 0xAD, CHR 0xBB, CHR 0xEF, CHR 0xBC,
     CHR 0x8C, CHR 0xE6, CHR 0x89, CHR 0xA7, CHR 0xE8, CHR 0xA1, CHR 0x8C] @ '' ark zap '' @ [CHR 0xE7,
     CHR 0xBB, CHR 0x88, CHR 0xE6, CHR 0xAD, CHR 0xA2, CHR 0xE8, CHR 0xBF, CHR 0x9B, CHR 0xE7, CHR 0xA8,
     CHR 0x8B],
           [CHR 0xE6, CHR 0xA3, CHR 0x80, CHR 0xE6, CHR 0x9F, CHR 0xA5, CHR 0xE6, CHR 0x98, CHR 0xAF, CHR 0xE5,
     CHR 0x90, CHR 0xA6, CHR 0xE6, CHR 0x9C, CHR 0x89] @ '' Checkpoint '' @ [CHR 0xE5, CHR 0x8F, CHR
     0xAF, CHR 0xE4, CHR 0xBB, CHR 0xA5, CHR 0xE6, CHR 0x81, CHR 0xA2, CHR 0xE5, CHR 0xA4, CHR 0x8D]]
      | _ \<Rightarrow> [[CHR 0xE6, CHR 0x89, CHR 0xA7, CHR 0xE8, CHR 0xA1, CHR 0x8C] @ '' ark zap '' @ [CHR 0xE7, CHR 0xBB,
     CHR 0x88, CHR 0xE6, CHR 0xAD, CHR 0xA2, CHR 0xE8, CHR 0xBF, CHR 0x9B, CHR 0xE7, CHR 0xA8, CHR 0x8B]])"

definition create_analysis_from_causes :: "scene_type \<Rightarrow> string list \<Rightarrow> analysis_result" where
  "create_analysis_from_causes s causes =
     \<lparr>scene = s, root_causes = causes, confidence = round_f64 False (7 / 10),
      recommendations = [[CHR 0xE6, CHR 0xA0, CHR 0xB9, CHR 0xE6, CHR 0x8D, CHR 0xAE, CHR 0xE6, CHR 0xA0, CHR 0xB9, CHR 0xE5,
     CHR 0x9B, CHR 0xA0, CHR 0xE5, CHR 0x88, CHR 0x86, CHR 0xE6, CHR 0x9E, CHR 0x90, CHR 0xE6, CHR 0x89,
     CHR 0xA7, CHR 0xE8, CHR 0xA1, CHR 0x8C, CHR 0xE4, CHR 0xBF, CHR 0xAE, CHR 0xE5, CHR 0xA4, CHR 0x8D]],
      recommended_actions = scene_actions s, severity = Warning\<rparr>"

text \<open>What the user answers: \<open>None\<close> if the terminal fails.\<close>

definition eq_ignore_ascii_case :: "string \<Rightarrow> string \<Rightarrow> bool" where
  "eq_ignore_ascii_case a b \<longleftrightarrow> to_ascii_lowercase a = to_ascii_lowercase b"

definition is_yes :: "string \<Rightarrow> bool" where
  "is_yes input \<longleftrightarrow> eq_ignore_ascii_case (trim input) ''y'' \<or> eq_ignore_ascii_case (trim input) ''yes''"

text \<open>
  The environment of the audit log: where it is, if it is wanted, the JSON text of an entry, which
  operations on its files fail, the name of the user and the two readings of the clock.
\<close>

record audit_env =
  audit_path :: "string option"
  entry_json :: "audit_log_entry \<Rightarrow> string"
  faults :: audit_faults
  current_user :: string
  clock_rfc3339 :: string
  clock_stamp :: string

definition audit_action :: "analysis_result \<Rightarrow> fix_result \<Rightarrow> string" where
  "audit_action an res =
     (case executed_actions res of
        x # _ \<Rightarrow> done_action x
      | [] \<Rightarrow> (case recommended_actions an of a # _ \<Rightarrow> a | [] \<Rightarrow> ''Unknown''))"

definition audit_details :: "analysis_result \<Rightarrow> fix_result \<Rightarrow> string" where
  "audit_details an res =
     [CHR 0xE6, CHR 0x89, CHR 0xA7, CHR 0xE8, CHR 0xA1, CHR 0x8C, CHR 0xE5, CHR 0x8A, CHR 0xA8, CHR 0xE4,
     CHR 0xBD, CHR 0x9C] @ '': '' @ audit_action an res @
     ''; '' @ [CHR 0xE6, CHR 0x88, CHR 0x90, CHR 0xE5, CHR 0x8A, CHR 0x9F] @ '': '' @ show_nat (length (executed_actions res)) @
     ''; '' @ [CHR 0xE5, CHR 0xA4, CHR 0xB1, CHR 0xE8, CHR 0xB4, CHR 0xA5] @ '': '' @ show_nat (length (failed_actions res)) @
     ''; '' @ [CHR 0xE5, CHR 0x9C, CHR 0xBA, CHR 0xE6, CHR 0x99, CHR 0xAF] @ '': '' @ scene_debug (scene an)"

definition fix_entry :: "audit_env \<Rightarrow> nat \<Rightarrow> analysis_result \<Rightarrow> fix_result \<Rightarrow> audit_log_entry" where
  "fix_entry env pid an res =
     create_audit_entry (clock_rfc3339 env) (current_user env) (audit_action an res) pid None
       (if fix_success res then ''success'' else ''partial_failure'') (audit_details an res)"

datatype fix_outcome =
    FixUnreachable
  | FixCallFailed call_error
  | NoSceneFound
  | TerminalFailed
  | Cancelled
  | AuditUnavailable audit_error
  | Fixed fix_result "audit_error option"

definition run_fix ::
  "'o os \<Rightarrow> audit_env \<Rightarrow> analysis_result \<Rightarrow> nat \<Rightarrow> 'o \<Rightarrow> audit_fs \<Rightarrow> fix_outcome \<times> 'o \<times> audit_fs" where
  "run_fix sys env an pid w fs =
     (case audit_path env of
        None \<Rightarrow> (let (res, w1) = fix_from_analysis sys (recommended_actions an) pid w in (Fixed res None, w1, fs))
      | Some path \<Rightarrow>
          (case audit_new (faults env) path 100 fs of
             (Inl e, fs1) \<Rightarrow> (AuditUnavailable e, w, fs1)
           | (Inr lg, fs1) \<Rightarrow>
               (let (res, w1) = fix_from_analysis sys (recommended_actions an) pid w;
                    (logged, _, fs2) =
                      audit_log (entry_json env) (faults env) (clock_stamp env) (fix_entry env pid an res) lg fs1 in
                (Fixed res (case logged of Inl e \<Rightarrow> Some e | Inr _ \<Rightarrow> None), w1, fs2))))"

definition fix_process ::
  "codec \<Rightarrow> (string \<Rightarrow> string) option \<Rightarrow> 'o os \<Rightarrow> audit_env \<Rightarrow> bool \<Rightarrow> string option \<Rightarrow> nat \<Rightarrow> 'o \<Rightarrow> audit_fs \<Rightarrow>
   fix_outcome \<times> 'o \<times> audit_fs" where
  "fix_process c daemon sys env auto_yes input pid w fs =
     (if \<not> ping c daemon then (FixUnreachable, w, fs)
      else (case why_process c daemon pid of
              Inl e \<Rightarrow> (FixCallFailed e, w, fs)
            | Inr causes \<Rightarrow>
                (case identify_scene_from_causes causes of
                   None \<Rightarrow> (NoSceneFound, w, fs)
                 | Some s \<Rightarrow>
                     (let an = create_analysis_from_causes s causes in
                      if auto_yes then run_fix sys env an pid w fs
                      else (case input of
                              None \<Rightarrow> (TerminalFailed, w, fs)
                            | Some reply \<Rightarrow>
                                if is_yes reply then run_fix sys env an pid w fs else (Cancelled, w, fs))))))"

section \<open>The report of a why\<close>

text \<open>When a cause gives a reason code.\<close>

definition gives_code :: "string \<Rightarrow> string \<Rightarrow> bool" where
  "gives_code cause code \<longleftrightarrow>
     (let lower = to_ascii_lowercase cause in
      code = ''TCP_RETRANSMIT_BURST'' \<and> contains lower ''retransmit'' \<or>
      code = ''TRANSPORT_DROP_OBSERVED'' \<and> (contains lower ''transport.drop'' \<or> contains lower ''packet drop'') \<or>
      code = ''GPU_OOM'' \<and> (contains lower ''oom'' \<or> contains cause zh_video_memory \<or> contains lower ''out of memory'') \<or>
      code = ''RESOURCE_WAIT'' \<and> (contains cause zh_wait_resource \<or> contains lower ''resource wait'') \<or>
      code = ''PROCESS_CRASH'' \<and> (contains lower ''crash'' \<or> contains lower ''exit'' \<or> contains lower ''segfault''))"

definition known_codes :: "string list" where
  "known_codes = [''TCP_RETRANSMIT_BURST'', ''TRANSPORT_DROP_OBSERVED'', ''GPU_OOM'', ''RESOURCE_WAIT'', ''PROCESS_CRASH'']"

lemma gives_known: "gives_code cause code \<Longrightarrow> code \<in> set known_codes"
  unfolding gives_code_def Let_def by (elim disjE conjE) (simp_all add: known_codes_def)

lemma set_push_new: "set (push_new found code codes) = (if found then insert code (set codes) else set codes)"
  by (auto simp: push_new_def)

lemma insert_if: "(if P then insert a S else S) = {x. x = a \<and> P} \<union> S"
  by auto

lemma set_cause_codes: "set (cause_codes cause codes) = {code. gives_code cause code} \<union> set codes"
  unfolding cause_codes_def gives_code_def Let_def set_push_new insert_if
  by (rule set_eqI) (simp only: Un_iff mem_Collect_eq disj_ac)

lemma set_infer_reason_codes: "set (infer_reason_codes causes) = {code. list_ex (\<lambda>c. gives_code c code) causes}"
proof -
  have "set (fold cause_codes causes codes) = {code. list_ex (\<lambda>c. gives_code c code) causes} \<union> set codes" for codes
    by (induction causes arbitrary: codes) (simp_all add: set_cause_codes Collect_disj_eq Un_ac)
  then show ?thesis by (simp add: infer_reason_codes_def)
qed

lemma sort_dedup_props: "set (sort_dedup xs) = set xs" "sorted_wrt (<) (sort_dedup xs)"
proof -
  show "set (sort_dedup xs) = set xs" by (simp add: sort_dedup_def)
  have "remdups_adj ys = remdups ys" if "sorted ys" for ys :: "string list"
    using that
  proof (induction ys rule: remdups_adj.induct)
    case (3 x y ys)
    then show ?case by (auto dest: order.antisym)
  qed simp_all
  then show "sorted_wrt (<) (sort_dedup xs)"
    by (simp add: sort_dedup_def strict_sorted_iff sorted_remdups)
qed

text \<open>
  \<^bold>\<open>C39.\<close>  The report of \<open>ark why\<close> is well formed for all causes: its reason codes are exactly the codes some
  cause gives, out of the five there are, each once and in order; its evidence is exactly the set of
  causes, each once and in order; the two counts agree with them; and the scene is a tag exactly when
  there is one.
\<close>

theorem why_report_well_formed:
  "let r = build_why_report now pid causes node agent in
     sorted_wrt (<) (reason_codes r) \<and> set (reason_codes r) = {code. list_ex (\<lambda>c. gives_code c code) causes} \<and>
     set (reason_codes r) \<subseteq> set known_codes \<and>
     sorted_wrt (<) (why_evidence r) \<and> set (why_evidence r) = set causes \<and>
     map_of (why_metrics r) ''cause_count'' = Some (length (why_causes r)) \<and>
     map_of (why_metrics r) ''reason_code_count'' = Some (card (set (reason_codes r))) \<and>
     map_of (why_tags r) ''scene'' = why_scene r \<and> sorted_wrt (<) (map fst (why_tags r)) \<and> why_err r = None"
proof -
  have d: "distinct (sort_dedup xs)" for xs using sort_dedup_props(2)[of xs] by (simp add: strict_sorted_iff)
  have sub: "{code. list_ex (\<lambda>c. gives_code c code) causes} \<subseteq> set known_codes"
    by (auto simp: list_ex_iff gives_known)
  have tags: "sorted_wrt (<) [''scene'', ''source'']" by code_simp
  let ?r = "build_why_report now pid causes node agent"
  have "map_of (why_tags ?r) ''scene'' = why_scene ?r" "sorted_wrt (<) (map fst (why_tags ?r))"
    using tags by (simp_all add: build_why_report_def Let_def split: option.splits)
  moreover have "map_of (why_metrics ?r) ''reason_code_count'' = Some (card (set (reason_codes ?r)))"
    "map_of (why_metrics ?r) ''cause_count'' = Some (length (why_causes ?r))"
    by (simp_all add: build_why_report_def Let_def distinct_card[OF d])
  moreover have "set (reason_codes ?r) = {code. list_ex (\<lambda>c. gives_code c code) causes}" "set (why_evidence ?r) = set causes"
    "sorted_wrt (<) (reason_codes ?r)" "sorted_wrt (<) (why_evidence ?r)" "why_err ?r = None"
    by (simp_all add: build_why_report_def Let_def sort_dedup_props set_infer_reason_codes)
  ultimately show ?thesis unfolding Let_def using sub by (intro conjI) (simp_all only:)
qed

section \<open>What a fix does\<close>

definition fix_commands :: "scene_type \<Rightarrow> nat \<Rightarrow> command list" where
  "fix_commands s pid =
     (case s of
        GpuOom \<Rightarrow> [kill_cmd ''-10'' pid, kill_cmd ''-9'' pid]
      | NetworkStall \<Rightarrow> []
      | _ \<Rightarrow> [kill_cmd ''-9'' pid])"

definition scene_fixes :: "scene_type \<Rightarrow> action_type list" where
  "scene_fixes s =
     (case s of
        GpuOom \<Rightarrow> [Signal 10, KillProcess]
      | NetworkStall \<Rightarrow> []
      | WorkloadStalled \<Rightarrow> [CheckCheckpoint ''/tmp/checkpoints'', KillProcess]
      | _ \<Rightarrow> [KillProcess])"

lemma scene_parsed: "parse_recommendations (scene_actions s) = map (\<lambda>a. (a, action_priority a)) (scene_fixes s)"
proof -
  have "parse_recommendations (scene_actions GpuOom) = [(Signal 10, 1), (KillProcess, 10)]"
    "parse_recommendations (scene_actions NetworkStall) = []"
    "parse_recommendations (scene_actions WorkloadStalled) = [(CheckCheckpoint ''/tmp/checkpoints'', 4), (KillProcess, 10)]"
    "parse_recommendations (scene_actions ProcessCrash) = [(KillProcess, 10)]"
    by code_simp+
  then show ?thesis by (cases s) (simp_all add: scene_actions_def scene_fixes_def)
qed

lemma runs_scene:
  assumes "list_all2 (runs pid) (scene_fixes s) css"
  shows "concat css = fix_commands s pid"
proof -
  have "show_int 10 = ''10''" by code_simp
  with assms show ?thesis by (cases s) (auto simp: fix_commands_def scene_fixes_def list_all2_Cons1)
qed

lemma fix_scene_traced:
  "\<exists>res w1. fix_from_analysis (traced sys) (scene_actions s) pid (w, l) = (res, w1, l @ fix_commands s pid)"
proof -
  from run_fixes_traced[of sys pid "scene_fixes s" w l] obtain ok failed w1 css where
    r: "run_fixes (traced sys) pid (parse_recommendations (scene_actions s)) (w, l) = (ok, failed, w1, l @ concat css)"
      "list_all2 (runs pid) (scene_fixes s) css"
    unfolding scene_parsed by blast
  show ?thesis
  proof (cases "parse_recommendations (scene_actions s) = []")
    case True
    with r(1) have "l = l @ concat css" by simp
    with runs_scene[OF r(2)] have "fix_commands s pid = []" by simp
    with True show ?thesis by (simp add: fix_from_analysis_def)
  next
    case False
    with r(1) runs_scene[OF r(2)] show ?thesis by (simp add: fix_from_analysis_def Let_def)
  qed
qed

definition consents :: "bool \<Rightarrow> string option \<Rightarrow> bool" where
  "consents auto_yes input \<longleftrightarrow> auto_yes \<or> (\<exists>reply. input = Some reply \<and> is_yes reply)"

definition audit_opens :: "audit_env \<Rightarrow> bool" where
  "audit_opens env \<longleftrightarrow> audit_path env = None \<or> dir_ok (faults env) \<and> open_ok (faults env) \<and> metadata_ok (faults env)"

lemma run_fix_traced:
  "\<exists>out w1 fs1. run_fix (traced sys) env (create_analysis_from_causes s causes) pid (w, l) fs =
     (out, (w1, l @ (if audit_opens env then fix_commands s pid else [])), fs1)"
  using fix_scene_traced[of sys s pid w l]
  by (auto simp: run_fix_def create_analysis_from_causes_def audit_opens_def audit_new_def Let_def
      split: option.splits prod.splits)

lemma identify_some: "\<exists>s. identify_scene_from_causes causes = Some s"
  by (induction causes) (auto simp: Let_def)

text \<open>
  \<^bold>\<open>C30.\<close>  What \<open>ark fix\<close> does to the machine, against a daemon with any graph.  No command runs without
  consent, nor when the audit log that was asked for cannot be opened.  Otherwise the commands are those
  of the scene taken from the root causes in the daemon's graph, on the given process only: a kill for
  every scene but a network stall, after a checkpoint signal for a lack of GPU memory.  There always is
  a scene: a process for which the graph has no root cause at all is killed as a stalled workload.
\<close>

theorem fix_commands_of_graph:
  assumes "codec_works c g (WhyProcess pid)" "codec_works c g Ping"
  shows "\<exists>s out w1 fs1. identify_scene_from_causes (find_root_cause pid g) = Some s \<and>
    fix_process c (Some (daemon_of c tb up g)) (traced sys) env auto_yes input pid (w, []) fs =
      (out, (w1, if consents auto_yes input \<and> audit_opens env then fix_commands s pid else []), fs1) \<and>
    out \<noteq> NoSceneFound \<and> (find_root_cause pid g = [] \<longrightarrow> fix_commands s pid = [kill_cmd ''-9'' pid])"
proof -
  note calls = call_answer[OF assms(1), of tb up] call_answer[OF assms(2), of tb up]
  let ?d = "Some (daemon_of c tb up g)"
  have d: "ping c ?d" "why_process c ?d pid = Inr (find_root_cause pid g)"
    using calls by (simp_all add: why_process_def ping_def answer_def handle_request_def response_success_def
      response_data_def json_index_def json_strings_JStr)
  obtain s where s: "identify_scene_from_causes (find_root_cause pid g) = Some s" using identify_some by blast
  let ?an = "create_analysis_from_causes s (find_root_cause pid g)"
  obtain out w1 fs1 where r: "run_fix (traced sys) env ?an pid (w, []) fs =
      (out, (w1, if audit_opens env then fix_commands s pid else []), fs1)"
    using run_fix_traced[of sys env s "find_root_cause pid g" pid w "[]" fs] by auto
  have "out \<noteq> NoSceneFound"
    using r by (auto simp: run_fix_def Let_def split: option.splits prod.splits sum.splits)
  moreover have "fix_commands s pid = [kill_cmd ''-9'' pid]" if "find_root_cause pid g = []"
    using s that by (simp add: fix_commands_def)
  ultimately show ?thesis
    using s r d by (auto simp: fix_process_def consents_def Let_def split: option.splits)
qed

text \<open>A daemon with an empty graph.\<close>

definition no_audit :: audit_env where
  "no_audit = \<lparr>audit_path = None, entry_json = \<lambda>e. [], faults = no_faults, current_user = ''root'',
     clock_rfc3339 = [], clock_stamp = []\<rparr>"

theorem fix_commands_of_graph_witness:
  "\<exists>out w1 fs1. fix_process small_codec (Some (daemon_of small_codec show_nat id state_graph_new)) (traced (one_line [])) no_audit
     True None 42 ([], []) fs_empty = (out, (w1, [(''kill'', [''-9'', ''42''])]), fs1)"
proof -
  have "codec_works small_codec state_graph_new (WhyProcess 42)" "codec_works small_codec state_graph_new Ping"
    "find_root_cause 42 state_graph_new = []" "show_nat 42 = ''42''" by code_simp+
  with fix_commands_of_graph[OF this(1,2), where tb = show_nat and up = id and sys = "one_line []" and env = no_audit
      and auto_yes = True and input = None and w = "[]" and fs = fs_empty]
  show ?thesis by (auto simp: consents_def audit_opens_def no_audit_def kill_cmd_def)
qed

end
