(* ===== verification/Dedup.thy ===== *)
theory Dedup
  imports Event
begin

text \<open>
  \<^bold>\<open>hub/src/dedup.rs\<close>: suppressing events that were already seen.  The fingerprint of an event is a 64-bit
  hash of the bytes the derived \<open>Hash\<close> implementations feed to the hasher; \<open>DefaultHasher\<close>, whose
  algorithm the standard library leaves unspecified, is the parameter \<open>hash64\<close>.
\<close>

section \<open>Fingerprints\<close>

text \<open>Integers are fed in native (little-endian) order, strings with a terminating \<open>0xFF\<close>, an option as a discriminant first.\<close>

primrec le_bytes :: "nat \<Rightarrow> nat \<Rightarrow> string" where
  "le_bytes 0 n = []"
| "le_bytes (Suc k) n = char_of (n mod 256) # le_bytes k (n div 256)"

definition hash_str :: "string \<Rightarrow> string" where
  "hash_str s = s @ [CHR 0xFF]"

fun hash_option :: "('a \<Rightarrow> string) \<Rightarrow> 'a option \<Rightarrow> string" where
  "hash_option h None = le_bytes 8 0"
| "hash_option h (Some x) = le_bytes 8 1 @ h x"

definition fingerprint_bytes :: "event \<Rightarrow> string" where
  "fingerprint_bytes e =
     le_bytes 8 (ev_ts e) @ hash_str (event_type_display (ev_type e)) @ hash_str (ev_entity_id e) @
     hash_option hash_str (ev_job_id e) @ hash_option (le_bytes 4) (ev_pid e) @
     hash_str (ev_value e) @ hash_option hash_str (ev_node_id e)"

definition event_fingerprint :: "(string \<Rightarrow> nat) \<Rightarrow> event \<Rightarrow> nat" where
  "event_fingerprint hash64 e = hash64 (fingerprint_bytes e)"

section \<open>Accepting events\<close>

type_synonym dedup_store = "(nat, nat) hashmap"

definition accept_event_with_dedup ::
  "(string \<Rightarrow> nat) \<Rightarrow> nat \<Rightarrow> event \<Rightarrow> dedup_store \<Rightarrow> bool \<times> dedup_store" where
  "accept_event_with_dedup hash64 window_ms e store =
     (let key = event_fingerprint hash64 e;
          cutoff = saturating_sub (ev_ts e) window_ms;
          store1 = hm_retain (\<lambda>_ ts. cutoff \<le> ts) store in
      if hm_contains store1 key then (False, store1)
      else (True, hm_insert key (ev_ts e) store1))"

text \<open>A run over a stream of events: the ones accepted, in order, and the store.\<close>

fun dedup_run :: "(string \<Rightarrow> nat) \<Rightarrow> nat \<Rightarrow> event list \<Rightarrow> dedup_store \<Rightarrow> event list \<times> dedup_store" where
  "dedup_run hash64 w [] store = ([], store)"
| "dedup_run hash64 w (e # es) store =
     (let (ok, store1) = accept_event_with_dedup hash64 w e store;
          (acc, store2) = dedup_run hash64 w es store1
      in (if ok then e # acc else acc, store2))"

section \<open>The byte stream determines the event\<close>

lemma length_le_bytes [simp]: "length (le_bytes k n) = k"
  by (induction k arbitrary: n) simp_all

lemma le_bytes_inject:
  "m < 256 ^ k \<Longrightarrow> n < 256 ^ k \<Longrightarrow> le_bytes k m = le_bytes k n \<longleftrightarrow> m = n"
proof (induction k arbitrary: m n)
  case (Suc k)
  have "m div 256 < 256 ^ k" "n div 256 < 256 ^ k" using Suc.prems by (simp_all add: less_mult_imp_div_less mult.commute)
  from Suc.IH[OF this] have tl: "le_bytes k (m div 256) = le_bytes k (n div 256) \<longleftrightarrow> m div 256 = n div 256" .
  have "(char_of (m mod 256) :: char) = char_of (n mod 256) \<longleftrightarrow> m mod 256 = n mod 256"
    using inj_on_char_of_nat by (auto simp: inj_on_def)
  then show ?case using tl by (simp) (metis div_mult_mod_eq)
qed simp

lemma sep_append_eq:
  "x \<notin> set a \<Longrightarrow> x \<notin> set b \<Longrightarrow> a @ x # s = b @ x # t \<longleftrightarrow> a = b \<and> s = t"
proof (induction a arbitrary: b)
  case Nil
  then show ?case by (cases b) auto
next
  case (Cons c a)
  then show ?case by (cases b) auto
qed

text \<open>The values a Rust event can have: 64-bit time stamps, 32-bit pids, text in UTF-8, which has no byte \<open>0xFF\<close>.\<close>

definition text_ok :: "string \<Rightarrow> bool" where
  "text_ok s = (CHR 0xFF \<notin> set s)"

definition event_ok :: "event \<Rightarrow> bool" where
  "event_ok e =
     (ev_ts e \<le> u64_max \<and> text_ok (ev_entity_id e) \<and> text_ok (ev_value e) \<and>
      (case ev_job_id e of Some s \<Rightarrow> text_ok s | None \<Rightarrow> True) \<and>
      (case ev_pid e of Some n \<Rightarrow> n \<le> u32_max | None \<Rightarrow> True) \<and>
      (case ev_node_id e of Some s \<Rightarrow> text_ok s | None \<Rightarrow> True))"

text \<open>An encoding whose end can be told: what the fields of an event are concatenated from.\<close>

locale prefix_code =
  fixes enc :: "'a \<Rightarrow> string" and ok :: "'a \<Rightarrow> bool"
  assumes cancel: "ok x \<Longrightarrow> ok y \<Longrightarrow> enc x @ s = enc y @ t \<longleftrightarrow> x = y \<and> s = t"
begin

lemma option_cancel:
  assumes "case x of Some v \<Rightarrow> ok v | None \<Rightarrow> True" "case y of Some v \<Rightarrow> ok v | None \<Rightarrow> True"
  shows "hash_option enc x @ s = hash_option enc y @ t \<longleftrightarrow> x = y \<and> s = t"
proof -
  have "(le_bytes 8 0 @ a = le_bytes 8 1 @ b) = False" "(le_bytes 8 1 @ b = le_bytes 8 0 @ a) = False" for a b
    using le_bytes_inject[of 0 8 1] le_bytes_inject[of 1 8 0] by (simp_all add: append_eq_append_conv)
  then show ?thesis using assms cancel by (cases x; cases y) simp_all
qed

end

interpretation str_code: prefix_code hash_str text_ok
  by unfold_locales (simp add: hash_str_def text_ok_def sep_append_eq)

interpretation u64_code: prefix_code "le_bytes 8" "\<lambda>n. n \<le> u64_max"
proof unfold_locales
  fix x y :: nat and s t
  assume "x \<le> u64_max" "y \<le> u64_max"
  then show "le_bytes 8 x @ s = le_bytes 8 y @ t \<longleftrightarrow> x = y \<and> s = t"
    by (simp add: append_eq_append_conv le_bytes_inject u64_max_def)
qed

interpretation u32_code: prefix_code "le_bytes 4" "\<lambda>n. n \<le> u32_max"
proof unfold_locales
  fix x y :: nat and s t
  assume "x \<le> u32_max" "y \<le> u32_max"
  then show "le_bytes 4 x @ s = le_bytes 4 y @ t \<longleftrightarrow> x = y \<and> s = t"
    by (simp add: append_eq_append_conv le_bytes_inject u32_max_def)
qed

lemma display_ok: "text_ok (event_type_display t)"
  by (cases t) (simp_all add: text_ok_def)

text \<open>
  \<^bold>\<open>C14.\<close>  The fingerprint covers the whole event: two events feed the hasher the same bytes only if they
  are the same event, every optional field included, so two different events are confused only by a
  collision of the hash itself.
\<close>

theorem fingerprint_bytes_inject:
  assumes "event_ok a" "event_ok b" "fingerprint_bytes a = fingerprint_bytes b"
  shows "a = b"
proof -
  note ok = assms(1,2)[unfolded event_ok_def]
  have "hash_option hash_str (ev_node_id a) @ [] = hash_option hash_str (ev_node_id b) @ [] \<longleftrightarrow>
      ev_node_id a = ev_node_id b \<and> ([] :: string) = []"
    by (rule str_code.option_cancel) (use ok in auto)
  moreover have "ev_ts a = ev_ts b" if "le_bytes 8 (ev_ts a) = le_bytes 8 (ev_ts b)"
    using u64_code.cancel[of "ev_ts a" "ev_ts b" "[]" "[]"] that ok by simp
  ultimately show ?thesis
    using assms(3) ok unfolding fingerprint_bytes_def
    by (intro event.equality)
       (simp_all add: u64_code.cancel str_code.cancel display_ok str_code.option_cancel u32_code.option_cancel
        event_type_display_inject)
qed

definition dup_event :: event where
  "dup_event = \<lparr>ev_ts = 7, ev_type = ErrorHw, ev_entity_id = ''gpu-0'', ev_job_id = None, ev_pid = Some 3,
     ev_value = ''XID'', ev_node_id = Some ''a''\<rparr>"

theorem fingerprint_bytes_inject_witness:
  "fingerprint_bytes dup_event \<noteq> fingerprint_bytes (dup_event\<lparr>ev_entity_id := ''gpu-'', ev_value := ''0XID''\<rparr>)"
proof
  let ?b = "dup_event\<lparr>ev_entity_id := ''gpu-'', ev_value := ''0XID''\<rparr>"
  assume "fingerprint_bytes dup_event = fingerprint_bytes ?b"
  moreover have "event_ok dup_event" "event_ok ?b" by code_simp+
  ultimately have "dup_event = ?b" by (rule fingerprint_bytes_inject[rotated 2])
  then show False by (simp add: dup_event_def)
qed

section \<open>Duplicates within the window\<close>

lemma dedup_run_append:
  "dedup_run h w (a @ b) s =
     (let (x, s1) = dedup_run h w a s; (y, s2) = dedup_run h w b s1 in (x @ y, s2))"
  by (induction a arbitrary: s) (auto simp: Let_def split: prod.splits)

lemma dedup_run_store_append:
  "snd (dedup_run h w (a @ b) s) = snd (dedup_run h w b (snd (dedup_run h w a s)))"
  by (simp add: dedup_run_append Let_def case_prod_unfold)

lemma dedup_run_store_Cons:
  "snd (dedup_run h w (e # es) s) = snd (dedup_run h w es (snd (accept_event_with_dedup h w e s)))"
  by (simp add: Let_def split: prod.splits)

text \<open>What the store holds: times of events seen, under their fingerprints.\<close>

definition store_of :: "(string \<Rightarrow> nat) \<Rightarrow> event set \<Rightarrow> dedup_store \<Rightarrow> bool" where
  "store_of h S store \<longleftrightarrow>
     hm_wf store \<and> (\<forall>k t. hm_get store k = Some t \<longrightarrow> (\<exists>e\<in>S. k = event_fingerprint h e \<and> t = ev_ts e))"

lemma store_of_accept:
  assumes "store_of h S store"
  shows "store_of h (insert e S) (snd (accept_event_with_dedup h w e store))"
  using assms by (auto simp: store_of_def accept_event_with_dedup_def Let_def hm_simps hm_wf_ops)

lemma store_of_run: "store_of h S store \<Longrightarrow> store_of h (S \<union> set es) (snd (dedup_run h w es store))"
proof (induction es arbitrary: S store)
  case (Cons e es)
  from Cons.IH[OF store_of_accept[OF Cons.prems, of e w]] show ?case
    by (simp add: dedup_run_store_Cons del: dedup_run.simps)
qed simp

text \<open>An entry stays while the events that follow are no more than a window newer.\<close>

lemma entry_after_accept:
  assumes "store_of h S store" "inj_on (event_fingerprint h) (insert e S)"
  shows "hm_get (snd (accept_event_with_dedup h w e store)) (event_fingerprint h e) = Some (ev_ts e)"
  using assms by (auto simp: accept_event_with_dedup_def Let_def hm_simps hm_contains_def store_of_def inj_on_def)

lemma entry_kept:
  assumes "hm_wf store" "hm_get store k = Some t" "list_all (\<lambda>x. ev_ts x \<le> t + w) es"
    "k \<notin> event_fingerprint h ` set es \<or> (\<forall>x\<in>set es. event_fingerprint h x = k \<longrightarrow> ev_ts x = t)"
  shows "hm_get (snd (dedup_run h w es store)) k = Some t"
  using assms
proof (induction es arbitrary: store)
  case (Cons x es)
  let ?s = "snd (accept_event_with_dedup h w x store)"
  have "hm_wf ?s" "hm_get ?s k = Some t"
    using Cons.prems
    by (auto simp: accept_event_with_dedup_def Let_def hm_simps hm_wf_ops saturating_sub_def)
  from Cons.IH[OF this] Cons.prems show ?case by (auto simp: dedup_run_store_Cons simp del: dedup_run.simps)
qed simp

text \<open>
  A repeated event is dropped, in any order of arrival: once an event has been seen, it is rejected
  again as long as no event more than one window newer has arrived in between.  The hash must not
  collide on the events that occur.
\<close>

theorem dedup_rejects_repeat:
  assumes "inj_on (event_fingerprint hash64) (set (before @ e # between))"
    and "list_all (\<lambda>x. ev_ts x \<le> ev_ts e + w) between"
  shows "\<not> fst (accept_event_with_dedup hash64 w e (snd (dedup_run hash64 w (before @ e # between) [])))"
proof -
  let ?s1 = "snd (dedup_run hash64 w before [])"
  let ?s2 = "snd (accept_event_with_dedup hash64 w e ?s1)"
  let ?fp = "event_fingerprint hash64"
  have st: "store_of hash64 (set before) ?s1"
    using store_of_run[of hash64 "{}" "[]" before w] by (simp add: store_of_def)
  have "inj_on ?fp (insert e (set before))" by (rule inj_on_subset[OF assms(1)]) auto
  from entry_after_accept[OF st this] have "hm_get ?s2 (?fp e) = Some (ev_ts e)" .
  moreover have "hm_wf ?s2" using store_of_accept[OF st] by (simp add: store_of_def)
  moreover have "\<forall>x\<in>set between. ?fp x = ?fp e \<longrightarrow> ev_ts x = ev_ts e"
    using assms(1) by (auto simp: inj_on_def)
  ultimately have "hm_get (snd (dedup_run hash64 w between ?s2)) (?fp e) = Some (ev_ts e)"
    using assms(2) by (intro entry_kept) auto
  moreover have "snd (dedup_run hash64 w (before @ e # between) []) = snd (dedup_run hash64 w between ?s2)"
    by (simp add: dedup_run_store_append dedup_run_store_Cons del: dedup_run.simps)
  moreover have "hm_wf (snd (dedup_run hash64 w between ?s2))"
    using store_of_run[OF store_of_accept[OF st, of e w]] by (simp add: store_of_def)
  ultimately show ?thesis
    by (simp add: accept_event_with_dedup_def Let_def hm_contains_def hm_simps saturating_sub_def)
qed

text \<open>A hash for the witnesses: the sum of the bytes.\<close>

definition sum_hash :: "string \<Rightarrow> nat" where
  "sum_hash s = sum_list (map of_char s)"

theorem dedup_rejects_repeat_witness:
  "\<not> fst (accept_event_with_dedup sum_hash 300000 dup_event
     (snd (dedup_run sum_hash 300000 ([] @ dup_event # [dup_event\<lparr>ev_ts := 9000\<rparr>]) [])))"
proof (rule dedup_rejects_repeat)
  have "event_fingerprint sum_hash dup_event \<noteq> event_fingerprint sum_hash (dup_event\<lparr>ev_ts := 9000\<rparr>)"
    by code_simp
  then show "inj_on (event_fingerprint sum_hash) (set ([] @ dup_event # [dup_event\<lparr>ev_ts := 9000\<rparr>]))"
    by (simp add: inj_on_def)
qed (simp add: dup_event_def)

section \<open>Streams in order\<close>

text \<open>The first occurrence of each event.\<close>

fun firsts :: "event set \<Rightarrow> event list \<Rightarrow> event list" where
  "firsts seen [] = []"
| "firsts seen (e # es) = (if e \<in> seen then firsts seen es else e # firsts (insert e seen) es)"

lemma set_firsts: "set (firsts S es) = set es - S"
  by (induction S es rule: firsts.induct) auto

lemma distinct_firsts: "distinct (firsts S es)"
  by (induction S es rule: firsts.induct) (auto simp: set_firsts)

lemma firsts_distinct: "distinct es \<Longrightarrow> set es \<inter> S = {} \<Longrightarrow> firsts S es = es"
  by (induction S es rule: firsts.induct) auto

lemma firsts_mono_ts: "sorted (map ev_ts es) \<Longrightarrow> sorted (map ev_ts (firsts S es))"
proof (induction S es rule: firsts.induct)
  case (2 S e es)
  then show ?case using set_firsts[of "insert e S" es] by auto
qed simp

lemma dedup_run_sorted:
  assumes "store_of h S store" "inj_on (event_fingerprint h) (S \<union> set es)"
    and "\<forall>e\<in>S. ev_ts e \<le> m" "\<forall>e\<in>S. ev_ts e = m \<longrightarrow> hm_get store (event_fingerprint h e) = Some m"
    and "sorted (map ev_ts es)" "\<forall>e\<in>set es. m \<le> ev_ts e"
  shows "fst (dedup_run h w es store) = firsts S es"
  using assms
proof (induction es arbitrary: S store m)
  case (Cons e es)
  let ?fp = "event_fingerprint h"
  let ?s = "snd (accept_event_with_dedup h w e store)"
  have wf: "hm_wf store" using Cons.prems(1) by (simp add: store_of_def)
  have inj: "?fp x = ?fp y \<longleftrightarrow> x = y" if "x \<in> S \<union> set (e # es)" "y \<in> S \<union> set (e # es)" for x y
    using Cons.prems(2) that by (auto simp: inj_on_def)
  have "e \<in> S \<longleftrightarrow> hm_contains (hm_retain (\<lambda>_ t. ev_ts e - w \<le> t) store) (?fp e)"
  proof
    assume "e \<in> S"
    then have "ev_ts e = m" using Cons.prems(3,6) by (simp add: order_antisym)
    then show "hm_contains (hm_retain (\<lambda>_ t. ev_ts e - w \<le> t) store) (?fp e)"
      using Cons.prems(4) \<open>e \<in> S\<close> wf by (auto simp: hm_contains_def hm_get_retain)
  next
    assume "hm_contains (hm_retain (\<lambda>_ t. ev_ts e - w \<le> t) store) (?fp e)"
    then obtain t where "hm_get store (?fp e) = Some t" using wf by (auto simp: hm_contains_def hm_simps)
    then obtain x where "x \<in> S" "?fp x = ?fp e" using Cons.prems(1) by (metis store_of_def)
    then show "e \<in> S" using inj by auto
  qed
  then have ok: "fst (accept_event_with_dedup h w e store) \<longleftrightarrow> e \<notin> S"
    by (simp add: accept_event_with_dedup_def Let_def saturating_sub_def)
  have "fst (dedup_run h w es ?s) = firsts (insert e S) es"
  proof (rule Cons.IH[of _ _ "ev_ts e"])
    show "store_of h (insert e S) ?s" by (rule store_of_accept[OF Cons.prems(1)])
    show "\<forall>x\<in>insert e S. ev_ts x \<le> ev_ts e" using Cons.prems(3,6) by (auto intro: order_trans)
    show "\<forall>x\<in>insert e S. ev_ts x = ev_ts e \<longrightarrow> hm_get ?s (?fp x) = Some (ev_ts e)"
    proof (intro ballI impI)
      fix x assume x: "x \<in> insert e S" "ev_ts x = ev_ts e"
      show "hm_get ?s (?fp x) = Some (ev_ts e)"
      proof (cases "x = e")
        case True
        then show ?thesis using entry_after_accept[OF Cons.prems(1), of e w] Cons.prems(2)
          by (auto intro: inj_on_subset)
      next
        case False
        then have "x \<in> S" "ev_ts e = m" using x Cons.prems(3,6) by (auto intro: order_antisym)
        then have "hm_get store (?fp x) = Some (ev_ts e)" using Cons.prems(4) x by simp
        then show ?thesis using wf inj[of x e] False \<open>x \<in> S\<close>
          by (auto simp: accept_event_with_dedup_def Let_def hm_simps saturating_sub_def)
      qed
    qed
  qed (use Cons.prems in auto)
  moreover have "e \<in> S \<Longrightarrow> insert e S = S" by blast
  ultimately show ?case using ok by (auto simp: Let_def split: prod.splits)
qed simp

text \<open>
  \<^bold>\<open>C15.\<close>  On a stream in time order deduplication is exact: whatever the window, the events accepted are
  the first occurrences of the events of the stream, each once and in order.
\<close>

theorem dedup_exact_in_order:
  assumes "sorted (map ev_ts es)" "inj_on (event_fingerprint hash64) (set es)"
  shows "fst (dedup_run hash64 w es []) = firsts {} es"
  by (rule dedup_run_sorted[where m = 0]) (use assms in \<open>auto simp: store_of_def\<close>)

theorem dedup_exact_in_order_witness:
  "fst (dedup_run sum_hash 300000 [dup_event, dup_event, dup_event\<lparr>ev_pid := None\<rparr>] []) =
     firsts {} [dup_event, dup_event, dup_event\<lparr>ev_pid := None\<rparr>]"
proof (rule dedup_exact_in_order)
  have "event_fingerprint sum_hash dup_event \<noteq> event_fingerprint sum_hash (dup_event\<lparr>ev_pid := None\<rparr>)"
    by code_simp
  then show "inj_on (event_fingerprint sum_hash) (set [dup_event, dup_event, dup_event\<lparr>ev_pid := None\<rparr>])"
    by (simp add: inj_on_def)
qed (simp add: dup_event_def)

end
