(* ===== verification/Graph_Index.thy ===== *)
theory Graph_Index
  imports Graph
begin

text \<open>
  The invariant of the state graph: the two edge indexes describe the edge list, edges are unique by
  type and end points, and the node map is keyed by the node's id.  Every event keeps it, so it holds
  on every graph an event stream builds; the queries that read the indexes are related to the edge list.
\<close>

section \<open>The index invariant\<close>

definition out_list :: "edge list \<Rightarrow> string \<Rightarrow> indexed_edge list option" where
  "out_list es k =
     (let l = map indexed (filter (\<lambda>e. edge_from e = k) es) in if l = [] then None else Some l)"

definition index_ok :: "state_graph \<Rightarrow> bool" where
  "index_ok g \<longleftrightarrow>
     edge_index g = edge_key_of ` set (edges g) \<and>
     distinct (map edge_key_of (edges g)) \<and>
     (\<forall>k. hm_get (edge_out_index g) k = out_list (edges g) k)"

definition nodes_ok :: "(string, node) hashmap \<Rightarrow> bool" where
  "nodes_ok m \<longleftrightarrow> hm_wf m \<and> (\<forall>k n. hm_get m k = Some n \<longrightarrow> node_id n = k)"

definition graph_inv :: "state_graph \<Rightarrow> bool" where
  "graph_inv g \<longleftrightarrow> index_ok g \<and> nodes_ok (nodes g)"

named_theorems graph_simps

lemma out_list_Nil [simp]: "out_list [] k = None"
  by (simp add: out_list_def)

lemma push_out_list:
  assumes "\<And>k. hm_get m k = out_list es k"
  shows "hm_get (push_out e m) k = out_list (es @ [e]) k"
  using assms by (auto simp: push_out_def hm_simps out_list_def Let_def split: option.splits)

lemma fold_push_out_list:
  assumes "\<And>k. hm_get m k = out_list es0 k"
  shows "hm_get (fold push_out es m) k = out_list (es0 @ es) k"
  using assms
proof (induction es arbitrary: es0 m)
  case (Cons e es)
  have "hm_get (fold push_out es (push_out e m)) k = out_list ((es0 @ [e]) @ es) k"
    by (rule Cons.IH) (rule push_out_list, rule Cons.prems)
  then show ?case by simp
qed simp

lemma fold_insert_key: "fold (\<lambda>e. insert (edge_key_of e)) es s = edge_key_of ` set es \<union> s"
  by (induction es arbitrary: s) auto

lemma index_ok_rebuild: "distinct (map edge_key_of (edges g)) \<Longrightarrow> index_ok (rebuild_indexes g)"
  using fold_push_out_list[of "[]" "[]" "edges g"]
  by (simp add: index_ok_def rebuild_indexes_def fold_insert_key)

lemma index_ok_upsert: "index_ok g \<Longrightarrow> index_ok (snd (upsert_edge e g))"
  by (auto simp: index_ok_def upsert_edge_def intro: push_out_list)

text \<open>Only the edge fields matter, and the edge operations leave the rest alone.\<close>

lemma index_ok_frame [graph_simps]:
  "index_ok (g\<lparr>nodes := ns\<rparr>) = index_ok g"
  "index_ok (g\<lparr>signals := s\<rparr>) = index_ok g"
  "index_ok (g\<lparr>last_cleanup_ts := t\<rparr>) = index_ok g"
  by (simp_all add: index_ok_def)

lemma upsert_frame [graph_simps]:
  "nodes (snd (upsert_edge e g)) = nodes g"
  "signals (snd (upsert_edge e g)) = signals g"
  "last_cleanup_ts (snd (upsert_edge e g)) = last_cleanup_ts g"
  "error_window_ms (snd (upsert_edge e g)) = error_window_ms g"
  "cleanup_interval_ms (snd (upsert_edge e g)) = cleanup_interval_ms g"
  by (simp_all add: upsert_edge_def)

lemma rebuild_frame [graph_simps]:
  "nodes (rebuild_indexes g) = nodes g"
  "edges (rebuild_indexes g) = edges g"
  "signals (rebuild_indexes g) = signals g"
  "last_cleanup_ts (rebuild_indexes g) = last_cleanup_ts g"
  "error_window_ms (rebuild_indexes g) = error_window_ms g"
  "cleanup_interval_ms (rebuild_indexes g) = cleanup_interval_ms g"
  by (simp_all add: rebuild_indexes_def)

lemma upsert_edge_edges:
  "index_ok g \<Longrightarrow> edges (snd (upsert_edge e g)) =
     (if edge_key_of e \<in> edge_key_of ` set (edges g) then edges g else edges g @ [e])"
  by (simp add: upsert_edge_def index_ok_def)

lemma edge_keys_upsert:
  "index_ok g \<Longrightarrow> edge_key_of ` set (edges (snd (upsert_edge e g))) =
     insert (edge_key_of e) (edge_key_of ` set (edges g))"
  by (auto simp: upsert_edge_edges)

lemma fold_upsert_nodes [graph_simps]:
  "nodes (fold (\<lambda>x g. snd (upsert_edge (f x) g)) xs g) = nodes g"
  by (induction xs arbitrary: g) (simp_all add: graph_simps)

lemma index_ok_fold_upsert:
  "index_ok g \<Longrightarrow> index_ok (fold (\<lambda>x g. snd (upsert_edge (f x) g)) xs g)"
  by (induction xs arbitrary: g) (simp_all add: index_ok_upsert)

lemma fold_upsert_edge_keys:
  "index_ok g \<Longrightarrow> edge_key_of ` set (edges (fold (\<lambda>x g. snd (upsert_edge (f x) g)) xs g)) =
     (edge_key_of \<circ> f) ` set xs \<union> edge_key_of ` set (edges g)"
  by (induction xs arbitrary: g) (auto simp: index_ok_upsert edge_keys_upsert)

lemma fold_upsert_edges_subset:
  "set (edges (fold (\<lambda>x g. snd (upsert_edge (f x) g)) xs g)) \<subseteq> f ` set xs \<union> set (edges g)"
proof (induction xs arbitrary: g)
  case (Cons x xs)
  have "set (edges (snd (upsert_edge (f x) g))) \<subseteq> insert (f x) (set (edges g))"
    by (auto simp: upsert_edge_def)
  then show ?case using Cons.IH[of "snd (upsert_edge (f x) g)"] by auto
qed simp

section \<open>The node map\<close>

lemma nodes_ok_insert: "nodes_ok m \<Longrightarrow> node_id n = k \<Longrightarrow> nodes_ok (hm_insert k n m)"
  by (simp add: nodes_ok_def hm_simps hm_wf_ops)

lemma nodes_ok_ensure: "nodes_ok m \<Longrightarrow> node_id n = k \<Longrightarrow> nodes_ok (ensure_node k n m)"
  by (simp add: ensure_node_def nodes_ok_insert)

lemma nodes_ok_touch: "nodes_ok m \<Longrightarrow> nodes_ok (touch_node k f v ts m)"
  by (auto simp: touch_node_def nodes_ok_def hm_simps hm_wf_ops split: option.splits)

lemma nodes_ok_remove_list: "nodes_ok m \<Longrightarrow> nodes_ok (fold hm_remove ks m)"
  by (simp add: nodes_ok_def hm_get_remove_list hm_wf_remove_list)

lemma nodes_ok_signals:
  "nodes_ok m \<Longrightarrow> nodes_ok (fold (\<lambda>p. hm_insert (signal_node_id p) (signal_node p)) ps m)"
  by (induction ps arbitrary: m) (simp_all add: nodes_ok_insert signal_node_def)

lemmas nodes_ok_ops [invs] =
  nodes_ok_insert nodes_ok_ensure nodes_ok_touch nodes_ok_remove_list nodes_ok_signals

section \<open>Every event keeps the invariant\<close>

lemma graph_inv_add_waits_on: "graph_inv g \<Longrightarrow> graph_inv (add_waits_on e pid md r g)"
  by (simp add: graph_inv_def add_waits_on_def Let_def graph_simps index_ok_upsert invs)

lemma graph_inv_handlers:
  assumes "graph_inv g"
  shows "graph_inv (handle_process_state e g)" "graph_inv (handle_compute_event e g)"
    "graph_inv (handle_transport_event e g)" "graph_inv (handle_error_event e g)"
proof -
  show "graph_inv (handle_process_state e g)" "graph_inv (handle_compute_event e g)"
    "graph_inv (handle_error_event e g)"
    using assms
    by (auto simp: graph_inv_def handle_process_state_def handle_compute_event_def handle_error_event_def
        Let_def graph_simps index_ok_upsert index_ok_fold_upsert invs split: option.splits)
  have "graph_inv (g\<lparr>nodes := touch_node r f v t (ensure_node r n (nodes g))\<rparr>)" if "node_id n = r" for r f v t n
    using assms that by (simp add: graph_inv_def graph_simps invs)
  then show "graph_inv (handle_transport_event e g)"
    unfolding handle_transport_event_def Let_def
    by (auto intro!: graph_inv_add_waits_on split: option.splits)
qed

lemma graph_inv_handle_event: "graph_inv g \<Longrightarrow> graph_inv (handle_event e g)"
  by (simp add: handle_event_def handle_storage_event_def handle_topo_event_def graph_inv_handlers
      split: event_type.splits)

lemma distinct_map_take: "distinct (map f xs) \<Longrightarrow> distinct (map f (take n xs))"
  by (metis distinct_take take_map)

lemma cap_edges_distinct: "distinct (map edge_key_of es) \<Longrightarrow> distinct (map edge_key_of (cap_edges es))"
  by (simp add: cap_edges_def distinct_map_take distinct_map_sort_desc)

lemma set_cap_edges: "set (cap_edges es) \<subseteq> set es"
  using set_take_subset[of MAX_EDGES "sort_desc edge_ts es"] by (auto simp: cap_edges_def)

lemma index_ok_distinct: "index_ok g \<Longrightarrow> distinct (map edge_key_of (edges g))"
  by (simp add: index_ok_def)

lemma graph_inv_cleanup_apply: "graph_inv g \<Longrightarrow> graph_inv (cleanup_apply t errs dead g)"
  unfolding graph_inv_def cleanup_apply_def Let_def
  by (auto simp: graph_simps distinct_map_filter index_ok_distinct
      intro!: index_ok_rebuild cap_edges_distinct nodes_ok_remove_list)

lemma graph_inv_cleanup: "graph_inv g \<Longrightarrow> graph_inv (cleanup_old_errors t g)"
  by (simp add: cleanup_old_errors_def graph_inv_cleanup_apply split: prod.splits)

lemma graph_inv_update_signals: "graph_inv g \<Longrightarrow> graph_inv (update_signals e g)"
  by (auto simp: update_signals_def graph_inv_def graph_simps Let_def intro: invs split: prod.splits)

lemma graph_inv_process_event: "graph_inv g \<Longrightarrow> graph_inv (snd (process_event e g))"
proof -
  have "graph_inv (g'\<lparr>last_cleanup_ts := t\<rparr>) = graph_inv g'" for g' t
    by (simp add: graph_inv_def graph_simps)
  then show "graph_inv g \<Longrightarrow> graph_inv (snd (process_event e g))"
    by (simp add: process_event_def Let_def graph_inv_update_signals graph_inv_cleanup graph_inv_handle_event)
qed

interpretation graph_run: step_invariant "\<lambda>e g. snd (process_event e g)" "\<lambda>_. True" graph_inv
  by unfold_locales (rule graph_inv_process_event)

lemma graph_inv_new: "graph_inv state_graph_new"
  by (simp add: graph_inv_def index_ok_def nodes_ok_def state_graph_new_def)

lemma graph_inv_process_events: "graph_inv g \<Longrightarrow> graph_inv (process_events es g)"
  unfolding process_events_def by (rule graph_run.run_inv) (simp_all add: list_all_iff)

text \<open>
  \<^bold>\<open>C2.\<close>  On every graph an event stream builds, whatever the order of its time stamps, the edge index
  holds exactly the keys of the edge list, no edge occurs twice, the out-index lists for each source
  its edges in the order of the edge list and has no empty entry, and the node map has one entry per
  id, keyed by that id.
\<close>

theorem graph_index_consistent: "graph_inv (process_events es state_graph_new)"
  by (rule graph_inv_process_events) (rule graph_inv_new)

text \<open>
  \<open>get_process_resources\<close>, which reads the out-index, returns what a scan of the edge list
  returns: the targets of the \<open>Consumes\<close> edges of the process, in their order, each once.
\<close>

theorem process_resources_scan:
  "let g = process_events es state_graph_new in
     get_process_resources pid g =
       map edge_to (filter (\<lambda>e. edge_type e = Consumes \<and> edge_from e = ''pid-'' @ show_nat pid) (edges g)) \<and>
     distinct (get_process_resources pid g)"
proof -
  define g where "g = process_events es state_graph_new"
  let ?P = "\<lambda>e. edge_type e = Consumes \<and> edge_from e = ''pid-'' @ show_nat pid"
  have ok: "index_ok g" using graph_inv_process_events[OF graph_inv_new, of es] by (simp add: g_def graph_inv_def)
  have scan: "get_process_resources pid g = map edge_to (filter ?P (edges g))"
    using ok
    by (auto simp: index_ok_def get_process_resources_def out_list_def Let_def filter_map filter_filter
        o_def indexed_def filter_empty_conv intro: filter_cong arg_cong split: option.splits)
  moreover have "distinct (map edge_key_of (filter ?P (edges g)))"
    using ok by (simp add: distinct_map_filter index_ok_distinct)
  then have "distinct (map edge_to (filter ?P (edges g)))"
    by (auto simp: distinct_map inj_on_def edge_key_of_def)
  ultimately show ?thesis by (simp add: g_def)
qed

end
