(* ===== verification/Wal.thy ===== *)
theory Wal
  imports Dedup Graph_Index
begin

text \<open>
  \<^bold>\<open>hub/src/wal.rs\<close>: the write-ahead log of the hub, its rotation and its replay.  The two files are byte
  strings; the open handle keeps pointing at the file it was opened on when that file is renamed or
  removed.  Each operation takes the point at which the operating system fails it, if any.  The JSON
  codec is a parameter.  Buffering is not modelled, neither that of the operating system nor that of the
  asynchronous file, which may return from a write before it is carried out: a write that returns is in
  the file, and the size read next includes it.
\<close>

section \<open>State\<close>

datatype file_ref = ActiveFile | RotatedFile | Unlinked string

record wal_state =
  wal_file :: file_ref
  wal_max_bytes :: nat
  active :: "string option"
  rotated :: "string option"

record wal_append_result =
  did_rotate :: bool
  size_bytes :: nat

record wal_replay_stats =
  replayed :: nat
  corrupted_lines :: nat
  dedup_dropped :: nat
  process_failed :: nat

text \<open>The calls that can fail; a failed write leaves a prefix of the line behind.\<close>

datatype wal_fault =
    FailMetadata | FailFlush | FailRemove | FailRename | FailOpen | FailWrite nat | FailMetadataAfter

definition file_bytes :: "wal_state \<Rightarrow> string" where
  "file_bytes st =
     (case wal_file st of
        ActiveFile \<Rightarrow> (case active st of Some c \<Rightarrow> c | None \<Rightarrow> [])
      | RotatedFile \<Rightarrow> (case rotated st of Some c \<Rightarrow> c | None \<Rightarrow> [])
      | Unlinked c \<Rightarrow> c)"

definition write_bytes :: "string \<Rightarrow> wal_state \<Rightarrow> wal_state" where
  "write_bytes bs st =
     (case wal_file st of
        ActiveFile \<Rightarrow> st\<lparr>active := Some (file_bytes st @ bs)\<rparr>
      | RotatedFile \<Rightarrow> st\<lparr>rotated := Some (file_bytes st @ bs)\<rparr>
      | Unlinked c \<Rightarrow> st\<lparr>wal_file := Unlinked (c @ bs)\<rparr>)"

text \<open>\<open>OpenOptions::new().create(true).append(true).open(path)\<close>.\<close>

definition open_active :: "wal_state \<Rightarrow> wal_state" where
  "open_active st = st\<lparr>wal_file := ActiveFile, active := Some (case active st of Some c \<Rightarrow> c | None \<Rightarrow> [])\<rparr>"

section \<open>Opening, rotating, appending\<close>

definition open_wal_writer :: "nat \<Rightarrow> string option \<Rightarrow> string option \<Rightarrow> wal_state" where
  "open_wal_writer wal_max_mb act rot =
     open_active \<lparr>wal_file = ActiveFile, wal_max_bytes = saturating_mul wal_max_mb (1024 * 1024),
                  active = act, rotated = rot\<rparr>"

definition rotate_wal :: "wal_fault option \<Rightarrow> wal_state \<Rightarrow> (wal_fault + unit) \<times> wal_state" where
  "rotate_wal fault st =
     (if fault = Some FailFlush then (Inl FailFlush, st)
      else if rotated st \<noteq> None \<and> fault = Some FailRemove then (Inl FailRemove, st)
      else
        (let st1 = (if rotated st \<noteq> None
                    then st\<lparr>rotated := None,
                            wal_file := (if wal_file st = RotatedFile then Unlinked (file_bytes st) else wal_file st)\<rparr>
                    else st) in
         if active st1 \<noteq> None \<and> fault = Some FailRename then (Inl FailRename, st1)
         else
           (let st2 = (if active st1 \<noteq> None
                       then st1\<lparr>rotated := active st1, active := None,
                                wal_file := (if wal_file st1 = ActiveFile then RotatedFile else wal_file st1)\<rparr>
                       else st1) in
            if fault = Some FailOpen then (Inl FailOpen, st2)
            else (Inr (), open_active st2))))"

definition append_wal_event ::
  "(event \<Rightarrow> string) \<Rightarrow> wal_fault option \<Rightarrow> event \<Rightarrow> wal_state \<Rightarrow> (wal_fault + wal_append_result) \<times> wal_state" where
  "append_wal_event to_json fault e st =
     (let line = to_json e @ [CHR 0x0A] in
      if fault = Some FailMetadata then (Inl FailMetadata, st)
      else
        (let current_size = length (file_bytes st);
             must_rotate = (0 < wal_max_bytes st \<and> wal_max_bytes st < saturating_add current_size (length line));
             (r, st1) = (if must_rotate then rotate_wal fault st else (Inr (), st)) in
         case r of
           Inl f \<Rightarrow> (Inl f, st1)
         | Inr _ \<Rightarrow>
             (case fault of
                Some (FailWrite n) \<Rightarrow> (Inl (FailWrite n), write_bytes (take n line) st1)
              | _ \<Rightarrow>
                  (let st2 = write_bytes line st1 in
                   if fault = Some FailMetadataAfter then (Inl FailMetadataAfter, st2)
                   else (Inr \<lparr>did_rotate = must_rotate, size_bytes = length (file_bytes st2)\<rparr>, st2)))))"

section \<open>Replay\<close>

text \<open>Well-formed UTF-8, as \<open>std::str::from_utf8\<close> checks it.\<close>

definition byte_in :: "nat \<Rightarrow> nat \<Rightarrow> char \<Rightarrow> bool" where
  "byte_in lo hi c = (lo \<le> of_char c \<and> of_char c \<le> hi)"

fun valid_utf8 :: "string \<Rightarrow> bool" where
  "valid_utf8 [] = True"
| "valid_utf8 (a # s) =
     (if byte_in 0x00 0x7F a then valid_utf8 s
      else case s of
        [] \<Rightarrow> False
      | b # s2 \<Rightarrow>
          if byte_in 0xC2 0xDF a then byte_in 0x80 0xBF b \<and> valid_utf8 s2
          else (case s2 of
            [] \<Rightarrow> False
          | c # s3 \<Rightarrow>
              if byte_in 0xE0 0xEF a then
                byte_in (if a = CHR 0xE0 then 0xA0 else 0x80) (if a = CHR 0xED then 0x9F else 0xBF) b \<and>
                byte_in 0x80 0xBF c \<and> valid_utf8 s3
              else (case s3 of
                [] \<Rightarrow> False
              | d # s4 \<Rightarrow>
                  byte_in 0xF0 0xF4 a \<and>
                  byte_in (if a = CHR 0xF0 then 0x90 else 0x80) (if a = CHR 0xF4 then 0x8F else 0xBF) b \<and>
                  byte_in 0x80 0xBF c \<and> byte_in 0x80 0xBF d \<and> valid_utf8 s4)))"

text \<open>The lines of a file: split at line feeds; nothing follows the last one if the file ends with it.\<close>

definition file_lines :: "string \<Rightarrow> string list" where
  "file_lines s =
     (let ps = split_char (CHR 0x0A) s in if last ps = [] then butlast ps else ps)"

record hub_memory =
  mem_graph :: state_graph
  mem_buffer :: "event list"
  mem_dedup :: dedup_store

text \<open>\<open>if buf.len() >= cap { buf.pop_front(); } buf.push_back(event)\<close>.\<close>

definition push_event :: "nat \<Rightarrow> event \<Rightarrow> event list \<Rightarrow> event list" where
  "push_event cap e buf = (if cap \<le> length buf then tl buf else buf) @ [e]"

definition stats_zero :: wal_replay_stats where
  "stats_zero = \<lparr>replayed = 0, corrupted_lines = 0, dedup_dropped = 0, process_failed = 0\<rparr>"

text \<open>The loop over the lines; a line that is not UTF-8 makes \<open>next_line\<close> fail, which ends the replay.\<close>

fun replay_lines ::
  "(string \<Rightarrow> event option) \<Rightarrow> (string \<Rightarrow> nat) \<Rightarrow> nat \<Rightarrow> nat \<Rightarrow> string list \<Rightarrow> wal_replay_stats \<Rightarrow> hub_memory \<Rightarrow>
   (unit + wal_replay_stats) \<times> hub_memory" where
  "replay_lines from_json h cap w [] stats m = (Inr stats, m)"
| "replay_lines from_json h cap w (line # lines) stats m =
     (if \<not> valid_utf8 line then (Inl (), m)
      else
        (let trimmed = trim line in
         if trimmed = [] then replay_lines from_json h cap w lines stats m
         else case from_json trimmed of
           None \<Rightarrow> replay_lines from_json h cap w lines (stats\<lparr>corrupted_lines := corrupted_lines stats + 1\<rparr>) m
         | Some e \<Rightarrow>
             (let (ok, store) = accept_event_with_dedup h w e (mem_dedup m); m1 = m\<lparr>mem_dedup := store\<rparr> in
              if \<not> ok then replay_lines from_json h cap w lines (stats\<lparr>dedup_dropped := dedup_dropped stats + 1\<rparr>) m1
              else case process_event e (mem_graph m1) of
                (Inl err, g) \<Rightarrow>
                  replay_lines from_json h cap w lines (stats\<lparr>process_failed := process_failed stats + 1\<rparr>)
                    (m1\<lparr>mem_graph := g\<rparr>)
              | (Inr _, g) \<Rightarrow>
                  replay_lines from_json h cap w lines (stats\<lparr>replayed := replayed stats + 1\<rparr>)
                    (m1\<lparr>mem_graph := g, mem_buffer := push_event cap e (mem_buffer m1)\<rparr>))))"

definition replay_wal_file ::
  "(string \<Rightarrow> event option) \<Rightarrow> (string \<Rightarrow> nat) \<Rightarrow> nat \<Rightarrow> nat \<Rightarrow> string \<Rightarrow> hub_memory \<Rightarrow>
   (unit + wal_replay_stats) \<times> hub_memory" where
  "replay_wal_file from_json h cap w content m =
     replay_lines from_json h cap w (file_lines content) stats_zero m"

definition merge_replay_stats :: "wal_replay_stats \<Rightarrow> wal_replay_stats \<Rightarrow> wal_replay_stats" where
  "merge_replay_stats tot delta =
     \<lparr>replayed = replayed tot + replayed delta,
      corrupted_lines = corrupted_lines tot + corrupted_lines delta,
      dedup_dropped = dedup_dropped tot + dedup_dropped delta,
      process_failed = process_failed tot + process_failed delta\<rparr>"

text \<open>One file of the two, if it exists, with its counts merged into the total.\<close>

definition replay_one ::
  "(string \<Rightarrow> event option) \<Rightarrow> (string \<Rightarrow> nat) \<Rightarrow> nat \<Rightarrow> nat \<Rightarrow> string option \<Rightarrow>
   (unit + wal_replay_stats) \<times> hub_memory \<Rightarrow> (unit + wal_replay_stats) \<times> hub_memory" where
  "replay_one from_json h cap w file acc =
     (case acc of
        (Inl e, m) \<Rightarrow> (Inl e, m)
      | (Inr tot, m) \<Rightarrow>
          (case file of
             None \<Rightarrow> (Inr tot, m)
           | Some content \<Rightarrow>
               (case replay_wal_file from_json h cap w content m of
                  (Inl e, m1) \<Rightarrow> (Inl e, m1)
                | (Inr stats, m1) \<Rightarrow> (Inr (merge_replay_stats tot stats), m1))))"

definition replay_wal ::
  "(string \<Rightarrow> event option) \<Rightarrow> (string \<Rightarrow> nat) \<Rightarrow> nat \<Rightarrow> nat \<Rightarrow> string option \<Rightarrow> string option \<Rightarrow> hub_memory \<Rightarrow>
   (unit + wal_replay_stats) \<times> hub_memory" where
  "replay_wal from_json h cap w act rot m =
     (if act = None \<and> rot = None then (Inr stats_zero, m)
      else replay_one from_json h cap w act (replay_one from_json h cap w rot (Inr stats_zero, m)))"

section \<open>Ingesting an event\<close>

text \<open>
  What the hub does with an event of a connection (\<open>handle_connection\<close> in hub/src/main.rs): deduplicate,
  update the graph, buffer, append to the log.  A failed append is counted and otherwise ignored.
\<close>

record hub_core =
  core_memory :: hub_memory
  core_wal :: wal_state
  wal_append_errors :: nat
  wal_rotations :: nat

definition ingest ::
  "(event \<Rightarrow> string) \<Rightarrow> (string \<Rightarrow> nat) \<Rightarrow> nat \<Rightarrow> nat \<Rightarrow> wal_fault option \<Rightarrow> event \<Rightarrow> hub_core \<Rightarrow> bool \<times> hub_core" where
  "ingest to_json h cap w fault e c =
     (let m = core_memory c; (ok, store) = accept_event_with_dedup h w e (mem_dedup m);
          m1 = m\<lparr>mem_dedup := store\<rparr> in
      if \<not> ok then (False, c\<lparr>core_memory := m1\<rparr>)
      else case process_event e (mem_graph m1) of
        (Inl err, g) \<Rightarrow> (False, c\<lparr>core_memory := m1\<lparr>mem_graph := g\<rparr>\<rparr>)
      | (Inr _, g) \<Rightarrow>
          (let m2 = m1\<lparr>mem_graph := g, mem_buffer := push_event cap e (mem_buffer m1)\<rparr>;
               (r, wal) = append_wal_event to_json fault e (core_wal c);
               c1 = c\<lparr>core_memory := m2, core_wal := wal\<rparr> in
           case r of
             Inr res \<Rightarrow> (True, if did_rotate res then c1\<lparr>wal_rotations := wal_rotations c1 + 1\<rparr> else c1)
           | Inl _ \<Rightarrow> (True, c1\<lparr>wal_append_errors := wal_append_errors c1 + 1\<rparr>)))"

fun ingest_all ::
  "(event \<Rightarrow> string) \<Rightarrow> (string \<Rightarrow> nat) \<Rightarrow> nat \<Rightarrow> nat \<Rightarrow> event list \<Rightarrow> hub_core \<Rightarrow> hub_core" where
  "ingest_all to_json h cap w [] c = c"
| "ingest_all to_json h cap w (e # es) c = ingest_all to_json h cap w es (snd (ingest to_json h cap w None e c))"

definition memory_new :: hub_memory where
  "memory_new = \<lparr>mem_graph = state_graph_new, mem_buffer = [], mem_dedup = []\<rparr>"

definition core_new :: "nat \<Rightarrow> hub_core" where
  "core_new wal_max_mb =
     \<lparr>core_memory = memory_new, core_wal = open_wal_writer wal_max_mb None None,
      wal_append_errors = 0, wal_rotations = 0\<rparr>"

section \<open>What memory holds\<close>

text \<open>Memory as a function of the accepted events.\<close>

definition memory_of :: "nat \<Rightarrow> event list \<Rightarrow> dedup_store \<Rightarrow> hub_memory" where
  "memory_of cap acc store =
     \<lparr>mem_graph = process_events acc state_graph_new, mem_buffer = fold (push_event cap) acc [], mem_dedup = store\<rparr>"

lemma process_events_snoc:
  "process_event e (process_events es g) = (Inr (), process_events (es @ [e]) g)"
  by (simp add: process_events_def process_event_def Let_def)

lemma ingest_memory:
  assumes "core_memory c = memory_of cap acc store"
  shows "core_memory (snd (ingest to_json h cap w fault e c)) =
      memory_of cap (if fst (accept_event_with_dedup h w e store) then acc @ [e] else acc)
        (snd (accept_event_with_dedup h w e store))"
  using assms
  by (simp add: ingest_def memory_of_def Let_def process_events_snoc split: prod.splits sum.splits)

lemma ingest_wal:
  assumes "core_memory c = memory_of cap acc store"
  shows "core_wal (snd (ingest to_json h cap w fault e c)) =
      (if fst (accept_event_with_dedup h w e store)
       then snd (append_wal_event to_json fault e (core_wal c)) else core_wal c)"
  using assms
  by (simp add: ingest_def memory_of_def Let_def process_events_snoc split: prod.splits sum.splits)

fun append_all :: "(event \<Rightarrow> string) \<Rightarrow> event list \<Rightarrow> wal_state \<Rightarrow> wal_state" where
  "append_all to_json [] st = st"
| "append_all to_json (e # es) st = append_all to_json es (snd (append_wal_event to_json None e st))"

lemma append_all_append: "append_all to_json (a @ b) st = append_all to_json b (append_all to_json a st)"
  by (induction a arbitrary: st) simp_all

lemma ingest_all_state:
  assumes "core_memory c = memory_of cap acc store" "core_wal c = append_all to_json acc st"
  shows "core_memory (ingest_all to_json h cap w es c) =
      memory_of cap (acc @ fst (dedup_run h w es store)) (snd (dedup_run h w es store)) \<and>
    core_wal (ingest_all to_json h cap w es c) = append_all to_json (acc @ fst (dedup_run h w es store)) st"
  using assms
proof (induction es arbitrary: c acc store)
  case (Cons e es)
  let ?a = "accept_event_with_dedup h w e store"
  have "core_memory (snd (ingest to_json h cap w None e c)) = memory_of cap (if fst ?a then acc @ [e] else acc) (snd ?a)"
    by (rule ingest_memory[OF Cons.prems(1)])
  moreover have "core_wal (snd (ingest to_json h cap w None e c)) =
      append_all to_json (if fst ?a then acc @ [e] else acc) st"
    using ingest_wal[OF Cons.prems(1), of to_json h w None e] Cons.prems(2) by (simp add: append_all_append)
  ultimately show ?case
    using Cons.IH[of "snd (ingest to_json h cap w None e c)" "if fst ?a then acc @ [e] else acc" "snd ?a"]
    by (auto simp: Let_def split: prod.splits if_splits)
qed simp

lemma ingest_all_new:
  "core_memory (ingest_all to_json h cap w es (core_new mb)) =
     memory_of cap (fst (dedup_run h w es [])) (snd (dedup_run h w es []))"
  "core_wal (ingest_all to_json h cap w es (core_new mb)) =
     append_all to_json (fst (dedup_run h w es [])) (open_wal_writer mb None None)"
  using ingest_all_state[of "core_new mb" cap "[]" "[]" to_json "open_wal_writer mb None None" h w es]
  by (simp_all add: core_new_def memory_new_def memory_of_def process_events_def)

section \<open>What the files hold\<close>

definition wal_line :: "(event \<Rightarrow> string) \<Rightarrow> event \<Rightarrow> string" where
  "wal_line to_json e = to_json e @ [CHR 0x0A]"

definition wal_lines :: "(event \<Rightarrow> string) \<Rightarrow> event list \<Rightarrow> string" where
  "wal_lines to_json es = concat (map (wal_line to_json) es)"

definition must_rotate :: "(event \<Rightarrow> string) \<Rightarrow> event \<Rightarrow> wal_state \<Rightarrow> bool" where
  "must_rotate to_json e st \<longleftrightarrow>
     0 < wal_max_bytes st \<and>
     wal_max_bytes st < saturating_add (length (file_bytes st)) (length (wal_line to_json e))"

lemma append_ok:
  assumes "wal_file st = ActiveFile" "active st = Some a"
  shows "snd (append_wal_event to_json None e st) =
    (if must_rotate to_json e st then st\<lparr>rotated := Some a, active := Some (wal_line to_json e)\<rparr>
     else st\<lparr>active := Some (a @ wal_line to_json e)\<rparr>)"
  using assms
  by (cases st) (auto simp: append_wal_event_def rotate_wal_def open_active_def write_bytes_def file_bytes_def
      must_rotate_def wal_line_def Let_def)

lemma wal_lines_snoc [simp]: "wal_lines to_json (es @ [e]) = wal_lines to_json es @ wal_line to_json e"
  by (simp add: wal_lines_def)

lemma wal_lines_Nil [simp]: "wal_lines to_json [] = []"
  by (simp add: wal_lines_def)

lemma append_max [simp]: "wal_max_bytes (append_all to_json acc st) = wal_max_bytes st"
proof (induction acc arbitrary: st)
  case (Cons e acc)
  have "wal_max_bytes (snd (append_wal_event to_json None e st)) = wal_max_bytes st"
    by (auto simp: append_wal_event_def rotate_wal_def open_active_def write_bytes_def Let_def
        split: file_ref.splits)
  then show ?case using Cons by simp
qed simp

text \<open>
  The log as a sequence of files, apart from how the code keeps them: records go to the current file
  until a limit is set and the next record would exceed it; then the file is closed and the record
  opens the next one.
\<close>

definition overflows :: "(event \<Rightarrow> string) \<Rightarrow> nat \<Rightarrow> event list \<Rightarrow> event \<Rightarrow> bool" where
  "overflows to_json M cur e \<longleftrightarrow>
     0 < M \<and> M < u64_max \<and> M < length (wal_lines to_json cur) + length (wal_line to_json e)"

inductive log_cut :: "(event \<Rightarrow> string) \<Rightarrow> nat \<Rightarrow> event list list \<Rightarrow> event list \<Rightarrow> bool"
  for to_json M where
  log_start: "log_cut to_json M [] []"
| log_keep: "log_cut to_json M files cur \<Longrightarrow> \<not> overflows to_json M cur e \<Longrightarrow> log_cut to_json M files (cur @ [e])"
| log_roll: "log_cut to_json M files cur \<Longrightarrow> overflows to_json M cur e \<Longrightarrow> log_cut to_json M (files @ [cur]) [e]"

lemma log_cut_bounded:
  "log_cut to_json M files cur \<Longrightarrow> 0 < M \<Longrightarrow> M < u64_max \<Longrightarrow>
   list_all (\<lambda>e. length (wal_line to_json e) \<le> M) (concat files @ cur) \<Longrightarrow>
   list_all (\<lambda>c. length (wal_lines to_json c) \<le> M) (files @ [cur])"
proof (induction rule: log_cut.induct)
  case (log_roll files cur e)
  then show ?case using wal_lines_snoc[of to_json "[]" e] by simp
qed (simp_all add: overflows_def)

text \<open>The state of the writer is the last two files of the sequence.\<close>

definition wal_holds :: "(event \<Rightarrow> string) \<Rightarrow> event list list \<Rightarrow> event list \<Rightarrow> wal_state \<Rightarrow> bool" where
  "wal_holds to_json files cur st \<longleftrightarrow>
     wal_file st = ActiveFile \<and> active st = Some (wal_lines to_json cur) \<and>
     rotated st = (if files = [] then None else Some (wal_lines to_json (last files)))"

lemma must_rotate_overflows:
  "wal_holds to_json files cur st \<Longrightarrow> wal_max_bytes st \<le> u64_max \<Longrightarrow>
   must_rotate to_json e st \<longleftrightarrow> overflows to_json (wal_max_bytes st) cur e"
  by (auto simp: must_rotate_def overflows_def wal_holds_def file_bytes_def saturating_add_def)

lemma append_all_cut:
  fixes to_json mb
  defines "M \<equiv> saturating_mul mb (1024 * 1024)"
  shows "\<exists>files cur. log_cut to_json M files cur \<and> concat files @ cur = acc \<and>
    wal_holds to_json files cur (append_all to_json acc (open_wal_writer mb None None))"
proof (induction acc rule: rev_induct)
  case Nil
  have "wal_holds to_json [] [] (open_wal_writer mb None None)"
    by (simp add: wal_holds_def open_wal_writer_def open_active_def)
  then show ?case using log_start by fastforce
next
  case (snoc e acc)
  let ?st = "append_all to_json acc (open_wal_writer mb None None)"
  from snoc obtain files cur where
    s: "log_cut to_json M files cur" "concat files @ cur = acc" "wal_holds to_json files cur ?st" by blast
  have M: "wal_max_bytes ?st = M" "M \<le> u64_max"
    by (simp_all add: open_wal_writer_def open_active_def M_def saturating_mul_def)
  have rot: "must_rotate to_json e ?st \<longleftrightarrow> overflows to_json M cur e"
    using must_rotate_overflows[OF s(3)] M by simp
  have st: "append_all to_json (acc @ [e]) (open_wal_writer mb None None) = snd (append_wal_event to_json None e ?st)"
    by (simp add: append_all_append)
  have ok: "snd (append_wal_event to_json None e ?st) =
      (if overflows to_json M cur e then ?st\<lparr>rotated := active ?st, active := Some (wal_line to_json e)\<rparr>
       else ?st\<lparr>active := Some (wal_lines to_json cur @ wal_line to_json e)\<rparr>)"
    using append_ok[of ?st "wal_lines to_json cur" to_json e] s(3) rot by (simp add: wal_holds_def)
  show ?case
  proof (cases "overflows to_json M cur e")
    case True
    have "wal_holds to_json (files @ [cur]) [e] (snd (append_wal_event to_json None e ?st))"
      using s(3) wal_lines_snoc[of to_json "[]" e] by (simp add: ok True wal_holds_def)
    moreover have "concat (files @ [cur]) @ [e] = acc @ [e]" using s(2) by simp
    ultimately show ?thesis using log_roll[OF s(1) True] unfolding st by blast
  next
    case False
    have "wal_holds to_json files (cur @ [e]) (snd (append_wal_event to_json None e ?st))"
      using s(3) by (simp add: ok False wal_holds_def)
    moreover have "concat files @ cur @ [e] = acc @ [e]" using s(2) by simp
    ultimately show ?thesis using log_keep[OF s(1) False] unfolding st by blast
  qed
qed

text \<open>
  \<^bold>\<open>C16.\<close>  What the log keeps.  After any stream of events, ingested without I/O errors, the accepted events
  are cut into files such that a new file begins exactly when a size limit is set and the next record
  would exceed it; the active file holds the last of these files, complete and in order, the rotated
  file the one before it, and there is no rotated file before the first cut.  When a limit is set and
  no single record exceeds it, no file ever exceeds it.
\<close>

theorem wal_bounded_suffix:
  "let st = core_wal (ingest_all to_json h cap w es (core_new mb)); acc = fst (dedup_run h w es []);
       M = saturating_mul mb (1024 * 1024) in
     \<exists>files cur. log_cut to_json M files cur \<and> concat files @ cur = acc \<and>
       active st = Some (wal_lines to_json cur) \<and>
       rotated st = (if files = [] then None else Some (wal_lines to_json (last files))) \<and>
       (list_all (\<lambda>e. length (wal_line to_json e) \<le> M) acc \<and> 0 < M \<and> M < u64_max \<longrightarrow>
         list_all (\<lambda>c. length (wal_lines to_json c) \<le> M) (files @ [cur]))"
proof -
  let ?acc = "fst (dedup_run h w es [])"
  obtain files cur where s: "log_cut to_json (saturating_mul mb (1024 * 1024)) files cur" "concat files @ cur = ?acc"
    "wal_holds to_json files cur (append_all to_json ?acc (open_wal_writer mb None None))"
    using append_all_cut by blast
  from log_cut_bounded[OF s(1), unfolded s(2)] s show ?thesis
    unfolding Let_def ingest_all_new(2) wal_holds_def by (intro exI[of _ files] exI[of _ cur]) blast
qed

text \<open>A codec for the witnesses: the value of the event is its own encoding.\<close>

definition value_json :: "event \<Rightarrow> string" where
  "value_json e = ev_value e"

definition wal_event :: "nat \<Rightarrow> event" where
  "wal_event t = dup_event\<lparr>ev_ts := t, ev_value := show_nat t\<rparr>"

definition value_from_json :: "string \<Rightarrow> event option" where
  "value_from_json s = map_option wal_event (parse_uint u64_max s)"

theorem wal_bounded_suffix_witness:
  "let st = core_wal (ingest_all value_json sum_hash 2 300000 [wal_event 5, wal_event 5, wal_event 8] (core_new 1)) in
     \<exists>files cur. concat files @ cur = [wal_event 5, wal_event 8] \<and> active st = Some (wal_lines value_json cur) \<and>
       length (wal_lines value_json cur) \<le> 1024 * 1024"
proof -
  let ?acc = "fst (dedup_run sum_hash 300000 [wal_event 5, wal_event 5, wal_event 8] [])"
  have v: "list_all (\<lambda>e. length (wal_line value_json e) \<le> saturating_mul 1 (1024 * 1024)) ?acc"
    "0 < saturating_mul 1 (1024 * 1024)" "saturating_mul 1 (1024 * 1024) < u64_max" "?acc = [wal_event 5, wal_event 8]"
    by code_simp+
  moreover have "saturating_mul 1 (1024 * 1024) = 1024 * 1024" by code_simp
  ultimately show ?thesis
    using wal_bounded_suffix[of value_json sum_hash 2 300000 "[wal_event 5, wal_event 5, wal_event 8]" 1]
    unfolding Let_def by auto
qed

section \<open>Recovery\<close>

text \<open>What the hub relies on from the JSON codec, for one event: a record is one line of text that parses back.\<close>

definition codec_ok :: "(event \<Rightarrow> string) \<Rightarrow> (string \<Rightarrow> event option) \<Rightarrow> event \<Rightarrow> bool" where
  "codec_ok to_json from_json e \<longleftrightarrow>
     from_json (to_json e) = Some e \<and> CHR 0x0A \<notin> set (to_json e) \<and> valid_utf8 (to_json e) \<and>
     to_json e \<noteq> [] \<and> trim (to_json e) = to_json e"

lemma split_lines:
  "list_all (\<lambda>e. CHR 0x0A \<notin> set (to_json e)) es \<Longrightarrow>
     split_char (CHR 0x0A) (wal_lines to_json es) = map to_json es @ [[]]"
proof (induction es)
  case (Cons e es)
  then show ?case
    using split_char_append[of "CHR 0x0A" "to_json e" "wal_lines to_json es"]
    by (simp add: wal_lines_def wal_line_def)
qed simp

lemma file_lines_wal:
  "list_all (codec_ok to_json from_json) es \<Longrightarrow> file_lines (wal_lines to_json es) = map to_json es"
  using split_lines[of to_json es] by (auto simp: file_lines_def Let_def list_all_iff codec_ok_def)

lemma replay_lines_events:
  assumes "list_all (codec_ok to_json from_json) es"
  shows "\<exists>stats'. replay_lines from_json h cap w (map to_json es) stats (memory_of cap acc store) =
      (Inr stats', memory_of cap (acc @ fst (dedup_run h w es store)) (snd (dedup_run h w es store))) \<and>
    replayed stats' = replayed stats + length (fst (dedup_run h w es store)) \<and>
    corrupted_lines stats' = corrupted_lines stats \<and> process_failed stats' = process_failed stats"
  using assms
proof (induction es arbitrary: stats acc store)
  case (Cons e es)
  obtain ok store1 where a: "accept_event_with_dedup h w e store = (ok, store1)"
    by (cases "accept_event_with_dedup h w e store")
  have j: "valid_utf8 (to_json e)" "to_json e \<noteq> []" "trim (to_json e) = to_json e" "from_json (to_json e) = Some e"
    using Cons.prems by (simp_all add: codec_ok_def)
  show ?case
  proof (cases ok)
    case True
    have "replay_lines from_json h cap w (map to_json (e # es)) stats (memory_of cap acc store) =
        replay_lines from_json h cap w (map to_json es) (stats\<lparr>replayed := replayed stats + 1\<rparr>) (memory_of cap (acc @ [e]) store1)"
      using True a j by (simp add: memory_of_def process_events_snoc Let_def)
    then show ?thesis
      using Cons.IH[of "stats\<lparr>replayed := replayed stats + 1\<rparr>" "acc @ [e]" store1] Cons.prems True a
      by (auto simp: Let_def split: prod.splits)
  next
    case False
    have "replay_lines from_json h cap w (map to_json (e # es)) stats (memory_of cap acc store) =
        replay_lines from_json h cap w (map to_json es) (stats\<lparr>dedup_dropped := dedup_dropped stats + 1\<rparr>) (memory_of cap acc store1)"
      using False a j by (simp add: memory_of_def Let_def)
    then show ?thesis
      using Cons.IH[of "stats\<lparr>dedup_dropped := dedup_dropped stats + 1\<rparr>" acc store1] Cons.prems False a
      by (auto simp: Let_def split: prod.splits)
  qed
qed simp

lemma length_lines_firsts: "length (wal_lines to_json (firsts S es)) \<le> length (wal_lines to_json es)"
  by (induction S es rule: firsts.induct) (auto simp: wal_lines_def)

lemma append_all_no_rotation:
  assumes "mb = 0 \<or> length (wal_lines to_json acc) \<le> saturating_mul mb (1024 * 1024)"
  shows "append_all to_json acc (open_wal_writer mb None None) =
     (open_wal_writer mb None None)\<lparr>active := Some (wal_lines to_json acc)\<rparr>"
  using assms
proof (induction acc rule: rev_induct)
  case Nil
  then show ?case by (simp add: open_wal_writer_def open_active_def)
next
  case (snoc e acc)
  then have st: "append_all to_json acc (open_wal_writer mb None None) =
     (open_wal_writer mb None None)\<lparr>active := Some (wal_lines to_json acc)\<rparr>" by auto
  have "\<not> must_rotate to_json e ((open_wal_writer mb None None)\<lparr>active := Some (wal_lines to_json acc)\<rparr>)"
    using snoc.prems
    by (auto simp: must_rotate_def file_bytes_def open_wal_writer_def open_active_def saturating_add_def saturating_mul_def)
  then show ?case
    using append_ok[of "(open_wal_writer mb None None)\<lparr>active := Some (wal_lines to_json acc)\<rparr>" _ to_json e]
    unfolding append_all_append append_all.simps st by (simp add: open_wal_writer_def open_active_def)
qed

lemma dedup_run_replay:
  assumes "sorted (map ev_ts es)" "inj_on (event_fingerprint h) (set es)"
  shows "fst (dedup_run h w es []) = firsts {} es" "fst (dedup_run h w (firsts {} es) []) = firsts {} es"
proof -
  have "fst (dedup_run h w xs []) = firsts {} xs" if "sorted (map ev_ts xs)" "inj_on (event_fingerprint h) (set xs)" for xs
    by (rule dedup_run_sorted[where m = 0]) (use that in \<open>auto simp: store_of_def\<close>)
  note run = this
  show "fst (dedup_run h w es []) = firsts {} es" by (rule run[OF assms])
  show "fst (dedup_run h w (firsts {} es) []) = firsts {} es"
    using run[of "firsts {} es"] firsts_mono_ts[OF assms(1)] assms(2)
    by (simp add: set_firsts firsts_distinct distinct_firsts)
qed

text \<open>
  \<^bold>\<open>C17.\<close>  Recovery is exact: for events that arrive in time order, if the log was not rotated (no limit, or
  everything fits in it), replaying the files on an empty hub succeeds, replays every accepted event
  and rebuilds the very graph and event buffer the hub had.  The JSON codec must round-trip the events
  as single lines and the hash not collide on them.
\<close>

theorem recovery_exact:
  assumes "sorted (map ev_ts es)" "inj_on (event_fingerprint h) (set es)"
    and "list_all (codec_ok to_json from_json) es"
    and "mb = 0 \<or> length (wal_lines to_json es) \<le> saturating_mul mb (1024 * 1024)"
  shows "let c = ingest_all to_json h cap w es (core_new mb);
             (r, m) = replay_wal from_json h cap w (active (core_wal c)) (rotated (core_wal c)) memory_new in
     mem_graph m = mem_graph (core_memory c) \<and> mem_buffer m = mem_buffer (core_memory c) \<and>
     (case r of Inr stats \<Rightarrow> replayed stats = length (fst (dedup_run h w es [])) \<and> corrupted_lines stats = 0
      | Inl _ \<Rightarrow> False)"
proof -
  define acc where "acc = firsts {} es"
  define mem where "mem = memory_of cap acc (snd (dedup_run h w acc []))"
  have acc: "fst (dedup_run h w es []) = acc" "fst (dedup_run h w acc []) = acc"
    using dedup_run_replay[OF assms(1,2)] by (simp_all add: acc_def)
  have "mb = 0 \<or> length (wal_lines to_json acc) \<le> saturating_mul mb (1024 * 1024)"
    using assms(4) length_lines_firsts[of to_json "{}" es] by (auto simp: acc_def)
  note disk = append_all_no_rotation[OF this]
  have files: "active (core_wal (ingest_all to_json h cap w es (core_new mb))) = Some (wal_lines to_json acc)"
    "rotated (core_wal (ingest_all to_json h cap w es (core_new mb))) = None"
    unfolding ingest_all_new acc disk by (simp_all add: open_wal_writer_def open_active_def)
  have "list_all (codec_ok to_json from_json) acc" using assms(3) set_firsts[of "{}" es] by (auto simp: acc_def list_all_iff)
  note codec = file_lines_wal[OF this] replay_lines_events[OF this, of h cap w stats_zero "[]" "[]"]
  have new: "memory_new = memory_of cap [] []" by (simp add: memory_new_def memory_of_def process_events_def)
  obtain stats where r: "replay_lines from_json h cap w (map to_json acc) stats_zero memory_new = (Inr stats, mem)"
    "replayed stats = length acc" "corrupted_lines stats = 0"
    using codec(2) by (auto simp: new mem_def acc stats_zero_def)
  then have "replay_wal from_json h cap w (Some (wal_lines to_json acc)) None memory_new = (Inr stats, mem)"
    by (cases stats) (simp add: replay_wal_def replay_one_def replay_wal_file_def codec(1) merge_replay_stats_def stats_zero_def)
  then show ?thesis
    using r acc unfolding Let_def files ingest_all_new(1) by (simp add: mem_def memory_of_def)
qed

theorem recovery_exact_witness:
  "let c = ingest_all value_json sum_hash 1 300000 [wal_event 5, wal_event 5, wal_event 8] (core_new 0);
       (r, m) = replay_wal value_from_json sum_hash 1 300000 (active (core_wal c)) (rotated (core_wal c)) memory_new in
     mem_graph m = mem_graph (core_memory c) \<and> mem_buffer m = mem_buffer (core_memory c)"
proof -
  let ?es = "[wal_event 5, wal_event 5, wal_event 8]"
  have "sorted (map ev_ts ?es)" by (simp add: wal_event_def)
  moreover have "event_fingerprint sum_hash (wal_event 5) \<noteq> event_fingerprint sum_hash (wal_event 8)" by code_simp
  then have "inj_on (event_fingerprint sum_hash) (set ?es)" by (simp add: inj_on_def)
  moreover have "list_all (codec_ok value_json value_from_json) ?es" by code_simp
  ultimately show ?thesis
    using recovery_exact[of ?es sum_hash value_json value_from_json 0 1 300000] by (auto simp: Let_def)
qed

section \<open>A rotation that fails half way\<close>



end
