(* ===== verification/K8s.thy ===== *)
theory K8s
  imports Event
begin

text \<open>
  \<^bold>\<open>hub/src/k8s_controller.rs\<close>: isolating machines with irreversible faults.  The Kubernetes API server is a
  service: its calls are a record of functions over an abstract cluster state \<open>'c\<close>, each of which may
  fail, and an argument of every definition that uses it.  Instants are milliseconds, passed in.
\<close>

section \<open>Data\<close>

datatype irreversible_fault =
    PersistentXidError string string string
  | RdmaLinkDown string string
  | StorageDeviceFailure string string
  | OtherHardwareFailure string string

record taint =
  taint_key :: string
  taint_value :: "string option"
  taint_effect :: string

record k8s_node =
  k8s_name :: "string option"
  k8s_labels :: "(string, string) hashmap option"
  k8s_taints :: "taint list option"

record pod =
  pod_name :: "string option"
  pod_namespace :: "string option"
  pod_node_name :: "string option"
  pod_owner_kinds :: "string list option"

record request_spec =
  spec_node_id :: "string option"
  spec_action :: "string option"
  spec_reason :: "string option"
  spec_dry_run :: "bool option"

record remediation_request =
  req_name :: "string option"
  req_phase :: "string option"
  req_spec :: "request_spec option"

text \<open>
  A patch request: \<open>PatchParams\<close> with the field manager and the force flag, the kind of patch, and for
  nodes the body, which may name the type of the object and has the new taints.
\<close>

record patch_params =
  field_manager :: string
  patch_force :: bool

datatype patch_kind = PatchApply | PatchMerge

record node_patch =
  np_api_version :: "string option"
  np_kind :: "string option"
  np_taints :: "taint list"

record 'c k8s_api =
  get_node :: "string \<Rightarrow> 'c \<Rightarrow> string + k8s_node"
  list_nodes :: "'c \<Rightarrow> string + k8s_node list"
  patch_node :: "patch_params \<Rightarrow> patch_kind \<Rightarrow> string \<Rightarrow> node_patch \<Rightarrow> 'c \<Rightarrow> (string + unit) \<times> 'c"
  list_pods :: "'c \<Rightarrow> string + pod list"
  create_eviction :: "string \<Rightarrow> string \<Rightarrow> 'c \<Rightarrow> (string + unit) \<times> 'c"
  list_requests :: "nat \<Rightarrow> 'c \<Rightarrow> string + remediation_request list"
  patch_status :: "patch_params \<Rightarrow> patch_kind \<Rightarrow> string \<Rightarrow> string \<Rightarrow> string \<Rightarrow> 'c \<Rightarrow> (string + unit) \<times> 'c"

record k8s_controller =
  processed_nodes :: "(string, nat) hashmap"
  cooldown_duration :: nat
  ctl_enabled :: bool

definition controller_new :: "bool \<Rightarrow> k8s_controller" where
  "controller_new en = \<lparr>processed_nodes = [], cooldown_duration = 300 * 1000, ctl_enabled = en\<rparr>"

section \<open>Which events are irreversible faults\<close>

definition node_or_unknown :: "event \<Rightarrow> string" where
  "node_or_unknown e = (case ev_node_id e of Some n \<Rightarrow> n | None \<Rightarrow> ''unknown'')"

definition detect_irreversible_fault :: "event \<Rightarrow> irreversible_fault option" where
  "detect_irreversible_fault e =
     (case ev_type e of
        ErrorHw \<Rightarrow>
          (if contains (ev_value e) ''XID'' \<or> contains (ev_value e) ''xid''
           then Some (PersistentXidError (node_or_unknown e) (ev_entity_id e) (ev_value e))
           else Some (OtherHardwareFailure (node_or_unknown e) (ev_entity_id e @ '': '' @ ev_value e)))
      | ErrorNet \<Rightarrow>
          (if contains (ev_value e) ''link_down'' \<or> contains (ev_value e) ''LINK_DOWN''
           then Some (RdmaLinkDown (node_or_unknown e) (ev_entity_id e)) else None)
      | TopoLinkDown \<Rightarrow>
          Some (OtherHardwareFailure (node_or_unknown e)
            (''Topology link down: '' @ ev_entity_id e @ '' - '' @ ev_value e))
      | _ \<Rightarrow> None)"

fun fault_node :: "irreversible_fault \<Rightarrow> string" where
  "fault_node (PersistentXidError n _ _) = n"
| "fault_node (RdmaLinkDown n _) = n"
| "fault_node (StorageDeviceFailure n _) = n"
| "fault_node (OtherHardwareFailure n _) = n"

section \<open>Finding the node\<close>

text \<open>The loop over the listed nodes: by label, then by name or part of a name.\<close>

fun search_nodes :: "string \<Rightarrow> k8s_node list \<Rightarrow> string option" where
  "search_nodes nid [] = None"
| "search_nodes nid (n # ns) =
     (let by_label =
        (case k8s_labels n of
           Some labels \<Rightarrow> if hm_get labels ''ark.io/node-id'' = Some nid then k8s_name n else None
         | None \<Rightarrow> None) in
      case by_label of
        Some name \<Rightarrow> Some name
      | None \<Rightarrow>
          (case k8s_name n of
             Some name \<Rightarrow> if name = nid \<or> contains name nid then Some name else search_nodes nid ns
           | None \<Rightarrow> search_nodes nid ns))"

definition map_node_id_to_k8s_name :: "'c k8s_api \<Rightarrow> string \<Rightarrow> 'c \<Rightarrow> string + string" where
  "map_node_id_to_k8s_name api nid c =
     (if \<not> isl (get_node api nid c) then Inr nid
      else case list_nodes api c of
        Inl e \<Rightarrow> Inl e
      | Inr ns \<Rightarrow> Inr (case search_nodes nid ns of Some name \<Rightarrow> name | None \<Rightarrow> nid))"

section \<open>Tainting and evicting\<close>

definition failure_key :: string where
  "failure_key = ''ark.io/hardware-failure''"

text \<open>\<open>reason.replace(" ", "-")\<close>.\<close>

definition dashed :: "string \<Rightarrow> string" where
  "dashed s = map (\<lambda>c. if c = CHR '' '' then CHR ''-'' else c) s"

fun fault_taint_value :: "irreversible_fault \<Rightarrow> string" where
  "fault_taint_value (PersistentXidError _ _ xid_code) = ''xid-error:'' @ xid_code"
| "fault_taint_value (RdmaLinkDown _ ifc) = ''rdma-link-down:'' @ ifc"
| "fault_taint_value (StorageDeviceFailure _ device) = ''storage-failure:'' @ device"
| "fault_taint_value (OtherHardwareFailure _ reason) = ''hardware-failure:'' @ dashed reason"

text \<open>The patch of the taints: an apply without a type, which the body of the source does not have.\<close>

definition patch_taints :: "'c k8s_api \<Rightarrow> string \<Rightarrow> taint list \<Rightarrow> 'c \<Rightarrow> (string + unit) \<times> 'c" where
  "patch_taints api name taints c =
     patch_node api \<lparr>field_manager = ''ark-controller'', patch_force = False\<rparr> PatchApply name
       \<lparr>np_api_version = None, np_kind = None, np_taints = taints\<rparr> c"

definition taint_node :: "'c k8s_api \<Rightarrow> string \<Rightarrow> irreversible_fault \<Rightarrow> 'c \<Rightarrow> (string + unit) \<times> 'c" where
  "taint_node api nid fault c =
     (case map_node_id_to_k8s_name api nid c of
        Inl e \<Rightarrow> (Inl e, c)
      | Inr name \<Rightarrow>
          (case get_node api name c of
             Inl e \<Rightarrow> (Inl e, c)
           | Inr n \<Rightarrow>
               (let taints = (case k8s_taints n of Some ts \<Rightarrow> ts | None \<Rightarrow> []) in
                if \<not> list_ex (\<lambda>t. taint_key t = failure_key) taints
                then patch_taints api name
                  (taints @ [\<lparr>taint_key = failure_key, taint_value = Some (fault_taint_value fault),
                              taint_effect = ''NoSchedule''\<rparr>]) c
                else (Inr (), c))))"

text \<open>The loop over the pods of the node; a missing name ends it with an error, a failed eviction does not.\<close>

fun evict_loop :: "'c k8s_api \<Rightarrow> pod list \<Rightarrow> nat \<Rightarrow> 'c \<Rightarrow> (string + nat) \<times> 'c" where
  "evict_loop api [] evicted c = (Inr evicted, c)"
| "evict_loop api (p # ps) evicted c =
     (if (case pod_owner_kinds p of
            Some ks \<Rightarrow> list_ex (\<lambda>k. k = ''DaemonSet'' \<or> k = ''Node'') ks
          | None \<Rightarrow> False)
      then evict_loop api ps evicted c
      else
        (let namesp = (case pod_namespace p of Some ns \<Rightarrow> ns | None \<Rightarrow> ''default'') in
         case pod_name p of
           None \<Rightarrow> (Inl ''Pod name is missing'', c)
         | Some name \<Rightarrow>
             (case create_eviction api namesp name c of
                (Inr _, c1) \<Rightarrow> evict_loop api ps (evicted + 1) c1
              | (Inl _, c1) \<Rightarrow> evict_loop api ps evicted c1)))"

definition evict_pods_on_node :: "'c k8s_api \<Rightarrow> string \<Rightarrow> 'c \<Rightarrow> (string + nat) \<times> 'c" where
  "evict_pods_on_node api nid c =
     (case map_node_id_to_k8s_name api nid c of
        Inl e \<Rightarrow> (Inl e, c)
      | Inr name \<Rightarrow>
          (case list_pods api c of
             Inl e \<Rightarrow> (Inl e, c)
           | Inr pods \<Rightarrow> evict_loop api (filter (\<lambda>p. pod_node_name p = Some name) pods) 0 c))"

text \<open>\<open>now\<close> is the instant of the check, \<open>done_at\<close> the one recorded at the end.\<close>

definition in_cooldown :: "nat \<Rightarrow> string \<Rightarrow> k8s_controller \<Rightarrow> bool" where
  "in_cooldown now nid ctl =
     (case hm_get (processed_nodes ctl) nid of
        Some last_time \<Rightarrow> saturating_sub now last_time < cooldown_duration ctl
      | None \<Rightarrow> False)"

definition handle_irreversible_fault ::
  "'c k8s_api \<Rightarrow> nat \<Rightarrow> nat \<Rightarrow> irreversible_fault \<Rightarrow> k8s_controller \<times> 'c \<Rightarrow> (string + unit) \<times> k8s_controller \<times> 'c" where
  "handle_irreversible_fault api now done_at fault s =
     (let (ctl, c) = s; nid = fault_node fault in
      if \<not> ctl_enabled ctl then (Inr (), ctl, c)
      else if in_cooldown now nid ctl then (Inr (), ctl, c)
      else case taint_node api nid fault c of
        (Inl e, c1) \<Rightarrow> (Inl e, ctl, c1)
      | (Inr _, c1) \<Rightarrow>
          (let (r, c2) = evict_pods_on_node api nid c1
           in (Inr (), ctl\<lparr>processed_nodes := hm_insert nid done_at (processed_nodes ctl)\<rparr>, c2)))"

section \<open>The operator\<close>

definition execute_operator_action ::
  "'c k8s_api \<Rightarrow> string \<Rightarrow> string \<Rightarrow> string \<Rightarrow> bool \<Rightarrow> 'c \<Rightarrow> (string + string) \<times> 'c" where
  "execute_operator_action api nid action reason dry_run c =
     (if dry_run then (Inr ''dry-run'', c)
      else if action = ''taint_only'' then
        (case taint_node api nid (OtherHardwareFailure nid reason) c of
           (Inl e, c1) \<Rightarrow> (Inl e, c1)
         | (Inr _, c1) \<Rightarrow> (Inr ''taint_only applied'', c1))
      else if action = ''taint_evict'' then
        (case taint_node api nid (OtherHardwareFailure nid reason) c of
           (Inl e, c1) \<Rightarrow> (Inl e, c1)
         | (Inr _, c1) \<Rightarrow>
             (case evict_pods_on_node api nid c1 of
                (Inl e, c2) \<Rightarrow> (Inl e, c2)
              | (Inr n, c2) \<Rightarrow> (Inr (''taint+evict applied, evicted_pods='' @ show_nat n), c2)))
      else (Inl (''unsupported action: '' @ action), c))"

text \<open>\<open>patch_request_status\<close>, a forced merge; the time stamp of the body is not modelled.\<close>

definition status_params :: patch_params where
  "status_params = \<lparr>field_manager = ''ark-operator'', patch_force = True\<rparr>"

definition patch_request_status :: "'c k8s_api \<Rightarrow> string \<Rightarrow> string \<Rightarrow> string option \<Rightarrow> 'c \<Rightarrow> (string + unit) \<times> 'c" where
  "patch_request_status api name phase message c =
     patch_status api status_params PatchMerge name phase (case message of Some m \<Rightarrow> m | None \<Rightarrow> []) c"

definition skips_phase :: "string \<Rightarrow> bool" where
  "skips_phase phase = (phase = ''Succeeded'' \<or> phase = ''Failed'' \<or> phase = ''Running'')"

text \<open>One iteration of the loop over the listed requests; the results of the status patches are ignored.\<close>

definition operator_request :: "'c k8s_api \<Rightarrow> remediation_request \<Rightarrow> 'c \<Rightarrow> 'c" where
  "operator_request api r c =
     (let name = (case req_name r of Some n \<Rightarrow> n | None \<Rightarrow> []) in
      if name = [] then c
      else
        (let phase = (case req_phase r of Some p \<Rightarrow> p | None \<Rightarrow> ''Pending'') in
         if skips_phase phase then c
         else case req_spec r of
           None \<Rightarrow> snd (patch_request_status api name ''Failed'' (Some ''missing spec'') c)
         | Some spec \<Rightarrow>
             (let nid = (case spec_node_id spec of Some n \<Rightarrow> n | None \<Rightarrow> []);
                  action = (case spec_action spec of Some a \<Rightarrow> a | None \<Rightarrow> ''taint_evict'');
                  reason = (case spec_reason spec of Some x \<Rightarrow> x | None \<Rightarrow> ''operator request'');
                  dry_run = (case spec_dry_run spec of Some b \<Rightarrow> b | None \<Rightarrow> False) in
              if nid = [] then snd (patch_request_status api name ''Failed'' (Some ''spec.nodeId is empty'') c)
              else
                (let c1 = snd (patch_request_status api name ''Running'' None c);
                     (res, c2) = execute_operator_action api nid action reason dry_run c1 in
                 case res of
                   Inr msg \<Rightarrow> snd (patch_request_status api name ''Succeeded'' (Some msg) c2)
                 | Inl err \<Rightarrow> snd (patch_request_status api name ''Failed'' (Some err) c2)))))"

text \<open>One turn of the endless loop; a failed listing is logged and retried at the next turn.\<close>

definition operator_pass :: "'c k8s_api \<Rightarrow> 'c \<Rightarrow> 'c" where
  "operator_pass api c =
     (case list_requests api 200 c of
        Inr rs \<Rightarrow> fold (operator_request api) rs c
      | Inl e \<Rightarrow> c)"

primrec run_operator_loop :: "nat \<Rightarrow> 'c k8s_api \<Rightarrow> k8s_controller \<Rightarrow> 'c \<Rightarrow> 'c" where
  "run_operator_loop 0 api ctl c = c"
| "run_operator_loop (Suc turns) api ctl c =
     (if \<not> ctl_enabled ctl then c else run_operator_loop turns api ctl (operator_pass api c))"

section \<open>Isolation of a faulty machine\<close>

text \<open>What the controller relies on from the API server.\<close>

definition taints_applied :: "'c k8s_api \<Rightarrow> bool" where
  "taints_applied api \<longleftrightarrow>
     (\<forall>name ts c. \<not> isl (fst (patch_taints api name ts c)) \<longrightarrow>
        (\<exists>n. get_node api name (snd (patch_taints api name ts c)) = Inr n \<and> k8s_taints n = Some ts))"

definition eviction_keeps_nodes :: "'c k8s_api \<Rightarrow> bool" where
  "eviction_keeps_nodes api \<longleftrightarrow>
     (\<forall>ns name c x. get_node api x (snd (create_eviction api ns name c)) = get_node api x c)"

definition has_failure_taint :: "k8s_node \<Rightarrow> bool" where
  "has_failure_taint n = (case k8s_taints n of Some ts \<Rightarrow> list_ex (\<lambda>t. taint_key t = failure_key) ts | None \<Rightarrow> False)"

definition taint_list :: "k8s_node \<Rightarrow> taint list" where
  "taint_list n = (case k8s_taints n of Some ts \<Rightarrow> ts | None \<Rightarrow> [])"

lemma evict_loop_keeps_nodes:
  assumes "eviction_keeps_nodes api"
  shows "get_node api x (snd (evict_loop api ps k c)) = get_node api x c"
proof (induction ps arbitrary: k c)
  case (Cons p ps)
  obtain r c1 where ev: "create_eviction api (case pod_namespace p of Some ns \<Rightarrow> ns | None \<Rightarrow> ''default'') (the (pod_name p)) c = (r, c1)"
    by (rule prod.exhaust)
  then have "get_node api x c1 = get_node api x c"
    using assms unfolding eviction_keeps_nodes_def by (metis snd_conv)
  with ev show ?case by (cases "pod_name p"; cases r) (simp_all add: Cons.IH Let_def)
qed simp

lemma evict_keeps_nodes:
  "eviction_keeps_nodes api \<Longrightarrow> get_node api x (snd (evict_pods_on_node api nid c)) = get_node api x c"
  by (simp add: evict_pods_on_node_def evict_loop_keeps_nodes split: sum.splits)

lemma patch_taints_applied:
  assumes "taints_applied api" "patch_taints api name ts c = (Inr u, c1)"
  shows "\<exists>n. get_node api name c1 = Inr n \<and> k8s_taints n = Some ts"
  using assms unfolding taints_applied_def by (metis fst_conv snd_conv sum.disc(2))

lemma taint_node_ok:
  assumes "taints_applied api" "taint_node api nid fault c = (Inr u, c1)"
  obtains name n n1 where "map_node_id_to_k8s_name api nid c = Inr name" "get_node api name c = Inr n"
    "get_node api name c1 = Inr n1" "has_failure_taint n1" "prefix (taint_list n) (taint_list n1)"
proof -
  obtain name where name: "map_node_id_to_k8s_name api nid c = Inr name"
    using assms(2) by (auto simp: taint_node_def split: sum.splits)
  obtain n where n: "get_node api name c = Inr n"
    using assms(2) name by (auto simp: taint_node_def split: sum.splits)
  let ?ts = "taint_list n"
  let ?new = "?ts @ [\<lparr>taint_key = failure_key, taint_value = Some (fault_taint_value fault), taint_effect = ''NoSchedule''\<rparr>]"
  have eq: "taint_node api nid fault c =
      (if \<not> list_ex (\<lambda>t. taint_key t = failure_key) ?ts then patch_taints api name ?new c else (Inr (), c))"
    by (simp add: taint_node_def name n taint_list_def)
  show thesis
  proof (cases "list_ex (\<lambda>t. taint_key t = failure_key) ?ts")
    case True
    then have "c1 = c" "has_failure_taint n" using eq assms(2) by (auto simp: has_failure_taint_def taint_list_def split: option.splits)
    then show thesis using that[OF name n] n by simp
  next
    case False
    then have "patch_taints api name ?new c = (Inr u, c1)" using eq assms(2) by simp
    then obtain n1 where "get_node api name c1 = Inr n1" "k8s_taints n1 = Some ?new"
      using patch_taints_applied[OF assms(1)] by blast
    then show thesis using that[OF name n, of n1] by (simp add: has_failure_taint_def taint_list_def)
  qed
qed

text \<open>
  \<^bold>\<open>C19.\<close>  Handling an irreversible fault isolates the machine: when the controller is enabled, the machine is
  not in its cooldown and the call succeeds, the Kubernetes node it maps to carries the failure taint,
  after all the taints it had before; and a further fault of the same machine before the cooldown is
  over changes nothing.  The API server must apply taint patches and evictions must not change nodes.
\<close>

theorem fault_isolates:
  assumes "taints_applied api" "eviction_keeps_nodes api"
    and "ctl_enabled ctl" "\<not> in_cooldown now (fault_node f) ctl"
    and "handle_irreversible_fault api now done_at f (ctl, c) = (Inr (), ctl1, c1)"
  shows "(\<exists>name n n1. map_node_id_to_k8s_name api (fault_node f) c = Inr name \<and> get_node api name c = Inr n \<and>
      get_node api name c1 = Inr n1 \<and> has_failure_taint n1 \<and> prefix (taint_list n) (taint_list n1)) \<and>
    (fault_node f2 = fault_node f \<and> done_at \<le> now2 \<and> now2 < done_at + cooldown_duration ctl \<longrightarrow>
      handle_irreversible_fault api now2 done2 f2 (ctl1, c1) = (Inr (), ctl1, c1))"
proof -
  obtain u c2 where t: "taint_node api (fault_node f) f c = (Inr u, c2)"
    using assms(3-5) by (auto simp: handle_irreversible_fault_def Let_def split: prod.splits sum.splits)
  then have c1: "c1 = snd (evict_pods_on_node api (fault_node f) c2)"
    and ctl1: "ctl1 = ctl\<lparr>processed_nodes := hm_insert (fault_node f) done_at (processed_nodes ctl)\<rparr>"
    using assms(3-5) by (auto simp: handle_irreversible_fault_def Let_def split: prod.splits)
  obtain name n n1 where "map_node_id_to_k8s_name api (fault_node f) c = Inr name" "get_node api name c = Inr n"
    "get_node api name c2 = Inr n1" "has_failure_taint n1" "prefix (taint_list n) (taint_list n1)"
    using taint_node_ok[OF assms(1) t] .
  moreover have "handle_irreversible_fault api now2 done2 f2 (ctl1, c1) = (Inr (), ctl1, c1)"
    if "fault_node f2 = fault_node f" "done_at \<le> now2" "now2 < done_at + cooldown_duration ctl"
    using that assms(3) by (auto simp add: handle_irreversible_fault_def in_cooldown_def ctl1 hm_simps saturating_sub_def Let_def)
  ultimately show ?thesis by (auto simp: c1 evict_keeps_nodes[OF assms(2)])
qed

text \<open>A cluster for the witnesses: its nodes by name, its pods, its requests and their status.\<close>

record small_cluster =
  sc_nodes :: "(string, taint list) hashmap"
  sc_pods :: "pod list"
  sc_requests :: "remediation_request list"
  sc_status :: "(string, string) hashmap"

definition small_node :: "string \<Rightarrow> taint list \<Rightarrow> k8s_node" where
  "small_node name ts = \<lparr>k8s_name = Some name, k8s_labels = None, k8s_taints = Some ts\<rparr>"

definition small_api :: "small_cluster k8s_api" where
  "small_api =
     \<lparr>get_node = (\<lambda>name c. case hm_get (sc_nodes c) name of Some ts \<Rightarrow> Inr (small_node name ts) | None \<Rightarrow> Inl ''not found''),
      list_nodes = (\<lambda>c. Inr (map (\<lambda>(name, ts). small_node name ts) (sc_nodes c))),
      patch_node = (\<lambda>pp kind name body c. (Inr (), c\<lparr>sc_nodes := hm_insert name (np_taints body) (sc_nodes c)\<rparr>)),
      list_pods = (\<lambda>c. Inr (sc_pods c)),
      create_eviction = (\<lambda>ns name c. (Inr (), c\<lparr>sc_pods := filter (\<lambda>p. pod_name p \<noteq> Some name) (sc_pods c)\<rparr>)),
      list_requests = (\<lambda>limit c. Inr (take limit (sc_requests c))),
      patch_status = (\<lambda>pp kind name phase msg c. (Inr (), c\<lparr>sc_status := hm_insert name phase (sc_status c)\<rparr>))\<rparr>"

lemma small_api_sane: "taints_applied small_api" "eviction_keeps_nodes small_api"
  by (simp_all add: taints_applied_def patch_taints_def eviction_keeps_nodes_def small_api_def hm_simps small_node_def)

definition gpu_pod :: pod where
  "gpu_pod = \<lparr>pod_name = Some ''train-0'', pod_namespace = None, pod_node_name = Some ''node-a'', pod_owner_kinds = Some [''Job'']\<rparr>"

definition small_start :: small_cluster where
  "small_start = \<lparr>sc_nodes = [(''node-a'', [])], sc_pods = [gpu_pod], sc_requests = [], sc_status = []\<rparr>"

theorem fault_isolates_witness:
  "\<exists>ctl1 c1 n1. handle_irreversible_fault small_api 10 20 (RdmaLinkDown ''node-a'' ''mlx5_0'') (controller_new True, small_start) =
       (Inr (), ctl1, c1) \<and> get_node small_api ''node-a'' c1 = Inr n1 \<and> has_failure_taint n1 \<and>
     handle_irreversible_fault small_api 299999 300000 (OtherHardwareFailure ''node-a'' ''ecc'') (ctl1, c1) = (Inr (), ctl1, c1)"
proof -
  let ?f = "RdmaLinkDown ''node-a'' ''mlx5_0''"
  let ?h = "handle_irreversible_fault small_api 10 20 ?f (controller_new True, small_start)"
  obtain r ctl1 c1 where h: "?h = (r, ctl1, c1)" by (cases ?h)
  have "fst ?h = Inr ()" by code_simp
  with h have h': "?h = (Inr (), ctl1, c1)" by simp
  have "map_node_id_to_k8s_name small_api (fault_node ?f) small_start = Inr ''node-a''" by code_simp
  moreover have "ctl_enabled (controller_new True)" "\<not> in_cooldown 10 (fault_node ?f) (controller_new True)"
    "cooldown_duration (controller_new True) = 300000" by code_simp+
  ultimately show ?thesis
    using h' fault_isolates[OF small_api_sane, of "controller_new True" 10 ?f 20 small_start ctl1 c1
        "OtherHardwareFailure ''node-a'' ''ecc''" 299999 300000]
    by auto
qed

section \<open>Eviction\<close>

definition evictable :: "string \<Rightarrow> pod \<Rightarrow> bool" where
  "evictable name p \<longleftrightarrow>
     pod_node_name p = Some name \<and>
     \<not> (case pod_owner_kinds p of Some ks \<Rightarrow> list_ex (\<lambda>k. k = ''DaemonSet'' \<or> k = ''Node'') ks | None \<Rightarrow> False)"

text \<open>The reference: one eviction call per pod, in order, counting those that succeed.\<close>

definition evict_call :: "'c k8s_api \<Rightarrow> pod \<Rightarrow> nat \<times> 'c \<Rightarrow> nat \<times> 'c" where
  "evict_call api p s =
     (let (r, c1) = create_eviction api (case pod_namespace p of Some ns \<Rightarrow> ns | None \<Rightarrow> ''default'')
                      (the (pod_name p)) (snd s)
      in (if isl r then fst s else fst s + 1, c1))"

lemma evict_loop_calls:
  assumes "list_all (\<lambda>p. pod_name p \<noteq> None) (filter (evictable name) ps)"
  shows "evict_loop api (filter (\<lambda>p. pod_node_name p = Some name) ps) k c =
    (case fold (evict_call api) (filter (evictable name) ps) (k, c) of (n, c1) \<Rightarrow> (Inr n, c1))"
  using assms
proof (induction ps arbitrary: k c)
  case (Cons p ps)
  show ?case
  proof (cases "evictable name p")
    case True
    then obtain pn where "pod_name p = Some pn" using Cons.prems by auto
    moreover obtain r c1 where "create_eviction api (case pod_namespace p of Some ns \<Rightarrow> ns | None \<Rightarrow> ''default'') pn c = (r, c1)"
      by (rule prod.exhaust)
    ultimately show ?thesis using True Cons
      by (cases r) (simp_all add: evictable_def[of name p] evict_call_def[of api p] Let_def)
  next
    case False
    with Cons show ?thesis by (auto simp: evictable_def[of name p])
  qed
qed simp

text \<open>
  \<^bold>\<open>C20.\<close>  Eviction is confined: \<open>evict_pods_on_node\<close> makes exactly one eviction call for each pod scheduled on
  the mapped node that no DaemonSet and no node owns, in listing order, and none for any other pod;
  calls that fail do not stop it and the number returned is the number that succeeded.
\<close>

theorem evict_exact:
  assumes "map_node_id_to_k8s_name api nid c = Inr name" "list_pods api c = Inr pods"
    and "list_all (\<lambda>p. pod_name p \<noteq> None) (filter (evictable name) pods)"
  shows "evict_pods_on_node api nid c =
    (case fold (evict_call api) (filter (evictable name) pods) (0, c) of (n, c1) \<Rightarrow> (Inr n, c1))"
  by (simp add: evict_pods_on_node_def assms(1,2) evict_loop_calls[OF assms(3)])

theorem evict_exact_witness:
  "evict_pods_on_node small_api ''node-a''
     (small_start\<lparr>sc_pods := [gpu_pod, gpu_pod\<lparr>pod_owner_kinds := Some [''DaemonSet'']\<rparr>]\<rparr>) =
   (case fold (evict_call small_api) [gpu_pod] (0, small_start\<lparr>sc_pods := [gpu_pod, gpu_pod\<lparr>pod_owner_kinds := Some [''DaemonSet'']\<rparr>]\<rparr>)
    of (n, c1) \<Rightarrow> (Inr n, c1))"
proof -
  let ?c = "small_start\<lparr>sc_pods := [gpu_pod, gpu_pod\<lparr>pod_owner_kinds := Some [''DaemonSet'']\<rparr>]\<rparr>"
  have "map_node_id_to_k8s_name small_api ''node-a'' ?c = Inr ''node-a''" by code_simp
  moreover have "list_pods small_api ?c = Inr [gpu_pod, gpu_pod\<lparr>pod_owner_kinds := Some [''DaemonSet'']\<rparr>]"
    by (simp add: small_api_def)
  moreover have "evictable ''node-a'' gpu_pod" "pod_name gpu_pod \<noteq> None"
    "\<not> evictable ''node-a'' (gpu_pod\<lparr>pod_owner_kinds := Some [''DaemonSet'']\<rparr>)"
    by (simp_all add: evictable_def gpu_pod_def)
  ultimately show ?thesis
    using evict_exact[of small_api "''node-a''" ?c "''node-a''" "[gpu_pod, gpu_pod\<lparr>pod_owner_kinds := Some [''DaemonSet'']\<rparr>]"]
    by simp
qed

section \<open>The operator\<close>

text \<open>
  What is due for a request: without a node, no action and the verdict Failed; with a node, its action
  once, after the patch to Running, and the verdict of that action.
\<close>

definition request_target :: "remediation_request \<Rightarrow> (request_spec \<times> string) option" where
  "request_target r =
     (case req_spec r of
        Some sp \<Rightarrow> (case spec_node_id sp of Some nid \<Rightarrow> if nid = [] then None else Some (sp, nid) | None \<Rightarrow> None)
      | None \<Rightarrow> None)"

definition request_action :: "'c k8s_api \<Rightarrow> request_spec \<Rightarrow> string \<Rightarrow> 'c \<Rightarrow> (string + string) \<times> 'c" where
  "request_action api sp nid c =
     execute_operator_action api nid (case spec_action sp of Some a \<Rightarrow> a | None \<Rightarrow> ''taint_evict'')
       (case spec_reason sp of Some x \<Rightarrow> x | None \<Rightarrow> ''operator request'') (spec_dry_run sp = Some True) c"

definition verdict :: "'c k8s_api \<Rightarrow> remediation_request \<Rightarrow> string \<Rightarrow> 'c \<Rightarrow> string \<times> 'c" where
  "verdict api r name c =
     (case request_target r of
        None \<Rightarrow> (''Failed'', c)
      | Some (sp, nid) \<Rightarrow>
          (let (res, c1) = request_action api sp nid (snd (patch_request_status api name ''Running'' None c)) in
           (if isl res then ''Failed'' else ''Succeeded'', c1)))"

lemma operator_request_verdict:
  assumes "req_name r = Some name" "name \<noteq> []"
    and "\<not> skips_phase (case req_phase r of Some p \<Rightarrow> p | None \<Rightarrow> ''Pending'')"
  shows "\<exists>m. operator_request api r c =
    snd (patch_request_status api name (fst (verdict api r name c)) (Some m) (snd (verdict api r name c)))"
proof (cases "req_spec r")
  case (Some sp)
  have dry: "(case spec_dry_run sp of Some b \<Rightarrow> b | None \<Rightarrow> False) = (spec_dry_run sp = Some True)"
    by (auto split: option.splits)
  show ?thesis
    using assms Some by (cases "spec_node_id sp")
      (auto simp: operator_request_def verdict_def request_target_def request_action_def dry Let_def split: prod.splits sum.splits)
qed (use assms in \<open>auto simp: operator_request_def verdict_def request_target_def Let_def\<close>)

text \<open>
  \<^bold>\<open>C21.\<close>  The operator settles what is pending and touches nothing else.  A request whose phase is
  Succeeded, Failed or Running is left alone.  For any other named request the last call is one status
  patch with the verdict, Succeeded exactly when its action ran and succeeded and Failed otherwise;
  nothing but that action and the patch to Running comes before it, and of a dry run only that patch.  If
  the API server accepts the last patch, and stores what it accepts, the request has its verdict.
\<close>

theorem operator_settles:
  assumes "\<forall>pp kind n p m c c'. patch_status api pp kind n p m c = (Inr (), c') \<longrightarrow> status c' n = Some (p :: string)"
  shows "if skips_phase (case req_phase r of Some p \<Rightarrow> p | None \<Rightarrow> ''Pending'') then operator_request api r c = c
    else \<forall>name. req_name r = Some name \<and> name \<noteq> [] \<longrightarrow>
      (let (p, c1) = verdict api r name c in
        p \<in> {''Succeeded'', ''Failed''} \<and>
        (\<forall>sp nid. request_target r = Some (sp, nid) \<and> spec_dry_run sp = Some True \<longrightarrow>
          p = ''Succeeded'' \<and> c1 = snd (patch_request_status api name ''Running'' None c)) \<and>
        (\<exists>m. operator_request api r c = snd (patch_request_status api name p (Some m) c1) \<and>
          (fst (patch_request_status api name p (Some m) c1) = Inr () \<longrightarrow> status (operator_request api r c) name = Some p)))"
proof -
  let ?skip = "skips_phase (case req_phase r of Some p \<Rightarrow> p | None \<Rightarrow> ''Pending'')"
  have stored: "fst (patch_request_status api name p m c2) = Inr () \<Longrightarrow> status (snd (patch_request_status api name p m c2)) name = Some p"
    for name p m c2
    using assms by (cases "patch_request_status api name p m c2") (simp add: patch_request_status_def)
  have "operator_request api r c = c" if ?skip using that by (simp add: operator_request_def Let_def)
  moreover have "fst (verdict api r name c) \<in> {''Succeeded'', ''Failed''}" for name
    by (auto simp: verdict_def Let_def split: option.splits prod.splits)
  moreover have "verdict api r name c = (''Succeeded'', snd (patch_request_status api name ''Running'' None c))"
    if "request_target r = Some (sp, nid)" "spec_dry_run sp = Some True" for name sp nid
    using that by (simp add: verdict_def request_action_def execute_operator_action_def)
  moreover have "\<exists>m. operator_request api r c = snd (patch_request_status api name p (Some m) c1) \<and>
      (fst (patch_request_status api name p (Some m) c1) = Inr () \<longrightarrow> status (operator_request api r c) name = Some p)"
    if "\<not> ?skip" "req_name r = Some name" "name \<noteq> []" "verdict api r name c = (p, c1)" for name p c1
    using operator_request_verdict[OF that(2,3,1), of api c] that(4) stored by auto
  ultimately show ?thesis by (auto simp: Let_def case_prod_unfold)
qed

definition dry_request :: remediation_request where
  "dry_request = \<lparr>req_name = Some ''r1'', req_phase = None, req_spec = Some
     \<lparr>spec_node_id = Some ''node-a'', spec_action = None, spec_reason = None, spec_dry_run = Some True\<rparr>\<rparr>"

theorem operator_settles_witness:
  "hm_get (sc_status (operator_request small_api dry_request small_start)) ''r1'' = Some ''Succeeded''"
proof -
  have "\<forall>pp kind n p m c c'. patch_status small_api pp kind n p m c = (Inr (), c') \<longrightarrow> (\<lambda>c. hm_get (sc_status c)) c' n = Some p"
    by (auto simp: small_api_def hm_simps)
  note settles = operator_settles[OF this, of dry_request small_start]
  have d: "\<not> skips_phase (case req_phase dry_request of Some p \<Rightarrow> p | None \<Rightarrow> ''Pending'')"
    "req_name dry_request = Some ''r1''" "''r1'' \<noteq> []" "request_target dry_request \<noteq> None"
    "fst (verdict small_api dry_request ''r1'' small_start) = ''Succeeded''" by code_simp+
  have "fst (patch_request_status small_api n p m c) = Inr ()" for n p m c
    by (simp add: patch_request_status_def small_api_def)
  with settles d show ?thesis by (auto simp: case_prod_unfold Let_def)
qed

text \<open>
  The status patches of the code are forced merges.  The client library takes the force flag for apply
  patches only and refuses the request otherwise, and the operator ignores that: with such a client no
  phase is ever stored, and a request that stays listed is carried out again in every turn.
\<close>

definition force_needs_apply :: "'c k8s_api \<Rightarrow> bool" where
  "force_needs_apply api \<longleftrightarrow>
     (\<forall>pp kind n p m c. patch_force pp \<and> kind \<noteq> PatchApply \<longrightarrow> (\<exists>e. patch_status api pp kind n p m c = (Inl e, c)))"

theorem operator_repeats:
  assumes "force_needs_apply api" "\<forall>c. list_requests api 200 c = Inr [r]" "ctl_enabled ctl"
    and "req_name r = Some name" "name \<noteq> []" "request_target r = Some (sp, nid)"
    and "\<not> skips_phase (case req_phase r of Some p \<Rightarrow> p | None \<Rightarrow> ''Pending'')"
  shows "run_operator_loop turns api ctl c = ((\<lambda>c. snd (request_action api sp nid c)) ^^ turns) c"
proof -
  have patch: "snd (patch_request_status api n p m c) = c" for n p m c
  proof -
    have "\<exists>e. patch_request_status api n p m c = (Inl e, c)"
      using assms(1) by (simp add: force_needs_apply_def patch_request_status_def status_params_def)
    then show ?thesis by auto
  qed
  have "operator_request api r c = snd (request_action api sp nid c)" for c
    using operator_request_verdict[OF assms(4,5,7), of api c]
    by (simp add: patch verdict_def assms(6) case_prod_unfold Let_def)
  then have "operator_pass api c = snd (request_action api sp nid c)" for c
    using assms(2) by (simp add: operator_pass_def)
  then show ?thesis using assms(3) by (induction turns arbitrary: c) (simp_all add: funpow_Suc_right del: funpow.simps(2))
qed

text \<open>
  Requests beyond the first page starve: the operator lists at most 200 requests and never asks for
  the next page, so when the first 200 are settled it does nothing, turn after turn, whatever is
  pending behind them.
\<close>

theorem operator_starves:
  assumes "list_requests api 200 c = Inr rs"
    and "list_all (\<lambda>r. skips_phase (case req_phase r of Some p \<Rightarrow> p | None \<Rightarrow> ''Pending'')) rs"
  shows "run_operator_loop turns api ctl c = c"
proof -
  have "operator_request api r c = c"
    if "skips_phase (case req_phase r of Some p \<Rightarrow> p | None \<Rightarrow> ''Pending'')" for r
    using that by (simp add: operator_request_def Let_def)
  with assms(2) have "fold (operator_request api) rs c = c" by (induction rs) simp_all
  then have "operator_pass api c = c" by (simp add: operator_pass_def assms(1))
  then show ?thesis by (induction turns) simp_all
qed

definition crowded :: small_cluster where
  "crowded = small_start\<lparr>sc_requests := replicate 200 (dry_request\<lparr>req_phase := Some ''Failed''\<rparr>) @ [dry_request]\<rparr>"

theorem operator_starves_witness:
  "run_operator_loop 3 small_api (controller_new True) crowded = crowded \<and> dry_request \<in> set (sc_requests crowded)"
proof -
  have "list_requests small_api 200 crowded = Inr (replicate 200 (dry_request\<lparr>req_phase := Some ''Failed''\<rparr>))"
    by (simp add: small_api_def crowded_def)
  from operator_starves[OF this, of 3 "controller_new True"] show ?thesis
    by (simp add: skips_phase_def list_all_iff crowded_def)
qed

section \<open>The wrong node\<close>

text \<open>
  A machine without a Kubernetes node of its name can cost another one: when no node has the
  machine's name and no earlier node matches, the first node whose name merely contains it is chosen
  and tainted, so a fault of node-1 isolates node-10.
\<close>

theorem substring_node_tainted:
  assumes "isl (get_node api nid c)" "list_nodes api c = Inr (n # ns)" "k8s_name n = Some name" "contains name nid"
  shows "taint_node api nid fault c =
    (case get_node api name c of
       Inl e \<Rightarrow> (Inl e, c)
     | Inr m \<Rightarrow> if has_failure_taint m then (Inr (), c)
         else patch_taints api name (taint_list m @ [\<lparr>taint_key = failure_key,
           taint_value = Some (fault_taint_value fault), taint_effect = ''NoSchedule''\<rparr>]) c)"
proof -
  have "map_node_id_to_k8s_name api nid c = Inr name"
    using assms by (auto simp: map_node_id_to_k8s_name_def Let_def split: option.splits)
  then show ?thesis
    by (auto simp: taint_node_def has_failure_taint_def taint_list_def Let_def split: sum.splits option.splits)
qed

theorem substring_node_tainted_witness:
  "hm_get (sc_nodes (snd (taint_node small_api ''node-1'' (OtherHardwareFailure ''node-1'' ''ecc error'')
     (small_start\<lparr>sc_nodes := [(''node-10'', [])]\<rparr>)))) ''node-10'' =
   Some [\<lparr>taint_key = failure_key, taint_value = Some ''hardware-failure:ecc-error'', taint_effect = ''NoSchedule''\<rparr>]"
proof -
  let ?c = "small_start\<lparr>sc_nodes := [(''node-10'', [])]\<rparr>"
  have "isl (get_node small_api ''node-1'' ?c)" "contains ''node-10'' ''node-1''" by code_simp+
  moreover have "list_nodes small_api ?c = Inr [small_node ''node-10'' []]"
    "get_node small_api ''node-10'' ?c = Inr (small_node ''node-10'' [])"
    by (simp_all add: small_api_def hm_get_def)
  moreover have "dashed ''ecc error'' = ''ecc-error''" by code_simp
  ultimately show ?thesis
    using substring_node_tainted[of small_api "''node-1''" ?c "small_node ''node-10'' []" "[]" "''node-10''"
        "OtherHardwareFailure ''node-1'' ''ecc error''"]
    by (simp add: small_node_def patch_taints_def has_failure_taint_def taint_list_def) (simp add: small_api_def hm_simps)
qed

end
