(* ===== verification/Matcher.thy ===== *)
theory Matcher
  imports Graph
begin

text \<open>
  \<^bold>\<open>core/src/rules/rule.rs\<close> and \<^bold>\<open>core/src/rules/matcher.rs\<close>: rules, their normalisation from the wire
  form, and the evaluation of their conditions against the events and a snapshot of the graph.
\<close>

section \<open>Rules\<close>

datatype comparison_op = Gt | Lt | EqOp | Gte | Lte | Ne | Contains

datatype value_type = Numeric | StringValue | Auto

record metric_condition =
  mc_key :: string
  mc_op :: comparison_op
  mc_target :: string
  mc_value_type :: value_type

datatype condition =
    EventCond string "string option" "string option" "f64 option"
  | GraphCond string "string option" "string option"
  | MetricCond "string option" "string option" "metric_condition list"
  | SignalCond string "string option" comparison_op string value_type
  | AnyCond "condition list"
  | AllCond "condition list"

record root_cause_pattern =
  rc_primary :: string
  rc_secondary :: "string list option"

record solution_step =
  sol_step :: nat
  sol_action :: string
  sol_command :: "string option"
  sol_manual :: bool

record applicability =
  min_confidence :: f64
  required_events :: "string list option"

record rule =
  rule_id :: "string option"
  rule_name :: string
  rule_scene :: string
  rule_priority :: nat
  reason_codes :: "string list"
  rule_conditions :: "condition list"
  root_cause :: root_cause_pattern
  solution_steps :: "solution_step list"
  related_evidences :: "string list"
  rule_applicability :: applicability

datatype conditions_wire =
    NewConditions "condition list"
  | LegacyConditions "condition list option" "condition list option"

record rule_wire =
  rw_id :: "string option"
  rw_name :: string
  rw_scene :: string
  rw_priority :: nat
  rw_reason_codes :: "string list"
  rw_conditions :: conditions_wire
  rw_root_cause :: root_cause_pattern
  rw_solution_steps :: "solution_step list"
  rw_related_evidences :: "string list"
  rw_applicability :: applicability

datatype legacy_syntax_status = NoLegacy | Migrated

text \<open>The two refusals of \<open>normalize\<close>, as UTF-8 bytes.\<close>

definition legacy_both :: string where
  "legacy_both =
     ''legacy conditions '' @
     [CHR 0xE4, CHR 0xB8, CHR 0x8D, CHR 0xE8, CHR 0x83, CHR 0xBD, CHR 0xE5, CHR 0x90, CHR 0x8C, CHR
      0xE6, CHR 0x97, CHR 0xB6, CHR 0xE5, CHR 0x8C, CHR 0x85, CHR 0xE5, CHR 0x90, CHR 0xAB] @
     '' all '' @
     [CHR 0xE5, CHR 0x92, CHR 0x8C] @
     '' any''"

definition legacy_neither :: string where
  "legacy_neither =
     ''legacy conditions '' @
     [CHR 0xE5, CHR 0xBF, CHR 0x85, CHR 0xE9, CHR 0xA1, CHR 0xBB, CHR 0xE5, CHR 0x8C, CHR 0x85, CHR
      0xE5, CHR 0x90, CHR 0xAB] @
     '' all '' @
     [CHR 0xE6, CHR 0x88, CHR 0x96] @
     '' any''"

definition normalize_wire :: "rule_wire \<Rightarrow> string + (rule \<times> legacy_syntax_status)" where
  "normalize_wire w =
     (let mk = (\<lambda>cs. \<lparr>rule_id = rw_id w, rule_name = rw_name w, rule_scene = rw_scene w,
                 rule_priority = rw_priority w, reason_codes = rw_reason_codes w, rule_conditions = cs,
                 root_cause = rw_root_cause w, solution_steps = rw_solution_steps w,
                 related_evidences = rw_related_evidences w, rule_applicability = rw_applicability w\<rparr>) in
      case rw_conditions w of
        NewConditions v \<Rightarrow> Inr (mk v, NoLegacy)
      | LegacyConditions (Some cs) None \<Rightarrow> Inr (mk [AllCond cs], Migrated)
      | LegacyConditions None (Some cs) \<Rightarrow> Inr (mk [AnyCond cs], Migrated)
      | LegacyConditions (Some _) (Some _) \<Rightarrow> Inl legacy_both
      | LegacyConditions None None \<Rightarrow> Inl legacy_neither)"

section \<open>Patterns\<close>

text \<open>The loop over the parts of a pattern, with its index and cursor.\<close>

fun match_parts :: "string \<Rightarrow> bool \<Rightarrow> nat \<Rightarrow> string list \<Rightarrow> nat \<Rightarrow> bool" where
  "match_parts txt anchored_start idx [] cursor = True"
| "match_parts txt anchored_start idx (part # parts) cursor =
     (if idx = 0 \<and> anchored_start then
        (if \<not> starts_with (drop cursor txt) part then False
         else match_parts txt anchored_start (idx + 1) parts (cursor + length part))
      else (case find_str (drop cursor txt) part of
              Some found \<Rightarrow> match_parts txt anchored_start (idx + 1) parts (cursor + (found + length part))
            | None \<Rightarrow> False))"

definition matches_single_pattern :: "string \<Rightarrow> string \<Rightarrow> bool" where
  "matches_single_pattern txt pattern =
     (if pattern = [] then txt = []
      else if pattern = ''*'' then True
      else if \<not> contains pattern ''*'' then txt = pattern
      else (let anchored_start = \<not> starts_with pattern ''*'';
                anchored_end = \<not> ends_with pattern ''*'';
                parts = filter (\<lambda>p. p \<noteq> []) (split_char (CHR ''*'') pattern) in
            if parts = [] then True
            else if \<not> match_parts txt anchored_start 0 parts 0 then False
            else if anchored_end then ends_with txt (last parts)
            else True))"

definition matches_pattern :: "string \<Rightarrow> string \<Rightarrow> bool" where
  "matches_pattern txt pattern =
     list_ex (\<lambda>p. matches_single_pattern txt (trim p)) (split_char (CHR ''|'') pattern)"

definition matches_value_pattern :: "string \<Rightarrow> string \<Rightarrow> bool" where
  "matches_value_pattern txt pattern =
     list_ex (\<lambda>p. p \<noteq> [] \<and> contains txt p) (map trim (split_char (CHR ''|'') pattern))"

section \<open>Comparing values\<close>

text \<open>The literal \<open>0.001\<close>.\<close>

definition eps :: f64 where
  "eps = round_f64 False (1 / 1000)"

fun compare_numeric :: "string \<Rightarrow> string \<Rightarrow> comparison_op \<Rightarrow> f64 \<Rightarrow> f64 \<Rightarrow> bool" where
  "compare_numeric actual_str target Gt a t = f64_lt t a"
| "compare_numeric actual_str target Lt a t = f64_lt a t"
| "compare_numeric actual_str target EqOp a t = f64_lt (f64_abs (f64_sub a t)) eps"
| "compare_numeric actual_str target Gte a t = f64_le t a"
| "compare_numeric actual_str target Lte a t = f64_le a t"
| "compare_numeric actual_str target Ne a t = f64_le eps (f64_abs (f64_sub a t))"
| "compare_numeric actual_str target Contains a t = contains actual_str target"

fun compare_string :: "string \<Rightarrow> string \<Rightarrow> comparison_op \<Rightarrow> bool" where
  "compare_string actual_str target EqOp = (actual_str = target)"
| "compare_string actual_str target Ne = (actual_str \<noteq> target)"
| "compare_string actual_str target Contains = contains actual_str target"
| "compare_string actual_str target _ = False"

fun compare_value :: "string \<Rightarrow> string \<Rightarrow> comparison_op \<Rightarrow> value_type \<Rightarrow> bool" where
  "compare_value actual_str target op Numeric =
     (case parse_f64 actual_str of
        None \<Rightarrow> False
      | Some a \<Rightarrow>
          (case parse_f64 target of
             None \<Rightarrow> False
           | Some t \<Rightarrow> compare_numeric actual_str target op a t))"
| "compare_value actual_str target op StringValue = compare_string actual_str target op"
| "compare_value actual_str target op Auto =
     (case (parse_f64 actual_str, parse_f64 target) of
        (Some a, Some t) \<Rightarrow> compare_numeric actual_str target op a t
      | _ \<Rightarrow> compare_string actual_str target op)"

definition match_metric_condition :: "metric_condition \<Rightarrow> (string, string) hashmap \<Rightarrow> bool" where
  "match_metric_condition mc md =
     (case hm_get md (mc_key mc) of
        Some actual_str \<Rightarrow> compare_value actual_str (mc_target mc) (mc_op mc) (mc_value_type mc)
      | None \<Rightarrow> False)"

section \<open>Conditions\<close>

definition match_event :: "string \<Rightarrow> string option \<Rightarrow> string option \<Rightarrow> f64 option \<Rightarrow> event \<Rightarrow> bool" where
  "match_event ty entity_id_pattern value_pattern value_threshold e =
     (if event_type_display (ev_type e) \<noteq> ty then False
      else if (case entity_id_pattern of Some p \<Rightarrow> \<not> matches_pattern (ev_entity_id e) p | None \<Rightarrow> False) then False
      else if (case value_pattern of Some p \<Rightarrow> \<not> matches_value_pattern (ev_value e) p | None \<Rightarrow> False) then False
      else (case value_threshold of
              Some threshold \<Rightarrow>
                (case parse_f64 (ev_value e) of
                   Some v \<Rightarrow> if f64_lt v threshold then False else True
                 | None \<Rightarrow> False)
            | None \<Rightarrow> True))"

definition match_edge :: "string \<Rightarrow> string option \<Rightarrow> string option \<Rightarrow> edge \<Rightarrow> bool" where
  "match_edge ty from_pattern to_pattern ed =
     (if edge_type_name (edge_type ed) \<noteq> ty then False
      else if (case from_pattern of Some p \<Rightarrow> \<not> matches_pattern (edge_from ed) p | None \<Rightarrow> False) then False
      else if (case to_pattern of Some p \<Rightarrow> \<not> matches_pattern (edge_to ed) p | None \<Rightarrow> False) then False
      else True)"

definition node_type_name :: "node_type \<Rightarrow> string" where
  "node_type_name t =
     (case t of ProcessNode \<Rightarrow> ''process'' | ResourceNode \<Rightarrow> ''resource'' | ErrorNode \<Rightarrow> ''error'')"

definition match_node :: "string option \<Rightarrow> string option \<Rightarrow> metric_condition list \<Rightarrow> node \<Rightarrow> bool" where
  "match_node nt entity_id_pattern metrics n =
     (if (case nt of Some t \<Rightarrow> node_type_name (node_type n) \<noteq> t | None \<Rightarrow> False) then False
      else if (case entity_id_pattern of Some p \<Rightarrow> \<not> matches_pattern (node_id n) p | None \<Rightarrow> False) then False
      else list_all (\<lambda>mc. match_metric_condition mc (metadata n)) metrics)"

definition match_signal_node ::
  "string \<Rightarrow> string option \<Rightarrow> comparison_op \<Rightarrow> string \<Rightarrow> value_type \<Rightarrow> node \<Rightarrow> bool" where
  "match_signal_node pre entity_id_pattern op target vt n =
     (let entity_part = (case strip_prefix (node_id n) pre of Some s \<Rightarrow> s | None \<Rightarrow> []) in
      if (case entity_id_pattern of Some p \<Rightarrow> \<not> matches_pattern entity_part p | None \<Rightarrow> False) then False
      else (case hm_get (metadata n) ''value'' of
              Some actual \<Rightarrow> compare_value actual target op vt
            | None \<Rightarrow> False))"

definition match_signal ::
  "string \<Rightarrow> string option \<Rightarrow> comparison_op \<Rightarrow> string \<Rightarrow> value_type \<Rightarrow> (string, node) hashmap \<Rightarrow> bool" where
  "match_signal sig entity_id_pattern op target vt ns =
     (let pre = ''signal::'' @ sig @ ''::'';
          candidates = filter (\<lambda>n. starts_with (node_id n) pre) (hm_values ns) in
      if candidates = [] then False
      else list_ex (match_signal_node pre entity_id_pattern op target vt)
             (rev (sort_key last_update candidates)))"

text \<open>The loops of \<open>Any\<close> and \<open>All\<close> return at the first match and the first failure.\<close>

fun match_condition_with_snapshot ::
  "condition \<Rightarrow> event list \<Rightarrow> edge list \<Rightarrow> (string, node) hashmap \<Rightarrow> bool" where
  "match_condition_with_snapshot (EventCond ty ep vp th) events es ns =
     list_ex (match_event ty ep vp th) events"
| "match_condition_with_snapshot (GraphCond ty fp tp) events es ns =
     list_ex (match_edge ty fp tp) es"
| "match_condition_with_snapshot (MetricCond nt ep metrics) events es ns =
     list_ex (match_node nt ep metrics) (hm_values ns)"
| "match_condition_with_snapshot (SignalCond sig ep op target vt) events es ns =
     match_signal sig ep op target vt ns"
| "match_condition_with_snapshot (AnyCond conditions) events es ns =
     list_ex (\<lambda>c. match_condition_with_snapshot c events es ns) conditions"
| "match_condition_with_snapshot (AllCond conditions) events es ns =
     list_all (\<lambda>c. match_condition_with_snapshot c events es ns) conditions"

definition match_condition :: "condition \<Rightarrow> event list \<Rightarrow> state_graph \<Rightarrow> bool" where
  "match_condition c events g =
     match_condition_with_snapshot c events (get_all_edges_async g) (get_nodes_async g)"

definition match_all_conditions :: "condition list \<Rightarrow> event list \<Rightarrow> state_graph \<Rightarrow> bool" where
  "match_all_conditions cs events g =
     list_all (\<lambda>c. match_condition_with_snapshot c events (get_all_edges_async g) (get_nodes_async g)) cs"

end
