(* ===== verification/Globs.thy ===== *)
theory Globs
  imports Matcher
begin

text \<open>
  The pattern matcher of the rules against a reference semantics: \<open>matches_single_pattern\<close> searches the
  parts of a pattern greedily from the left and then tests the end; the reference lets each star stand
  for any text.
\<close>

section \<open>Reference semantics\<close>

fun glob :: "string \<Rightarrow> string \<Rightarrow> bool" where
  "glob [] t = (t = [])"
| "glob (c # p) [] = (c = CHR ''*'' \<and> glob p [])"
| "glob (c # p) (d # t) =
     (if c = CHR ''*'' then glob p (d # t) \<or> glob (c # p) t else c = d \<and> glob p t)"

lemma glob_star: "glob (CHR ''*'' # p) t \<longleftrightarrow> (\<exists>u v. t = u @ v \<and> glob p v)"
proof (induction t)
  case (Cons d t)
  show ?case
    unfolding glob.simps(3) Cons.IH by (simp add: Cons_eq_append_conv) (metis append_Cons)
qed auto

lemma glob_plain: "CHR ''*'' \<notin> set p \<Longrightarrow> glob (p @ q) t \<longleftrightarrow> (\<exists>v. t = p @ v \<and> glob q v)"
proof (induction p arbitrary: t)
  case (Cons c p)
  then show ?case by (cases t) auto
qed simp

section \<open>Parts in order\<close>

text \<open>The parts occur in the text one after another; with the last one at the end.\<close>

fun in_order :: "string list \<Rightarrow> string \<Rightarrow> bool" where
  "in_order [] t = True"
| "in_order (p # ps) t = (\<exists>u v. t = u @ p @ v \<and> in_order ps v)"

fun in_order_end :: "string list \<Rightarrow> string \<Rightarrow> bool" where
  "in_order_end [] t = (t = [])"
| "in_order_end [p] t = ends_with t p"
| "in_order_end (p # ps) t = (\<exists>u v. t = u @ p @ v \<and> in_order_end ps v)"

lemma in_order_grow: "in_order ps v \<Longrightarrow> in_order ps (u @ v)"
  by (cases ps) (auto, metis append.assoc)

lemma in_order_end_grow: "in_order_end ps v \<Longrightarrow> ps \<noteq> [] \<Longrightarrow> in_order_end ps (u @ v)"
proof (cases "(ps, v)" rule: in_order_end.cases)
  case (3 p q ps' t)
  then show "in_order_end ps v \<Longrightarrow> ?thesis" by (auto, metis append.assoc)
qed (auto simp: ends_with_append_iff)

lemma ends_with_grow: "ends_with v l \<Longrightarrow> ends_with (u @ v) l"
  by (auto simp: ends_with_append_iff)

lemma in_order_last: "in_order ps t \<Longrightarrow> ps \<noteq> [] \<Longrightarrow> length (last ps) \<le> length t"
  by (induction ps arbitrary: t) (auto, fastforce)

lemma in_order_end_iff: "ps \<noteq> [] \<Longrightarrow> in_order_end ps t \<longleftrightarrow> in_order ps t \<and> ends_with t (last ps)"
proof (induction ps t rule: in_order_end.induct)
  case (2 p t)
  then show ?case by (auto simp: ends_with_append_iff) (metis append_Nil2)
next
  case (3 p q ps t)
  let ?l = "last (q # ps)"
  have tail: "ends_with v ?l" if "in_order (q # ps) v" "ends_with (u @ p @ v) ?l" for u v
  proof -
    have "suffix ?l (u @ p @ v)" "length ?l \<le> length v"
      using that in_order_last[OF that(1)] by (simp_all add: ends_with_suffix)
    then show ?thesis by (metis append.assoc ends_with_suffix suffixI suffix_length_suffix)
  qed
  have IH: "in_order_end (q # ps) v \<longleftrightarrow> in_order (q # ps) v \<and> ends_with v ?l" for v
    using 3 by simp
  have "in_order_end (p # q # ps) t \<longleftrightarrow> (\<exists>u v. t = u @ p @ v \<and> in_order (q # ps) v \<and> ends_with v ?l)"
    unfolding in_order_end.simps IH ..
  also have "\<dots> \<longleftrightarrow> (\<exists>u v. t = u @ p @ v \<and> in_order (q # ps) v) \<and> ends_with t ?l"
    using tail by (blast intro: ends_with_grow[of _ _ "_ @ _", unfolded append.assoc])
  finally show ?case by simp
qed simp

text \<open>The greedy search finds the parts in order exactly when they occur in order.\<close>

lemma find_first_enough:
  assumes "t = u @ p @ v" "in_order ps v"
  obtains i where "find_str t p = Some i" "in_order ps (drop (i + length p) t)"
proof -
  obtain i where i: "find_str t p = Some i" "i \<le> length u" using find_str_least[OF assms(1)] by auto
  have "drop (i + length p) t = drop (i + length p) (u @ p) @ v"
    using i assms(1) by simp
  then have "in_order ps (drop (i + length p) t)" using in_order_grow[OF assms(2)] by (simp del: drop_append)
  then show ?thesis using that[OF i(1)] by blast
qed

lemma match_parts_in_order:
  "0 < idx \<or> \<not> anch \<Longrightarrow> match_parts t anch idx ps cursor \<longleftrightarrow> in_order ps (drop cursor t)"
proof (induction ps arbitrary: idx cursor)
  case (Cons p ps)
  have IH: "match_parts t anch (Suc idx) ps (cursor + (i + length p)) \<longleftrightarrow> in_order ps (drop (i + length p) (drop cursor t))" for i
    using Cons.IH[of "Suc idx" "cursor + (i + length p)"] by (simp add: add_ac)
  have "in_order (p # ps) (drop cursor t) \<longleftrightarrow>
      (\<exists>i. find_str (drop cursor t) p = Some i \<and> in_order ps (drop (i + length p) (drop cursor t)))"
  proof
    assume "in_order (p # ps) (drop cursor t)"
    then show "\<exists>i. find_str (drop cursor t) p = Some i \<and> in_order ps (drop (i + length p) (drop cursor t))"
      by (auto elim: find_first_enough)
  next
    assume "\<exists>i. find_str (drop cursor t) p = Some i \<and> in_order ps (drop (i + length p) (drop cursor t))"
    then obtain i where i: "find_str (drop cursor t) p = Some i" "in_order ps (drop (i + length p) (drop cursor t))"
      by blast
    from find_str_SomeD[OF i(1)] obtain v where v: "drop cursor t = take i (drop cursor t) @ p @ v"
      "i + length p \<le> length (drop cursor t)" by blast
    then have "drop (i + length p) (drop cursor t) = v"
      by (metis add_leD1 append.assoc append_eq_conv_conj length_append length_take min.absorb2)
    with i(2) v(1) show "in_order (p # ps) (drop cursor t)" by auto
  qed
  then show ?case using Cons.prems IH by (auto split: option.splits)
qed simp

lemma match_parts_anchored:
  "match_parts t True 0 (p # ps) 0 \<longleftrightarrow> (\<exists>w. t = p @ w \<and> in_order ps w)"
  by (auto simp: match_parts_in_order starts_with_append_iff)

section \<open>Segments of a pattern\<close>

fun segments :: "string list \<Rightarrow> string \<Rightarrow> bool" where
  "segments [] t = False"
| "segments [s] t = (t = s)"
| "segments (s # ss) t = (\<exists>u v. t = s @ u @ v \<and> segments ss v)"

definition floating :: "string list \<Rightarrow> string \<Rightarrow> bool" where
  "floating ss t \<longleftrightarrow> (\<exists>u v. t = u @ v \<and> segments ss v)"

lemma segments_Cons: "ss \<noteq> [] \<Longrightarrow> segments (s # ss) t \<longleftrightarrow> (\<exists>w. t = s @ w \<and> floating ss w)"
  by (cases ss) (auto simp: floating_def)

lemma floating_Cons: "ss \<noteq> [] \<Longrightarrow> floating (s # ss) t \<longleftrightarrow> (\<exists>u w. t = u @ s @ w \<and> floating ss w)"
  by (auto simp: floating_def[of "s # ss"] segments_Cons)

lemma glob_segments:
  "ss \<noteq> [] \<Longrightarrow> \<forall>s\<in>set ss. CHR ''*'' \<notin> set s \<Longrightarrow> glob (join_char (CHR ''*'') ss) t \<longleftrightarrow> segments ss t"
proof (induction ss t rule: segments.induct)
  case (2 s t)
  then show ?case using glob_plain[of s "[]" t] by auto
next
  case (3 s q ss t)
  have "glob (join_char (CHR ''*'') (s # q # ss)) t \<longleftrightarrow>
      (\<exists>w. t = s @ w \<and> (\<exists>u v. w = u @ v \<and> glob (join_char (CHR ''*'') (q # ss)) v))"
    using "3.prems" by (simp only: join_char_Cons list.simps not_False_eq_True glob_plain glob_star list.set ball_simps)
  then show ?case using 3 by auto
qed simp

lemma floating_parts:
  assumes "ss \<noteq> []"
  shows "floating ss t \<longleftrightarrow>
    (if last ss = [] then in_order (filter (\<lambda>p. p \<noteq> []) ss) t else in_order_end (filter (\<lambda>p. p \<noteq> []) ss) t)"
  using assms
proof (induction ss arbitrary: t)
  case (Cons s ss)
  let ?f = "filter (\<lambda>p. p \<noteq> []) ss"
  show ?case
  proof (cases "ss = []")
    case True
    then show ?thesis by (auto simp: floating_def ends_with_append_iff)
  next
    case False
    note IH = Cons.IH[OF False] and step = floating_Cons[OF False]
    have ne: "?f \<noteq> []" if "last ss \<noteq> []" using that False by (auto simp: filter_empty_conv)
    show ?thesis
    proof (cases "s = []")
      case True
      then show ?thesis using False ne in_order_grow[of ?f] in_order_end_grow[of ?f]
        by (auto simp: step IH)
    next
      case s: False
      then show ?thesis using False ne by (cases ?f) (auto simp: step IH)
    qed
  qed
qed simp

lemma join_char_ends: "ss \<noteq> [] \<Longrightarrow> \<exists>x. join_char c (s # ss) = x @ c # last ss"
proof (induction ss arbitrary: s)
  case (Cons q ss)
  show ?case
  proof (cases "ss = []")
    case False
    then obtain x where "join_char c (q # ss) = x @ c # last ss" using Cons.IH by blast
    then show ?thesis using False by (intro exI[of _ "s @ c # x"]) (simp add: join_char_Cons)
  qed (auto simp: join_char_Cons)
qed simp

section \<open>The matcher implements the reference\<close>

lemma split_star:
  assumes "contains pat ''*''"
  obtains s ss where "split_char (CHR ''*'') pat = s # ss" "ss \<noteq> []"
    "starts_with pat ''*'' \<longleftrightarrow> s = []" "ends_with pat ''*'' \<longleftrightarrow> last ss = []"
proof -
  obtain s ss where split: "split_char (CHR ''*'') pat = s # ss"
    by (cases "split_char (CHR ''*'') pat") auto
  have pat: "join_char (CHR ''*'') (s # ss) = pat" using join_split_char[of "CHR ''*''" pat] by (simp add: split)
  have plain: "CHR ''*'' \<notin> set x" if "x \<in> set (s # ss)" for x
    using split_char_no_sep[of x "CHR ''*''" pat] that by (simp add: split)
  have ss: "ss \<noteq> []"
    using assms pat plain by (cases ss) (auto simp: contains_iff)
  have "starts_with pat ''*'' \<longleftrightarrow> s = []"
    using plain[of s] ss pat[symmetric] by (cases s) (auto simp: join_char_Cons)
  moreover obtain x where "pat = x @ CHR ''*'' # last ss" using join_char_ends[OF ss] pat by metis
  moreover have "CHR ''*'' \<notin> set (last ss)" using plain[of "last ss"] ss by simp
  ultimately have "starts_with pat ''*'' \<longleftrightarrow> s = []" "ends_with pat ''*'' \<longleftrightarrow> last ss = []"
    by (cases "last ss" rule: rev_cases; auto simp: ends_with_append_iff)+
  then show ?thesis using that split ss by blast
qed

lemma last_filter_nonempty:
  assumes "ss \<noteq> []" "last ss \<noteq> []"
  shows "filter (\<lambda>p. p \<noteq> []) ss \<noteq> []" "last (filter (\<lambda>p. p \<noteq> []) ss) = last ss"
  using assms by (cases ss rule: rev_cases; simp)+

lemma matches_single_star:
  assumes "contains pat ''*''"
  shows "matches_single_pattern t pat \<longleftrightarrow> glob pat t"
proof -
  obtain s ss where split: "split_char (CHR ''*'') pat = s # ss" "ss \<noteq> []"
    "starts_with pat ''*'' \<longleftrightarrow> s = []" "ends_with pat ''*'' \<longleftrightarrow> last ss = []"
    using split_star[OF assms] .
  define f where "f = filter (\<lambda>p. p \<noteq> []) ss"
  have "glob pat t \<longleftrightarrow> segments (s # ss) t"
    using glob_segments[of "s # ss" t] split_char_no_sep[of _ "CHR ''*''" pat] join_split_char[of "CHR ''*''" pat]
    by (simp add: split(1))
  also have "\<dots> \<longleftrightarrow> (\<exists>w. t = s @ w \<and> (if last ss = [] then in_order f w else in_order_end f w))"
    using floating_parts[OF split(2)] by (simp add: segments_Cons[OF split(2)] f_def)
  finally have g: "glob pat t \<longleftrightarrow> (\<exists>w. t = s @ w \<and> (if last ss = [] then in_order f w else in_order_end f w))" .
  have f: "f \<noteq> []" "last f = last ss" if "last ss \<noteq> []"
    using last_filter_nonempty[OF split(2) that] by (simp_all add: f_def)
  have e: "(ends_with (s @ w) (last f) \<and> in_order f w) \<longleftrightarrow> in_order_end f w" if "last ss \<noteq> []" for w
  proof -
    have "ends_with (s @ w) (last f) \<Longrightarrow> in_order f w \<Longrightarrow> ends_with w (last f)"
      using in_order_last[of f w] f(1)[OF that] by (metis ends_with_suffix suffixI suffix_length_suffix)
    then show ?thesis using f(1)[OF that] by (auto simp: in_order_end_iff ends_with_grow)
  qed
  have ne: "pat \<noteq> []" using assms by (auto simp: contains_iff)
  let ?parts = "if s = [] then f else s # f"
  have m: "matches_single_pattern t pat \<longleftrightarrow> pat = ''*'' \<or> ?parts = [] \<or>
      (match_parts t (s \<noteq> []) 0 ?parts 0 \<and> (last ss = [] \<or> ends_with t (last ?parts)))"
    using ne assms unfolding matches_single_pattern_def Let_def split(1,3,4) by (simp add: f_def)
  show ?thesis
  proof (cases "s = []")
    case True
    have "f = []" if "pat = ''*''" using that split(1) by (auto simp: f_def)
    moreover have "last ss = []" if "f = []" using f(1) that by blast
    ultimately show ?thesis
      using True f in_order_end_iff[of f t] by (cases "f = []") (auto simp: m g match_parts_in_order)
  next
    case False
    then have "pat \<noteq> ''*''" using split(3) by auto
    with False have m': "matches_single_pattern t pat \<longleftrightarrow>
        (\<exists>w. t = s @ w \<and> in_order f w) \<and> (last ss = [] \<or> ends_with t (last (s # f)))"
      unfolding m by (simp only: match_parts_anchored if_False list.distinct not_False_eq_True)
         (simp add: match_parts_anchored)
    show ?thesis
    proof (cases "last ss = []")
      case l: False
      then show ?thesis unfolding m' g using e[OF l] f(1)[OF l] by auto
    qed (simp add: m' g)
  qed
qed

lemma matches_single_glob: "matches_single_pattern t pat \<longleftrightarrow> glob pat t"
proof (cases "contains pat ''*''")
  case False
  then have "CHR ''*'' \<notin> set pat" using in_set_conv_decomp[of "CHR ''*''" pat] by (auto simp: contains_iff)
  then have "glob pat t \<longleftrightarrow> t = pat" using glob_plain[of pat "[]" t] by auto
  then show ?thesis using False by (auto simp: matches_single_pattern_def contains_iff)
qed (rule matches_single_star)

text \<open>
  \<^bold>\<open>C9.\<close>  The wildcard matcher is complete and sound: \<open>matches_pattern\<close>, which searches the parts of each
  alternative greedily, accepts a text exactly when one of the alternatives separated by bars, trimmed,
  matches it with each star standing for any text.
\<close>

theorem matches_pattern_glob:
  "matches_pattern t pattern \<longleftrightarrow> (\<exists>alt. alt \<in> set (split_char (CHR ''|'') pattern) \<and> glob (trim alt) t)"
  by (auto simp: matches_pattern_def list_ex_iff matches_single_glob)

end
