(* ===== verification/Rule_Engine.thy ===== *)
theory Rule_Engine
  imports Globs "HOL-Library.Char_ord" "HOL-Library.List_Lexorder"
begin

text \<open>
  \<^bold>\<open>core/src/rules/mod.rs\<close>: loading the rule packs from a directory and matching them.  The file system
  is a tree, the YAML parser a parameter of the definitions that use it: it returns a rule in wire form
  or a manifest, or the text of its error.  Log output is not modelled.
\<close>

section \<open>File system\<close>

text \<open>An unreadable file has no content; \<open>LockedDir\<close> is a directory that cannot be listed.\<close>

datatype fs = FileNode "string option" | DirNode "(string \<times> fs) list" | LockedDir

type_synonym path = "string list"

fun is_dir :: "fs \<Rightarrow> bool" where
  "is_dir (FileNode _) = False"
| "is_dir (DirNode _) = True"
| "is_dir LockedDir = True"

text \<open>Resolving a path from a stack of directories, the current one first; the parent of the root is the root.\<close>

fun lookup_fs :: "fs list \<Rightarrow> path \<Rightarrow> fs option" where
  "lookup_fs [] cs = None"
| "lookup_fs (cur # anc) [] = Some cur"
| "lookup_fs (cur # anc) (c # cs) =
     (case cur of
        DirNode es \<Rightarrow>
          if c = ''..'' then lookup_fs (if anc = [] then [cur] else anc) cs
          else (case map_of es c of Some n \<Rightarrow> lookup_fs (n # cur # anc) cs | None \<Rightarrow> None)
      | _ \<Rightarrow> None)"

definition path_components :: "string \<Rightarrow> path" where
  "path_components s = filter (\<lambda>c. c \<noteq> [] \<and> c \<noteq> ''.'') (split_char (CHR ''/'') s)"

text \<open>\<open>Path::join\<close>: an absolute argument replaces the path.\<close>

definition path_join :: "path \<Rightarrow> string \<Rightarrow> path" where
  "path_join p s = (if starts_with s ''/'' then path_components s else p @ path_components s)"

text \<open>\<open>Path::cmp\<close> compares component by component, a parent reference before any name.\<close>

definition path_key :: "path \<Rightarrow> string list" where
  "path_key p = map (\<lambda>c. if c = ''..'' then [] else c) p"

text \<open>\<open>Path::extension\<close> of a file name.\<close>

definition path_extension :: "string \<Rightarrow> string option" where
  "path_extension n =
     (let r = rev n; rest = dropWhile (\<lambda>c. c \<noteq> CHR ''.'') r in
      if rest = [] \<or> tl rest = [] then None else Some (rev (takeWhile (\<lambda>c. c \<noteq> CHR ''.'') r)))"

definition is_rule_file :: "string \<Rightarrow> bool" where
  "is_rule_file n = (path_extension n = Some ''yaml'' \<or> path_extension n = Some ''yml'')"

section \<open>Manifest\<close>

record manifest_pack_raw =
  pack_raw_name :: string
  pack_raw_enabled :: "bool option"
  pack_raw_dir :: string

record manifest_raw =
  raw_version :: nat
  raw_packs :: "manifest_pack_raw list option"
  raw_legacy :: "bool option option"

record manifest_pack =
  pack_name :: string
  pack_enabled :: bool
  pack_dir :: string

record rules_manifest =
  manifest_version :: nat
  manifest_packs :: "manifest_pack list"
  legacy_enabled :: bool

definition default_true :: bool where
  "default_true = True"

text \<open>
  The defaults of the derived deserialiser: a missing \<open>enabled\<close> is \<open>default_true\<close>, but a missing \<open>legacy\<close>
  section is \<open>ManifestLegacy::default()\<close>, whose flag is \<open>bool::default()\<close>.
\<close>

definition manifest_of_raw :: "manifest_raw \<Rightarrow> rules_manifest" where
  "manifest_of_raw r =
     \<lparr>manifest_version = raw_version r,
      manifest_packs = map (\<lambda>p. \<lparr>pack_name = pack_raw_name p,
          pack_enabled = (case pack_raw_enabled p of Some b \<Rightarrow> b | None \<Rightarrow> default_true),
          pack_dir = pack_raw_dir p\<rparr>) (case raw_packs r of Some ps \<Rightarrow> ps | None \<Rightarrow> []),
      legacy_enabled =
        (case raw_legacy r of
           Some l \<Rightarrow> (case l of Some b \<Rightarrow> b | None \<Rightarrow> default_true)
         | None \<Rightarrow> False)\<rparr>"

section \<open>Collecting the rule files\<close>

datatype load_error =
    ReadManifest path
  | ParseManifest path string
  | ManifestVersion nat
  | ReadDir path
  | ReadFile path
  | IdConflict string path path
  | StrictMode nat

type_synonym collected = "path set \<times> (path \<times> string) list"

fun add_rule_file :: "path \<Rightarrow> string \<Rightarrow> collected \<Rightarrow> collected" where
  "add_rule_file p pack (seen, out) = (if p \<notin> seen then (insert p seen, out @ [(p, pack)]) else (seen, out))"

text \<open>The loop over the entries of a directory: the directories found are pushed, rule files are collected.\<close>

fun scan_entries :: "path \<Rightarrow> string \<Rightarrow> (string \<times> fs) list \<Rightarrow> (path \<times> fs) list \<Rightarrow> collected \<Rightarrow> (path \<times> fs) list \<times> collected" where
  "scan_entries dir pack [] stack st = (stack, st)"
| "scan_entries dir pack ((name, n) # es) stack st =
     (if is_dir n then scan_entries dir pack es ((dir @ [name], n) # stack) st
      else if is_rule_file name then scan_entries dir pack es stack (add_rule_file (dir @ [name]) pack st)
      else scan_entries dir pack es stack st)"

definition stack_size :: "(path \<times> fs) list \<Rightarrow> nat" where
  "stack_size stack = sum_list (map (\<lambda>(_, n). size n) stack)"

lemma scan_entries_size:
  "stack_size (fst (scan_entries dir pack es stack st)) \<le>
     stack_size stack + size_list (size_prod (\<lambda>_. 0) size) es"
proof (induction dir pack es stack st rule: scan_entries.induct)
  case (2 dir pack name n es stack st)
  then show ?case by (auto simp: stack_size_def)
qed simp

function collect_loop :: "string \<Rightarrow> (path \<times> fs) list \<Rightarrow> collected \<Rightarrow> load_error + collected" where
  "collect_loop pack [] st = Inr st"
| "collect_loop pack ((dir, n) # stack) st =
     (case n of
        DirNode es \<Rightarrow> (let (stack', st') = scan_entries dir pack es stack st in collect_loop pack stack' st')
      | _ \<Rightarrow> Inl (ReadDir dir))"
  by pat_completeness auto
termination collect_loop
proof (relation "measure (\<lambda>(_, stack, _). stack_size stack)", goal_cases)
  case (2 pack dir n stack st es p stack' st')
  then show ?case
    using scan_entries_size[of dir pack es stack st] by (auto simp: stack_size_def split: prod.splits)
qed simp

definition collect_rules_recursively :: "path \<Rightarrow> fs \<Rightarrow> string \<Rightarrow> collected \<Rightarrow> load_error + collected" where
  "collect_rules_recursively dir n pack st = collect_loop pack [(dir, n)] st"

definition bind_result :: "'e + 'a \<Rightarrow> ('a \<Rightarrow> 'e + 'b) \<Rightarrow> 'e + 'b" where
  "bind_result r f = (case r of Inl e \<Rightarrow> Inl e | Inr x \<Rightarrow> f x)"

fun scan_legacy :: "path \<Rightarrow> (string \<times> fs) list \<Rightarrow> collected \<Rightarrow> collected" where
  "scan_legacy dir [] st = st"
| "scan_legacy dir ((name, n) # es) st =
     (if \<not> is_dir n \<and> is_rule_file name \<and> name \<noteq> ''manifest.yaml''
      then scan_legacy dir es (add_rule_file (dir @ [name]) ''legacy'' st)
      else scan_legacy dir es st)"

definition collect_legacy_rules :: "fs \<Rightarrow> path \<Rightarrow> collected \<Rightarrow> load_error + collected" where
  "collect_legacy_rules fsys dir st =
     (case lookup_fs [fsys] dir of
        Some (DirNode es) \<Rightarrow>
          (let st1 = scan_legacy dir es st; legacy_dir = path_join dir ''legacy'' in
           case lookup_fs [fsys] legacy_dir of
             Some n \<Rightarrow> collect_rules_recursively legacy_dir n ''legacy'' st1
           | None \<Rightarrow> Inr st1)
      | _ \<Rightarrow> Inl (ReadDir dir))"

text \<open>The loop over the enabled packs of the manifest.\<close>

fun collect_packs :: "fs \<Rightarrow> path \<Rightarrow> manifest_pack list \<Rightarrow> collected \<Rightarrow> load_error + collected" where
  "collect_packs fsys dir [] st = Inr st"
| "collect_packs fsys dir (p # ps) st =
     (case lookup_fs [fsys] (path_join dir (pack_dir p)) of
        None \<Rightarrow> collect_packs fsys dir ps st
      | Some n \<Rightarrow>
          bind_result (collect_rules_recursively (path_join dir (pack_dir p)) n (pack_name p) st)
            (collect_packs fsys dir ps))"

definition collect_rule_files ::
  "(string \<Rightarrow> string + manifest_raw) \<Rightarrow> fs \<Rightarrow> path \<Rightarrow> load_error + (path \<times> string) list" where
  "collect_rule_files parse_manifest fsys dir =
     (let manifest_path = path_join dir ''manifest.yaml'';
          collected =
            (case lookup_fs [fsys] manifest_path of
               Some n \<Rightarrow>
                 (case n of
                    FileNode (Some content) \<Rightarrow>
                      (case parse_manifest content of
                         Inl e \<Rightarrow> Inl (ParseManifest manifest_path e)
                       | Inr raw \<Rightarrow>
                           (let m = manifest_of_raw raw in
                            if manifest_version m \<noteq> 1 then Inl (ManifestVersion (manifest_version m))
                            else bind_result (collect_packs fsys dir (filter pack_enabled (manifest_packs m)) ({}, []))
                                   (\<lambda>st. if legacy_enabled m then collect_legacy_rules fsys dir st else Inr st)))
                  | _ \<Rightarrow> Inl (ReadManifest manifest_path))
             | None \<Rightarrow> collect_legacy_rules fsys dir ({}, []))
      in bind_result collected (\<lambda>(seen, files). Inr (sort_key (\<lambda>f. path_key (fst f)) files)))"

section \<open>Loading\<close>

record rule_skip_sample =
  skip_path :: path
  skip_reason :: string
  skip_detail :: string

record rule_load_stats =
  loaded_rules :: nat
  legacy_total :: nat
  legacy_migratable_total :: nat
  legacy_unsupported_total :: nat
  skipped_rules :: nat
  skipped_by_reason :: "(string, nat) hashmap"
  skipped_samples :: "rule_skip_sample list"

record rule_engine =
  engine_rules :: "rule list"
  load_stats :: rule_load_stats

definition stats_default :: rule_load_stats where
  "stats_default = \<lparr>loaded_rules = 0, legacy_total = 0, legacy_migratable_total = 0,
     legacy_unsupported_total = 0, skipped_rules = 0, skipped_by_reason = [], skipped_samples = []\<rparr>"

definition classify_skip_reason :: "string \<Rightarrow> string" where
  "classify_skip_reason err =
     (if contains err ''invalid type: map, expected a sequence'' then ''unsupported_syntax''
      else if contains err ''missing field'' then ''missing_field''
      else ''deserialize_error'')"

text \<open>The bookkeeping of a skipped file, the same on both paths that skip one.\<close>

definition record_skip :: "path \<Rightarrow> string \<Rightarrow> string \<Rightarrow> rule_load_stats \<Rightarrow> rule_load_stats" where
  "record_skip p reason detail st =
     st\<lparr>skipped_by_reason := hm_insert reason
          ((case hm_get (skipped_by_reason st) reason of Some n \<Rightarrow> n | None \<Rightarrow> 0) + 1) (skipped_by_reason st),
        skipped_rules := skipped_rules st + 1,
        skipped_samples := skipped_samples st @ [\<lparr>skip_path = p, skip_reason = reason, skip_detail = detail\<rparr>]\<rparr>"

type_synonym load_state = "rule list \<times> rule_load_stats \<times> (string, path) hashmap"

text \<open>The id of a rule: the one it has, or the pack and the scene; a blank id is refused.\<close>

definition final_id :: "string \<Rightarrow> rule \<Rightarrow> string option" where
  "final_id pack r =
     (case rule_id r of
        Some i \<Rightarrow> if trim i \<noteq> [] then Some i else None
      | None \<Rightarrow> Some (pack @ ''.'' @ rule_scene r))"

text \<open>One iteration of the loop over the files.\<close>

definition load_file ::
  "(string \<Rightarrow> string + rule_wire) \<Rightarrow> fs \<Rightarrow> path \<times> string \<Rightarrow> load_state \<Rightarrow> load_error + load_state" where
  "load_file parse_rule fsys f s =
     (let (p, pack) = f; (rules, stats, id_owner) = s in
      case lookup_fs [fsys] p of
        Some (FileNode (Some content)) \<Rightarrow>
          (case parse_rule content of
             Inr w \<Rightarrow>
               (case normalize_wire w of
                  Inr (r, legacy) \<Rightarrow>
                    (let stats1 = (if legacy = Migrated
                                   then stats\<lparr>legacy_total := legacy_total stats + 1,
                                              legacy_migratable_total := legacy_migratable_total stats + 1\<rparr>
                                   else stats) in
                     case final_id pack r of
                       None \<Rightarrow> Inr (rules, stats1, id_owner)
                     | Some i \<Rightarrow>
                         (case hm_get id_owner i of
                            Some owner \<Rightarrow> Inl (IdConflict i owner p)
                          | None \<Rightarrow>
                              Inr (rules @ [r\<lparr>rule_id := Some i\<rparr>],
                                   stats1\<lparr>loaded_rules := loaded_rules stats1 + 1\<rparr>,
                                   hm_insert i p id_owner)))
                | Inl e \<Rightarrow>
                    Inr (rules,
                         record_skip p ''unsupported_legacy_condition'' e
                           (stats\<lparr>legacy_total := legacy_total stats + 1,
                                   legacy_unsupported_total := legacy_unsupported_total stats + 1\<rparr>),
                         id_owner))
           | Inl e \<Rightarrow> Inr (rules, record_skip p (classify_skip_reason e) e stats, id_owner))
      | _ \<Rightarrow> Inl (ReadFile p))"

fun load_files ::
  "(string \<Rightarrow> string + rule_wire) \<Rightarrow> fs \<Rightarrow> (path \<times> string) list \<Rightarrow> load_state \<Rightarrow> load_error + load_state" where
  "load_files parse_rule fsys [] s = Inr s"
| "load_files parse_rule fsys (f # fs) s =
     bind_result (load_file parse_rule fsys f s) (load_files parse_rule fsys fs)"

text \<open>The flag read from the environment variable \<open>ARK_RULES_STRICT\<close>, if set.\<close>

definition strict_flag :: "string option \<Rightarrow> bool" where
  "strict_flag var =
     (case var of Some v \<Rightarrow> v = ''1'' \<or> to_ascii_lowercase v = ''true'' | None \<Rightarrow> False)"

definition maybe_fail_in_strict_mode :: "string option \<Rightarrow> rule_load_stats \<Rightarrow> load_error + unit" where
  "maybe_fail_in_strict_mode var stats =
     (if strict_flag var \<and> 0 < skipped_rules stats then Inl (StrictMode (skipped_rules stats)) else Inr ())"

definition load_from_dir ::
  "(string \<Rightarrow> string + manifest_raw) \<Rightarrow> (string \<Rightarrow> string + rule_wire) \<Rightarrow> string option \<Rightarrow> fs \<Rightarrow> path \<Rightarrow>
   load_error + rule_engine" where
  "load_from_dir parse_manifest parse_rule strict_var fsys dir =
     (if lookup_fs [fsys] dir = None then Inr \<lparr>engine_rules = [], load_stats = stats_default\<rparr>
      else bind_result (collect_rule_files parse_manifest fsys dir)
        (\<lambda>files. bind_result (load_files parse_rule fsys files ([], stats_default, []))
          (\<lambda>(rules, stats, id_owner).
             bind_result (maybe_fail_in_strict_mode strict_var stats)
               (\<lambda>_. Inr \<lparr>engine_rules = sort_desc rule_priority rules, load_stats = stats\<rparr>))))"

definition rule_count :: "rule_engine \<Rightarrow> nat" where
  "rule_count eng = length (engine_rules eng)"

section \<open>Matching\<close>

definition match_rules :: "rule_engine \<Rightarrow> state_graph \<Rightarrow> event list \<Rightarrow> rule list" where
  "match_rules eng g events =
     filter (\<lambda>r. match_all_conditions (rule_conditions r) events g) (engine_rules eng)"

definition match_first :: "rule_engine \<Rightarrow> state_graph \<Rightarrow> event list \<Rightarrow> rule option" where
  "match_first eng g events =
     List.find (\<lambda>r. match_all_conditions (rule_conditions r) events g) (engine_rules eng)"

fun is_event_condition :: "condition \<Rightarrow> bool" where
  "is_event_condition (EventCond _ _ _ _) = True"
| "is_event_condition _ = False"

fun match_event_condition :: "event list \<Rightarrow> condition \<Rightarrow> bool" where
  "match_event_condition events (EventCond ty ep vp th) = list_ex (match_event ty ep vp th) events"
| "match_event_condition events _ = False"

definition simple_match :: "event list \<Rightarrow> rule \<Rightarrow> bool" where
  "simple_match events r =
     (let event_conditions = filter is_event_condition (rule_conditions r) in
      event_conditions \<noteq> [] \<and> list_all (match_event_condition events) event_conditions)"

definition match_first_simple :: "rule_engine \<Rightarrow> event list \<Rightarrow> rule option" where
  "match_first_simple eng events = List.find (simple_match events) (engine_rules eng)"

end
