(* ===== verification/Hub.thy ===== *)
theory Hub
  imports Wal K8s Rule_Engine "HOL-Library.Product_Lexorder"
begin

text \<open>
  \<^bold>\<open>hub/src/main.rs\<close>: the hub.  Connections of the agents, the events they send, the HTTP interface with
  its execution guard, and the analysis over the cluster-wide graph.  The WebSocket and HTTP libraries,
  the JSON codec and the clock are parameters; a connection task handles one message in one step.
\<close>

section \<open>Messages\<close>

text \<open>An envelope as it arrives: fields with a serde default may be missing.\<close>

record envelope_raw =
  raw_kind :: "string option"
  raw_protocol_version :: "string option"
  raw_schema_version :: "string option"
  raw_agent_id :: "string option"
  raw_feature_flags :: "string list option"
  raw_event :: event

record hub_event_envelope =
  env_kind :: string
  protocol_version :: string
  schema_version :: string
  agent_id :: "string option"
  feature_flags :: "string list"
  env_event :: event

definition default_kind :: string where
  "default_kind = ''event''"

definition default_protocol_version :: string where
  "default_protocol_version = ''1.0''"

definition default_schema_version :: string where
  "default_schema_version = ''1.0''"

definition or_default :: "'a option \<Rightarrow> 'a \<Rightarrow> 'a" where
  "or_default x d = (case x of Some y \<Rightarrow> y | None \<Rightarrow> d)"

lemma or_default_simps [simp]: "or_default (Some y) d = y" "or_default None d = d"
  by (simp_all add: or_default_def)

definition envelope_of_raw :: "envelope_raw \<Rightarrow> hub_event_envelope" where
  "envelope_of_raw r =
     \<lparr>env_kind = or_default (raw_kind r) default_kind,
      protocol_version = or_default (raw_protocol_version r) default_protocol_version,
      schema_version = or_default (raw_schema_version r) default_schema_version,
      agent_id = raw_agent_id r,
      feature_flags = or_default (raw_feature_flags r) [],
      env_event = raw_event r\<rparr>"

datatype message_error = EmptyProtocolVersion | UnsupportedKind string | Unparsable

text \<open>The two JSON readers are parameters: an envelope, or a bare event as older agents send it.\<close>

definition parse_hub_event_message ::
  "(string \<Rightarrow> envelope_raw option) \<Rightarrow> (string \<Rightarrow> event option) \<Rightarrow> string \<Rightarrow> message_error + event" where
  "parse_hub_event_message from_envelope from_event raw =
     (case from_envelope raw of
        Some r \<Rightarrow>
          (let envelope = envelope_of_raw r in
           if protocol_version envelope = [] then Inl EmptyProtocolVersion
           else if env_kind envelope \<noteq> ''event'' then Inl (UnsupportedKind (env_kind envelope))
           else
             (let event = env_event envelope in
              Inr (if ev_node_id event = None then event\<lparr>ev_node_id := agent_id envelope\<rparr> else event)))
      | None \<Rightarrow>
          (case from_event raw of
             Some event \<Rightarrow> Inr event
           | None \<Rightarrow> Inl Unparsable))"

section \<open>The execution guard\<close>

record execute_guard =
  permits :: nat
  cooldown_ms :: nat
  max_actions :: nat
  last_action_ms :: "(string, nat) hashmap"
  request_seq :: nat

definition guard_new :: "nat \<Rightarrow> nat \<Rightarrow> nat \<Rightarrow> execute_guard" where
  "guard_new max_concurrency cooldown_seconds max_act =
     \<lparr>permits = max max_concurrency 1, cooldown_ms = saturating_mul cooldown_seconds 1000,
      max_actions = max max_act 1, last_action_ms = [], request_seq = 1\<rparr>"

definition next_request_id :: "nat \<Rightarrow> execute_guard \<Rightarrow> string \<times> execute_guard" where
  "next_request_id now gd =
     (''req-'' @ show_nat now @ ''-'' @ show_nat (request_seq gd),
      gd\<lparr>request_seq := (request_seq gd + 1) mod 2 ^ 64\<rparr>)"

definition cooldown_s :: "execute_guard \<Rightarrow> nat" where
  "cooldown_s gd = cooldown_ms gd div 1000"

datatype exec_error =
    NotConnected string
  | ConnectionClosed
  | CooldownActive nat
  | ConcurrencyLimitReached
  | FaultFailed string

definition try_acquire :: "execute_guard \<Rightarrow> exec_error + execute_guard" where
  "try_acquire gd =
     (if 0 < permits gd then Inr (gd\<lparr>permits := permits gd - 1\<rparr>) else Inl ConcurrencyLimitReached)"

definition release_permit :: "execute_guard \<Rightarrow> execute_guard" where
  "release_permit gd = gd\<lparr>permits := permits gd + 1\<rparr>"

definition cooldown_key :: "string \<Rightarrow> string \<Rightarrow> string" where
  "cooldown_key nid action = nid @ ''::'' @ action"

definition check_and_record_cooldown ::
  "string \<Rightarrow> string \<Rightarrow> nat \<Rightarrow> execute_guard \<Rightarrow> (exec_error + unit) \<times> execute_guard" where
  "check_and_record_cooldown nid action now gd =
     (let key = cooldown_key nid action;
          pass = (Inr (), gd\<lparr>last_action_ms := hm_insert key now (last_action_ms gd)\<rparr>) in
      case hm_get (last_action_ms gd) key of
        Some prev \<Rightarrow>
          if saturating_sub now prev < cooldown_ms gd then (Inl (CooldownActive (cooldown_s gd)), gd) else pass
      | None \<Rightarrow> pass)"

section \<open>State\<close>

record hub_command =
  intent :: string
  target_pid :: nat
  command_action :: "string option"

text \<open>
  A channel to an agent is a number.  \<open>connections\<close> maps node ids to channels, \<open>chan_open\<close> are the
  channels whose write task still receives, \<open>outbox\<close> is what was sent, oldest first.  \<open>tasks\<close> are the
  connection tasks with the node id each of them holds; \<open>fault_tasks\<close> are the spawned fault handlers.
\<close>

record 'c hub =
  core :: hub_core
  connections :: "(string, nat) hashmap"
  chan_open :: "nat list"
  outbox :: "(nat \<times> hub_command) list"
  tasks :: "(nat, string) hashmap"
  fault_tasks :: "irreversible_fault list"
  controller :: "k8s_controller option"
  cluster :: 'c
  guard :: execute_guard

record 'c hub_env =
  from_envelope :: "string \<Rightarrow> envelope_raw option"
  from_event :: "string \<Rightarrow> event option"
  to_json :: "event \<Rightarrow> string"
  hash64 :: "string \<Rightarrow> nat"
  api :: "'c k8s_api"

record hub_config =
  rules :: rule_engine
  allow_execute :: bool
  event_buffer_size :: nat
  dedup_window_ms :: nat
  policy_version :: string

abbreviation hub_graph :: "'c hub \<Rightarrow> state_graph" where
  "hub_graph h \<equiv> mem_graph (core_memory (core h))"

abbreviation hub_buffer :: "'c hub \<Rightarrow> event list" where
  "hub_buffer h \<equiv> mem_buffer (core_memory (core h))"

section \<open>Start\<close>

record cli =
  cli_enable_k8s_controller :: bool
  cli_event_buffer_size :: nat
  cli_wal_max_mb :: nat
  cli_allow_execute :: bool
  cli_dedup_window_s :: nat
  cli_execute_max_actions :: nat
  cli_execute_max_concurrency :: nat
  cli_execute_cooldown_s :: nat
  cli_policy_version :: string

definition cli_config :: "rule_engine \<Rightarrow> cli \<Rightarrow> hub_config" where
  "cli_config eng c =
     \<lparr>rules = eng, allow_execute = cli_allow_execute c, event_buffer_size = cli_event_buffer_size c,
      dedup_window_ms = saturating_mul (cli_dedup_window_s c) 1000, policy_version = cli_policy_version c\<rparr>"

text \<open>
  \<open>main\<close> up to the servers: \<open>loaded\<close> is the result of loading the rules, \<open>act\<close> and \<open>rot\<close> the log files
  found on disk, \<open>k8s_ok\<close> whether a Kubernetes client could be made.
\<close>

definition hub_start ::
  "'c hub_env \<Rightarrow> load_error + rule_engine \<Rightarrow> string option \<Rightarrow> string option \<Rightarrow> bool \<Rightarrow> 'c \<Rightarrow> cli \<Rightarrow> string + hub_config \<times> 'c hub" where
  "hub_start env loaded act rot k8s_ok cl c =
     (case loaded of
        Inl _ \<Rightarrow> Inl ''rules''
      | Inr eng \<Rightarrow>
          (let cfg = cli_config eng c in
           case replay_wal (from_event env) (hash64 env) (event_buffer_size cfg) (dedup_window_ms cfg) act rot memory_new of
             (Inl _, _) \<Rightarrow> Inl ''replay''
           | (Inr _, m) \<Rightarrow>
               Inr (cfg,
                 \<lparr>core = \<lparr>core_memory = m, core_wal = open_wal_writer (cli_wal_max_mb c) act rot,
                          wal_append_errors = 0, wal_rotations = 0\<rparr>,
                  connections = [], chan_open = [], outbox = [], tasks = [], fault_tasks = [],
                  controller = (if cli_enable_k8s_controller c \<and> k8s_ok then Some (controller_new True) else None),
                  cluster = cl,
                  guard = guard_new (cli_execute_max_concurrency c) (cli_execute_cooldown_s c) (cli_execute_max_actions c)\<rparr>)))"

section \<open>Connections\<close>

definition connect_agent :: "nat \<Rightarrow> string \<Rightarrow> 'c hub \<Rightarrow> 'c hub" where
  "connect_agent tx ip h =
     (let nid = ''node-'' @ ip in
      h\<lparr>connections := hm_insert nid tx (connections h), chan_open := tx # chan_open h,
        tasks := hm_insert tx nid (tasks h)\<rparr>)"

text \<open>The node id of the event and of the task, and the connection table that follows.\<close>

definition adopt_node_id ::
  "nat \<Rightarrow> string \<Rightarrow> event \<Rightarrow> (string, nat) hashmap \<Rightarrow> string \<times> event \<times> (string, nat) hashmap" where
  "adopt_node_id tx nid e conns =
     (case ev_node_id e of
        Some n \<Rightarrow> if n \<noteq> nid then (n, e, hm_insert n tx (hm_remove nid conns)) else (nid, e, conns)
      | None \<Rightarrow> (nid, e\<lparr>ev_node_id := Some nid\<rparr>, conns))"

text \<open>One text message of connection \<open>tx\<close>; \<open>fault\<close> is what goes wrong when the log is written, if anything.\<close>

definition handle_text ::
  "'c hub_env \<Rightarrow> hub_config \<Rightarrow> wal_fault option \<Rightarrow> nat \<Rightarrow> string \<Rightarrow> 'c hub \<Rightarrow> 'c hub" where
  "handle_text env cfg fault tx raw h =
     (case hm_get (tasks h) tx of
        None \<Rightarrow> h
      | Some nid \<Rightarrow>
          (case parse_hub_event_message (from_envelope env) (from_event env) raw of
             Inl _ \<Rightarrow> h
           | Inr e \<Rightarrow>
               (let (nid1, e1, conns) = adopt_node_id tx nid e (connections h);
                    (accepted, core1) =
                      ingest (to_json env) (hash64 env) (event_buffer_size cfg) (dedup_window_ms cfg) fault e1 (core h);
                    spawned = (if accepted \<and> controller h \<noteq> None
                               then (case detect_irreversible_fault e1 of Some f \<Rightarrow> [f] | None \<Rightarrow> []) else []) in
                h\<lparr>core := core1, connections := conns, tasks := hm_insert tx nid1 (tasks h),
                  fault_tasks := fault_tasks h @ spawned\<rparr>)))"

text \<open>The end of a connection: a close frame or the end of the stream removes the entry and stops the writer.\<close>

definition close_connection :: "nat \<Rightarrow> 'c hub \<Rightarrow> 'c hub" where
  "close_connection tx h =
     (case hm_get (tasks h) tx of
        None \<Rightarrow> h
      | Some nid \<Rightarrow>
          h\<lparr>connections := hm_remove nid (connections h), tasks := hm_remove tx (tasks h),
            chan_open := removeAll tx (chan_open h)\<rparr>)"

text \<open>A read error leaves \<open>handle_connection\<close> through \<open>?\<close>, before the clean-up.\<close>

definition fail_connection :: "nat \<Rightarrow> 'c hub \<Rightarrow> 'c hub" where
  "fail_connection tx h = h\<lparr>tasks := hm_remove tx (tasks h)\<rparr>"

text \<open>A write error ends the write task of a channel.\<close>

definition fail_writer :: "nat \<Rightarrow> 'c hub \<Rightarrow> 'c hub" where
  "fail_writer tx h = h\<lparr>chan_open := removeAll tx (chan_open h)\<rparr>"

text \<open>A spawned fault handler runs; its error is logged.\<close>

definition run_fault_task :: "'c hub_env \<Rightarrow> nat \<Rightarrow> nat \<Rightarrow> nat \<Rightarrow> 'c hub \<Rightarrow> 'c hub" where
  "run_fault_task env i now done_at h =
     (if i < length (fault_tasks h)
      then (let h1 = h\<lparr>fault_tasks := take i (fault_tasks h) @ drop (Suc i) (fault_tasks h)\<rparr> in
            case controller h of
              None \<Rightarrow> h1
            | Some ctl \<Rightarrow>
                (case handle_irreversible_fault (api env) now done_at (fault_tasks h ! i) (ctl, cluster h) of
                   (_, ctl1, cl1) \<Rightarrow> h1\<lparr>controller := Some ctl1, cluster := cl1\<rparr>))
      else h)"

section \<open>Analysis over the whole cluster\<close>

text \<open>A process as the API reports it; fields of a JSON object may be missing.\<close>

record process_json =
  pj_node_id :: "string option"
  pj_pid :: "nat option"
  pj_node_id_full :: "string option"

definition process_entry :: "string \<Rightarrow> process_json list" where
  "process_entry pid_id =
     (if contains pid_id ''::'' then
        (case split_str ''::'' pid_id of
           n # p # _ \<Rightarrow>
             (case strip_prefix p ''pid-'' of
                Some s \<Rightarrow>
                  (case parse_uint u32_max s of
                     Some pid \<Rightarrow> [\<lparr>pj_node_id = Some n, pj_pid = Some pid, pj_node_id_full = Some pid_id\<rparr>]
                   | None \<Rightarrow> [])
              | None \<Rightarrow> [])
         | _ \<Rightarrow> [])
      else [])"

definition cause_info :: "string \<Rightarrow> string \<Rightarrow> string" where
  "cause_info pid_id cause =
     (if contains pid_id ''::'' then hd (split_str ''::'' pid_id) @ '': '' @ cause else cause)"

definition job_pids :: "state_graph \<Rightarrow> string \<Rightarrow> string list" where
  "job_pids g job =
     map fst (filter (\<lambda>(i, n). node_type n = ProcessNode \<and> hm_get (metadata n) ''job_id'' = Some job) (get_nodes_async g))"

text \<open>The message for a job without processes, in UTF-8.\<close>

definition job_not_found :: "string \<Rightarrow> string" where
  "job_not_found job =
     [CHR 0xE6, CHR 0x9C, CHR 0xAA, CHR 0xE6, CHR 0x89, CHR 0xBE, CHR 0xE5, CHR 0x88, CHR 0xB0] @ '' job_id='' @ job @
     '' '' @ [CHR 0xE7, CHR 0x9A, CHR 0x84, CHR 0xE8, CHR 0xBF, CHR 0x9B, CHR 0xE7, CHR 0xA8, CHR 0x8B]"

definition cluster_why :: "state_graph \<Rightarrow> string \<Rightarrow> string list \<times> process_json list" where
  "cluster_why g job =
     (let pids = job_pids g job in
      if pids = [] then ([job_not_found job], [])
      else (remdups_adj (sort (concat (map (\<lambda>i. map (cause_info i) (find_root_cause_by_id i g)) pids))),
            concat (map process_entry pids)))"

section \<open>Policy\<close>

record policy_action =
  action_type :: string
  pa_node_id :: string
  pa_target_pid :: nat
  pa_action :: string
  pa_dry_run :: bool

definition degraded :: "string list \<Rightarrow> bool" where
  "degraded scenes = list_ex (\<lambda>s. contains s ''physical_degradation'') scenes"

definition build_policy_actions :: "string list \<Rightarrow> process_json list \<Rightarrow> bool \<Rightarrow> policy_action list" where
  "build_policy_actions scenes processes dry =
     (let action = (if degraded scenes then ''KillProcess'' else ''GracefulShutdown'') in
      List.map_filter (\<lambda>p.
        case pj_node_id p of
          None \<Rightarrow> None
        | Some nid \<Rightarrow>
            (case pj_pid p of
               None \<Rightarrow> None
             | Some pid \<Rightarrow> Some \<lparr>action_type = ''send_fix_command'', pa_node_id = nid, pa_target_pid = pid mod 2 ^ 32,
                                pa_action = action, pa_dry_run = dry\<rparr>)) processes)"

definition send_fix_command :: "string \<Rightarrow> nat \<Rightarrow> string \<Rightarrow> 'c hub \<Rightarrow> (exec_error + unit) \<times> 'c hub" where
  "send_fix_command nid pid action h =
     (case hm_get (connections h) nid of
        None \<Rightarrow> (Inl (NotConnected nid), h)
      | Some tx \<Rightarrow>
          if tx \<in> set (chan_open h)
          then (Inr (), h\<lparr>outbox := outbox h @ [(tx, \<lparr>intent = ''fix'', target_pid = pid, command_action = Some action\<rparr>)]\<rparr>)
          else (Inl ConnectionClosed, h))"

record exec_result =
  er_node_id :: "string option"
  er_target_pid :: "nat option"
  er_action :: "string option"
  er_success :: bool
  er_error :: "exec_error option"

definition action_result :: "policy_action \<Rightarrow> exec_error + unit \<Rightarrow> exec_result" where
  "action_result a r =
     \<lparr>er_node_id = Some (pa_node_id a), er_target_pid = Some (pa_target_pid a), er_action = Some (pa_action a),
      er_success = (\<not> isl r), er_error = (case r of Inl e \<Rightarrow> Some e | Inr _ \<Rightarrow> None)\<rparr>"

text \<open>The loop over the actions, under the permit.\<close>

fun execute_actions :: "nat \<Rightarrow> policy_action list \<Rightarrow> 'c hub \<Rightarrow> exec_result list \<times> 'c hub" where
  "execute_actions now [] h = ([], h)"
| "execute_actions now (a # as) h =
     (let (r, h1) =
        (case check_and_record_cooldown (pa_node_id a) (pa_action a) now (guard h) of
           (Inr _, gd) \<Rightarrow> send_fix_command (pa_node_id a) (pa_target_pid a) (pa_action a) (h\<lparr>guard := gd\<rparr>)
         | (Inl e, gd) \<Rightarrow> (Inl e, h\<lparr>guard := gd\<rparr>));
          (rs, h2) = execute_actions now as h1
      in (action_result a r # rs, h2))"

text \<open>The loop that isolates the machines of the processes; \<open>clock\<close> gives the instants of the successive calls.\<close>

fun isolate_nodes ::
  "'c hub_env \<Rightarrow> (nat \<Rightarrow> nat) \<Rightarrow> nat \<Rightarrow> process_json list \<Rightarrow> k8s_controller \<times> 'c \<Rightarrow> exec_result list \<times> k8s_controller \<times> 'c" where
  "isolate_nodes env clock i [] s = ([], s)"
| "isolate_nodes env clock i (p # ps) s =
     (case pj_node_id p of
        None \<Rightarrow> isolate_nodes env clock i ps s
      | Some nid \<Rightarrow>
          (case handle_irreversible_fault (api env) (clock i) (clock (i + 1))
                  (OtherHardwareFailure nid ''rdma physical degradation'') s of
             (r, s1) \<Rightarrow>
               (let (rs, s2) = isolate_nodes env clock (i + 2) ps s1 in
                (case r of
                   Inl e \<Rightarrow> \<lparr>er_node_id = Some nid, er_target_pid = None, er_action = Some ''taint_evict'',
                             er_success = False, er_error = Some (FaultFailed e)\<rparr> # rs
                 | Inr _ \<Rightarrow> rs, s2))))"

section \<open>The HTTP interface\<close>

type_synonym params = "(string, string) hashmap"

definition nat_param :: "nat \<Rightarrow> params \<Rightarrow> string \<Rightarrow> nat \<Rightarrow> nat \<Rightarrow> nat \<Rightarrow> nat" where
  "nat_param m ps name dflt lo hi =
     clamp_nat (or_default (Option.bind (hm_get ps name) (parse_uint m)) dflt) lo hi"

definition execute_requested :: "params \<Rightarrow> bool" where
  "execute_requested ps =
     (case hm_get ps ''execute'' of Some v \<Rightarrow> v = ''1'' \<or> to_ascii_lowercase v = ''true'' | None \<Rightarrow> False)"

definition recent :: "nat \<Rightarrow> nat \<Rightarrow> (event \<Rightarrow> bool) \<Rightarrow> event list \<Rightarrow> event list" where
  "recent now window_s P buf =
     filter P (filter (\<lambda>e. saturating_sub now (window_s * 1000) \<le> ev_ts e) buf)"

record diagnosis =
  dg_window_s :: nat
  dg_event_count :: nat
  dg_matched_rules :: "rule list"
  dg_processes :: "process_json list"
  dg_policy :: "policy_action list"
  dg_dry_run :: bool
  dg_request_id :: string
  dg_truncated :: bool
  dg_concurrency_limited :: bool
  dg_execution :: "exec_result list"

text \<open>The part of the handler that acts: fix commands under a permit, then isolation.\<close>

definition execute_policy ::
  "'c hub_env \<Rightarrow> (nat \<Rightarrow> nat) \<Rightarrow> nat \<Rightarrow> string list \<Rightarrow> process_json list \<Rightarrow> policy_action list \<Rightarrow> 'c hub \<Rightarrow>
   bool \<times> exec_result list \<times> 'c hub" where
  "execute_policy env clock now scenes processes policy h =
     (let (limited, rs, h1) =
        (case try_acquire (guard h) of
           Inr gd \<Rightarrow>
             (let (rs, h1) = execute_actions now policy (h\<lparr>guard := gd\<rparr>)
              in (False, rs, h1\<lparr>guard := release_permit (guard h1)\<rparr>))
         | Inl e \<Rightarrow>
             (True, [\<lparr>er_node_id = None, er_target_pid = None, er_action = None, er_success = False,
                      er_error = Some ConcurrencyLimitReached\<rparr>], h)) in
      if degraded scenes
      then (case controller h1 of
              None \<Rightarrow> (limited, rs, h1)
            | Some ctl \<Rightarrow>
                (let (rs2, ctl1, cl1) = isolate_nodes env clock 0 processes (ctl, cluster h1)
                 in (limited, rs @ rs2, h1\<lparr>controller := Some ctl1, cluster := cl1\<rparr>)))
      else (limited, rs, h1))"

definition diagnose ::
  "'c hub_env \<Rightarrow> hub_config \<Rightarrow> (nat \<Rightarrow> nat) \<Rightarrow> nat \<Rightarrow> params \<Rightarrow> 'c hub \<Rightarrow> (string + diagnosis) \<times> 'c hub" where
  "diagnose env cfg clock now ps h =
     (case hm_get ps ''job_id'' of
        None \<Rightarrow> (Inl ''missing job_id parameter'', h)
      | Some job \<Rightarrow>
          (let window = nat_param u64_max ps ''window_s'' 60 10 3600;
               execute = (allow_execute cfg \<and> execute_requested ps);
               dry_run = (\<not> execute);
               candidates = recent now window (\<lambda>e. ev_job_id e = Some job) (hub_buffer h);
               matched = match_rules (rules cfg) (hub_graph h) candidates;
               scenes = map rule_scene matched;
               processes = snd (cluster_why (hub_graph h) job);
               policy = build_policy_actions scenes processes dry_run;
               (rid, gd) = next_request_id now (guard h);
               trimmed = take (max_actions gd) policy;
               truncated = (length trimmed < length policy);
               (limited, results, h1) =
                 (if execute then execute_policy env clock now scenes processes trimmed (h\<lparr>guard := gd\<rparr>)
                  else (False, [], h\<lparr>guard := gd\<rparr>))
           in (Inr \<lparr>dg_window_s = window, dg_event_count = length candidates, dg_matched_rules = matched,
                   dg_processes = processes, dg_policy = trimmed, dg_dry_run = dry_run, dg_request_id = rid,
                   dg_truncated = truncated, dg_concurrency_limited = limited, dg_execution = results\<rparr>, h1)))"

definition fix_route :: "string \<Rightarrow> nat \<Rightarrow> string option \<Rightarrow> 'c hub \<Rightarrow> bool \<times> 'c hub" where
  "fix_route nid pid action h =
     (case send_fix_command nid pid (or_default action ''GracefulShutdown'') h of
        (Inr _, h1) \<Rightarrow> (True, h1)
      | (Inl _, h1) \<Rightarrow> (False, h1))"

definition why_route :: "params \<Rightarrow> 'c hub \<Rightarrow> string + string list \<times> process_json list" where
  "why_route ps h =
     (case hm_get ps ''job_id'' of
        Some job \<Rightarrow> Inr (cluster_why (hub_graph h) job)
      | None \<Rightarrow> Inl ''missing job_id parameter'')"

definition ps_route :: "'c hub \<Rightarrow> (string \<times> string \<times> string) list" where
  "ps_route h =
     map (\<lambda>n. (node_id n, or_default (hm_get (metadata n) ''job_id'') ''-'',
               or_default (hm_get (metadata n) ''state'') ''unknown'')) (get_active_processes (hub_graph h))"

definition critical_fault :: "event \<Rightarrow> bool" where
  "critical_fault e =
     (ev_type e = ErrorHw \<or> ev_type e = TopoLinkDown \<or>
      ev_type e = ErrorNet \<and>
        (contains (ev_value e) ''pfc_storm'' \<or> contains (ev_value e) ''phy_degradation'' \<or>
         contains (ev_value e) ''link_down''))"

text \<open>The window, whether the node is healthy, and the number of events looked at.\<close>

definition preflight :: "nat \<Rightarrow> params \<Rightarrow> 'c hub \<Rightarrow> string + nat \<times> bool \<times> nat" where
  "preflight now ps h =
     (case hm_get ps ''node_id'' of
        None \<Rightarrow> Inl ''missing node_id parameter''
      | Some nid \<Rightarrow>
          (let window = nat_param u64_max ps ''window_s'' 120 30 3600;
               node_events = recent now window (\<lambda>e. ev_node_id e = Some nid) (hub_buffer h)
           in Inr (window, \<not> list_ex critical_fault node_events, length node_events)))"

section \<open>Slow training\<close>

definition values_of :: "event_type \<Rightarrow> event list \<Rightarrow> f64 list" where
  "values_of t events = List.map_filter (\<lambda>e. if ev_type e = t then parse_f64 (ev_value e) else None) events"

definition f64_avg :: "f64 list \<Rightarrow> f64" where
  "f64_avg vals = (if vals = [] then Fin False 0 else f64_div (f64_sum vals) (f64_of_nat (length vals)))"

definition classify_training_slow :: "event list \<Rightarrow> string \<times> f64" where
  "classify_training_slow events =
     (let avg_bw = f64_avg (values_of TransportBw events);
          avg_drop = f64_avg (values_of TransportDrop events);
          avg_storage_iops = f64_avg (values_of StorageIops events) in
      if f64_lt (Fin False 10) avg_drop \<or> f64_lt avg_bw (Fin False 30)
      then (''comm_bound'', f64_clamp (f64_mul avg_drop (Fin False 2)) (Fin False 0) (Fin False 100))
      else if f64_lt avg_storage_iops (Fin False 20)
      then (''io_bound'', f64_clamp (f64_sub (Fin False 100) avg_storage_iops) (Fin False 0) (Fin False 100))
      else (''cpu_bound'', Fin False 50))"

definition training_slow :: "nat \<Rightarrow> params \<Rightarrow> 'c hub \<Rightarrow> string + nat \<times> nat \<times> string \<times> f64" where
  "training_slow now ps h =
     (case hm_get ps ''job_id'' of
        None \<Rightarrow> Inl ''missing job_id parameter''
      | Some job \<Rightarrow>
          (let window = nat_param u64_max ps ''window_s'' 120 30 3600;
               job_events = recent now window (\<lambda>e. ev_job_id e = Some job) (hub_buffer h)
           in Inr (window, length job_events, classify_training_slow job_events)))"

section \<open>Incidents\<close>

record incident =
  in_scene :: string
  in_rule :: string
  in_job_id :: "string option"
  in_nodes :: "string list"
  in_priority :: nat
  in_severity :: string
  in_event_count :: nat
  in_root_cause :: string

definition severity_from_priority :: "nat \<Rightarrow> string" where
  "severity_from_priority p =
     (if 80 \<le> p then ''critical'' else if 50 \<le> p then ''high'' else if 20 \<le> p then ''medium'' else ''low'')"

definition job_key :: "event \<Rightarrow> string" where
  "job_key e = or_default (ev_job_id e) ''__no_job__''"

definition group_events :: "event list \<Rightarrow> (string, event list) hashmap" where
  "group_events events =
     fold (\<lambda>e m. hm_insert (job_key e) (or_default (hm_get m (job_key e)) [] @ [e]) m) events []"

definition incident_of :: "string \<Rightarrow> event list \<Rightarrow> rule \<Rightarrow> incident" where
  "incident_of key evs r =
     \<lparr>in_scene = rule_scene r, in_rule = rule_name r,
      in_job_id = (if key = ''__no_job__'' then None else Some key),
      in_nodes = remdups_adj (sort (List.map_filter ev_node_id evs)),
      in_priority = rule_priority r, in_severity = severity_from_priority (rule_priority r),
      in_event_count = length evs, in_root_cause = rc_primary (root_cause r)\<rparr>"

definition job_incidents :: "rule_engine \<Rightarrow> state_graph \<Rightarrow> string \<times> event list \<Rightarrow> incident list" where
  "job_incidents eng g kv = map (incident_of (fst kv) (snd kv)) (match_rules eng g (snd kv))"

definition incident_key :: "incident \<Rightarrow> int \<times> int" where
  "incident_key i = (- int (in_priority i), - int (in_event_count i))"

definition aggregate_incidents :: "state_graph \<Rightarrow> rule_engine \<Rightarrow> event list \<Rightarrow> nat \<Rightarrow> incident list" where
  "aggregate_incidents g eng events limit =
     take limit (sort_key incident_key (concat (map (job_incidents eng g) (group_events events))))"

definition incidents_route :: "hub_config \<Rightarrow> nat \<Rightarrow> params \<Rightarrow> 'c hub \<Rightarrow> nat \<times> nat \<times> incident list" where
  "incidents_route cfg now ps h =
     (let window = nat_param u64_max ps ''window_s'' 300 30 7200;
          limit = nat_param u64_max ps ''limit'' 50 1 500;
          candidates = recent now window (\<lambda>_. True) (hub_buffer h)
      in (window, length candidates, aggregate_incidents (hub_graph h) (rules cfg) candidates limit))"

section \<open>Steps\<close>

text \<open>Everything that can happen to the hub, one step each.\<close>

datatype hub_action =
    Connect nat string
  | Incoming nat string "wal_fault option"
  | Close nat
  | ReadFailure nat
  | WriteFailure nat
  | FaultTask nat nat nat
  | Diagnose "nat \<Rightarrow> nat" nat params
  | Fix string nat "string option"

fun hub_step :: "'c hub_env \<Rightarrow> hub_config \<Rightarrow> hub_action \<Rightarrow> 'c hub \<Rightarrow> 'c hub" where
  "hub_step env cfg (Connect tx ip) h = connect_agent tx ip h"
| "hub_step env cfg (Incoming tx raw fault) h = handle_text env cfg fault tx raw h"
| "hub_step env cfg (Close tx) h = close_connection tx h"
| "hub_step env cfg (ReadFailure tx) h = fail_connection tx h"
| "hub_step env cfg (WriteFailure tx) h = fail_writer tx h"
| "hub_step env cfg (FaultTask i now done_at) h = run_fault_task env i now done_at h"
| "hub_step env cfg (Diagnose clock now ps) h = snd (diagnose env cfg clock now ps h)"
| "hub_step env cfg (Fix nid pid action) h = snd (fix_route nid pid action h)"

end
