(* ===== verification/Graph_Search.thy ===== *)
theory Graph_Search
  imports Graph_Index
begin

text \<open>
  The root cause search of \<open>find_root_cause_by_id\<close>: it terminates on every graph, cyclic ones included
  (its definition in Graph is total), and finds exactly the errors and the waits that are reachable
  over \<open>BlockedBy\<close> edges.
\<close>

section \<open>What the search visits and reports, over the out-index\<close>

definition outs :: "(string, indexed_edge list) hashmap \<Rightarrow> string \<Rightarrow> indexed_edge list" where
  "outs out n = (case hm_get out n of Some l \<Rightarrow> l | None \<Rightarrow> [])"

definition targets :: "(string, node) hashmap \<Rightarrow> indexed_edge list \<Rightarrow> string set" where
  "targets ns es = {ix_to e |e. e \<in> set es \<and> ix_type e = BlockedBy \<and> hm_contains ns (ix_to e)}"

definition reports :: "(string, node) hashmap \<Rightarrow> indexed_edge list \<Rightarrow> string set" where
  "reports ns es =
     {error_desc (ix_to e) nd |e nd. e \<in> set es \<and> ix_type e = BlockedBy \<and>
        hm_get ns (ix_to e) = Some nd \<and> node_type nd = ErrorNode} \<union>
     {waiting_for @ ix_to e |e. e \<in> set es \<and> ix_type e = WaitsOn}"

definition blocked_step :: "(string, indexed_edge list) hashmap \<Rightarrow> (string, node) hashmap \<Rightarrow> (string \<times> string) set" where
  "blocked_step out ns = {(a, b). b \<in> targets ns (outs out a)}"

text \<open>
  The contract of a search from a frontier: it adds nodes reachable from the frontier only, everything
  it adds is fully explored, and it reports what the added nodes report.
\<close>

definition explored ::
  "(string, indexed_edge list) hashmap \<Rightarrow> (string, node) hashmap \<Rightarrow> string set \<Rightarrow> string set \<Rightarrow>
   string set \<times> string list \<Rightarrow> string set \<times> string list \<Rightarrow> bool" where
  "explored out ns front rep st st' \<longleftrightarrow>
     fst st \<subseteq> fst st' \<and> front \<subseteq> fst st' \<and>
     fst st' \<subseteq> fst st \<union> (blocked_step out ns)\<^sup>* `` front \<and>
     (\<forall>a\<in>fst st' - fst st. targets ns (outs out a) \<subseteq> fst st') \<and>
     set (snd st') = set (snd st) \<union> rep \<union> (\<Union>a\<in>fst st' - fst st. reports ns (outs out a))"

lemma targets_Cons:
  "targets ns (e # es) =
     (if ix_type e = BlockedBy \<and> hm_contains ns (ix_to e) then {ix_to e} else {}) \<union> targets ns es"
  by (auto simp: targets_def)

lemma reports_Cons: "reports ns (e # es) = reports ns [e] \<union> reports ns es"
  by (auto simp: reports_def)

lemma targets_Nil [simp]: "targets ns [] = {}" and reports_Nil [simp]: "reports ns [] = {}"
  by (simp_all add: targets_def reports_def)

lemma explored_refl: "explored out ns {} {} st st"
  by (simp add: explored_def)

text \<open>Two searches in a row explore the union of the frontiers.\<close>

lemma explored_seq:
  assumes "explored out ns f1 r1 st1 st2" "explored out ns f2 r2 st2 st3"
  shows "explored out ns (f1 \<union> f2) (r1 \<union> r2) st1 st3"
proof -
  have split: "fst st3 - fst st1 = (fst st2 - fst st1) \<union> (fst st3 - fst st2)"
    using assms by (auto simp: explored_def)
  have "\<forall>a\<in>fst st3 - fst st1. targets ns (outs out a) \<subseteq> fst st3"
    using assms unfolding split explored_def by blast
  moreover have "set (snd st3) = set (snd st1) \<union> (r1 \<union> r2) \<union> (\<Union>a\<in>fst st3 - fst st1. reports ns (outs out a))"
    using assms unfolding split explored_def UN_Un by auto
  ultimately show ?thesis using assms unfolding explored_def by (auto simp: Image_Un)
qed

text \<open>Entering a new node explores its targets.\<close>

lemma explored_enter:
  assumes "explored out ns (targets ns (outs out n)) (reports ns (outs out n)) (insert n v, cs) st'" "n \<notin> v"
  shows "explored out ns {n} {} (v, cs) st'"
proof -
  have n: "n \<in> fst st'" using assms(1) by (auto simp: explored_def)
  have step: "(blocked_step out ns)\<^sup>* `` targets ns (outs out n) \<subseteq> (blocked_step out ns)\<^sup>* `` {n}"
    by (auto simp: blocked_step_def intro: converse_rtrancl_into_rtrancl)
  have split: "fst st' - v = insert n (fst st' - insert n v)" using n assms(2) by auto
  have "set (snd st') = set cs \<union> (\<Union>a\<in>fst st' - v. reports ns (outs out a))"
    using assms(1) unfolding split explored_def by auto
  moreover have "\<forall>a\<in>fst st' - v. targets ns (outs out a) \<subseteq> fst st'"
    using assms(1) unfolding split explored_def by auto
  moreover have "fst st' \<subseteq> insert n v \<union> (blocked_step out ns)\<^sup>* `` targets ns (outs out n)"
    using assms(1) by (simp add: explored_def)
  with step have "fst st' \<subseteq> v \<union> (blocked_step out ns)\<^sup>* `` {n}" by blast
  ultimately show ?thesis using assms(1) n by (auto simp: explored_def)
qed

lemma explored_more_reports:
  "explored out ns f r (v, cs @ [c]) st' \<Longrightarrow> explored out ns f (insert c r) (v, cs) st'"
  by (auto simp: explored_def)

lemma explored_visited: "n \<in> v \<Longrightarrow> explored out ns {n} {} (v, cs) (v, cs)"
  by (auto simp: explored_def)

lemma dfs_explored:
  "explored out ns {n} {} st (dfs_backward n out ns st)"
  "explored out ns (targets ns es) (reports ns es) st (dfs_edges es out ns st)"
proof (induction n out ns st and es out ns st rule: dfs_backward_dfs_edges.induct)
  case (1 n out ns v cs)
  show ?case
  proof (cases "n \<in> v")
    case False
    have "explored out ns (targets ns (outs out n)) (reports ns (outs out n)) (insert n v, cs)
            (dfs_backward n out ns (v, cs))"
      using 1[OF False] False by (auto simp: outs_def explored_refl split: option.splits)
    then show ?thesis using False by (rule explored_enter)
  qed (simp add: explored_visited)
next
  case (2 out ns st)
  show ?case by (simp add: explored_refl)
next
  case (3 e es out ns v cs)
  consider (blocked) nd where "ix_type e = BlockedBy" "hm_get ns (ix_to e) = Some nd"
    | (gone) "ix_type e = BlockedBy" "hm_get ns (ix_to e) = None"
    | (waits) "ix_type e \<noteq> BlockedBy" "ix_type e = WaitsOn"
    | (uses) "ix_type e \<noteq> BlockedBy" "ix_type e \<noteq> WaitsOn"
    by (cases "hm_get ns (ix_to e)") auto
  then show ?case
  proof cases
    case blocked
    let ?cs = "if node_type nd = ErrorNode then cs @ [error_desc (ix_to e) nd] else cs"
    have rep: "reports ns [e] = (if node_type nd = ErrorNode then {error_desc (ix_to e) nd} else {})"
      using blocked by (auto simp: reports_def)
    have "explored out ns {ix_to e} (reports ns [e]) (v, cs) (dfs_backward (ix_to e) out ns (v, ?cs))"
      using "3.IH"(2)[OF blocked] explored_more_reports[of out ns "{ix_to e}" "{}" v cs]
      by (cases "node_type nd = ErrorNode") (simp_all add: rep del: dfs_backward.simps)
    from explored_seq[OF this "3.IH"(3)[OF blocked]] show ?thesis
      using blocked by (simp add: targets_Cons hm_contains_def reports_Cons[of ns e es] del: dfs_backward.simps)
  next
    case gone
    then have "reports ns [e] = {}" by (auto simp: reports_def)
    then show ?thesis using "3.IH"(1)[OF gone] gone
      by (simp add: targets_Cons hm_contains_def reports_Cons[of ns e es])
  next
    case waits
    then have "reports ns [e] = {waiting_for @ ix_to e}" by (auto simp: reports_def)
    then show ?thesis using explored_more_reports[OF "3.IH"(4)[OF waits]] waits
      by (simp add: targets_Cons reports_Cons[of ns e es])
  next
    case uses
    then have "reports ns [e] = {}" by (auto simp: reports_def)
    then show ?thesis using "3.IH"(5)[OF uses] uses
      by (simp add: targets_Cons reports_Cons[of ns e es])
  qed
qed

text \<open>So a search from nothing visits the reachable nodes and reports for all of them.\<close>

lemma dfs_visits: "fst (dfs_backward n out ns ({}, [])) = (blocked_step out ns)\<^sup>* `` {n}"
proof -
  let ?V = "fst (dfs_backward n out ns ({}, []))"
  have ex: "explored out ns {n} {} ({}, []) (dfs_backward n out ns ({}, []))" by (rule dfs_explored)
  have "b \<in> ?V" if "(n, b) \<in> (blocked_step out ns)\<^sup>*" for b
    using that by (induction rule: rtrancl_induct) (use ex in \<open>auto simp: explored_def blocked_step_def\<close>)
  then show ?thesis using ex by (auto simp: explored_def)
qed

lemma dfs_reports:
  "set (snd (dfs_backward n out ns ({}, []))) = (\<Union>a\<in>(blocked_step out ns)\<^sup>* `` {n}. reports ns (outs out a))"
  using dfs_explored(1)[of out ns n "({}, [])"] by (simp add: explored_def dfs_visits del: dfs_backward.simps)

section \<open>Over the edge list\<close>

definition has_edge :: "state_graph \<Rightarrow> edge_type \<Rightarrow> string \<Rightarrow> string \<Rightarrow> bool" where
  "has_edge g t a b \<longleftrightarrow> (\<exists>e\<in>set (edges g). edge_type e = t \<and> edge_from e = a \<and> edge_to e = b)"

definition blocked_by :: "state_graph \<Rightarrow> (string \<times> string) set" where
  "blocked_by g = {(a, b). has_edge g BlockedBy a b \<and> hm_contains (nodes g) b}"

lemma outs_edges:
  "index_ok g \<Longrightarrow> outs (edge_out_index g) a = map indexed (filter (\<lambda>e. edge_from e = a) (edges g))"
  by (auto simp: index_ok_def outs_def out_list_def Let_def)

lemma outs_has_edge:
  "index_ok g \<Longrightarrow> \<lparr>ix_type = t, ix_to = b\<rparr> \<in> set (outs (edge_out_index g) a) \<longleftrightarrow> has_edge g t a b"
  by (force simp: outs_edges has_edge_def indexed_def)

lemma ex_indexed_edge: "(\<exists>e. P e) \<longleftrightarrow> (\<exists>t b. P \<lparr>ix_type = t, ix_to = b\<rparr>)"
  by (metis indexed_edge.cases)

lemma blocked_step_edges: "index_ok g \<Longrightarrow> blocked_step (edge_out_index g) (nodes g) = blocked_by g"
  by (auto simp: blocked_step_def blocked_by_def targets_def ex_indexed_edge outs_has_edge)

lemma reports_edges:
  "index_ok g \<Longrightarrow> reports (nodes g) (outs (edge_out_index g) a) =
     {error_desc b nd |b nd. has_edge g BlockedBy a b \<and> hm_get (nodes g) b = Some nd \<and> node_type nd = ErrorNode} \<union>
     {waiting_for @ r |r. has_edge g WaitsOn a r}"
  by (auto simp: reports_def ex_indexed_edge outs_has_edge)

definition root_causes :: "string \<Rightarrow> state_graph \<Rightarrow> string set" where
  "root_causes n g =
     {error_desc b nd |a b nd. (n, a) \<in> (blocked_by g)\<^sup>* \<and> has_edge g BlockedBy a b \<and>
        hm_get (nodes g) b = Some nd \<and> node_type nd = ErrorNode} \<union>
     {waiting_for @ r |a r. (n, a) \<in> (blocked_by g)\<^sup>* \<and> has_edge g WaitsOn a r}"

lemma find_root_cause_reachable:
  assumes "graph_inv g"
  shows "set (find_root_cause_by_id n g) = root_causes n g"
proof -
  have ok: "index_ok g" using assms by (simp add: graph_inv_def)
  show ?thesis
    unfolding find_root_cause_by_id_def dfs_reports blocked_step_edges[OF ok] reports_edges[OF ok] root_causes_def
    by blast
qed

text \<open>
  \<^bold>\<open>C1.\<close>  Root cause analysis is exact: on every graph built by an event stream, what
  \<open>find_root_cause_by_id\<close> returns for a node is, as a set, the descriptions of all error nodes and all
  waits reachable from it over \<open>BlockedBy\<close> edges of the edge list; it returns on cyclic graphs too.
\<close>

theorem root_cause_exact:
  "set (find_root_cause_by_id n (process_events es state_graph_new)) =
     root_causes n (process_events es state_graph_new)"
  by (rule find_root_cause_reachable) (rule graph_inv_process_events[OF graph_inv_new])

end
