(* ===== verification/Graph_Safety.thy ===== *)
theory Graph_Safety
  imports Graph_Search
begin

text \<open>
  What the graph promises over a run: edges never dangle and never leave the namespace of the machine
  that reported them, cleanup removes what it should and no more, processes and errors have the
  lifecycle the diagnosis relies on.
\<close>

section \<open>Node ids and namespaces\<close>

text \<open>The machine a node id belongs to, and the id on that machine.\<close>

definition ns_of :: "string \<Rightarrow> string option" where
  "ns_of s = map_option (\<lambda>i. take i s) (find_str s ''::'')"

definition local_id :: "string \<Rightarrow> string" where
  "local_id s = (case find_str s ''::'' of Some i \<Rightarrow> drop (i + 2) s | None \<Rightarrow> s)"

definition is_error_id :: "string \<Rightarrow> bool" where
  "is_error_id s = starts_with (local_id s) ''error-''"

text \<open>
  Events whose ids can be told apart: no colon in the machine name, no \<open>::\<close> in the entity of a local
  event, and no entity that looks like an error node unless the event reports an error.
\<close>

definition is_error_type :: "event_type \<Rightarrow> bool" where
  "is_error_type t = (t = ErrorHw \<or> t = ErrorNet \<or> t = TopoLinkDown)"

definition wf_event :: "event \<Rightarrow> bool" where
  "wf_event e =
     ((case ev_node_id e of
         Some p \<Rightarrow> CHR '':'' \<notin> set p
       | None \<Rightarrow> \<not> contains (ev_entity_id e) ''::'') \<and>
      (is_error_type (ev_type e) \<or> \<not> starts_with (ev_entity_id e) ''error-''))"

lemma find_sep:
  assumes "CHR '':'' \<notin> set p"
  shows "find_str (p @ ''::'' @ n) ''::'' = Some (length p)"
  using assms by (induction p) auto

lemma find_str_plain: "\<not> contains s ''::'' \<Longrightarrow> find_str s ''::'' = None"
  by (simp add: contains_def)

lemma namespace_parts:
  assumes "case ev_node_id e of Some p \<Rightarrow> CHR '':'' \<notin> set p | None \<Rightarrow> \<not> contains n ''::''"
  shows "ns_of (namespace_node_id e n) = ev_node_id e" "local_id (namespace_node_id e n) = n"
  using assms
  by (auto simp: ns_of_def local_id_def namespace_node_id_def find_sep[simplified] find_str_plain split: option.splits)

lemma contains_no_colon: "CHR '':'' \<notin> set s \<Longrightarrow> \<not> contains s ''::''"
  by (auto simp: contains_iff)

lemma contains_error_prefix: "contains (''error-'' @ s) ''::'' \<longleftrightarrow> contains s ''::''"
  by (auto simp: contains_def split: option.splits)

lemma pid_no_colon: "CHR '':'' \<notin> set (''pid-'' @ show_nat n)"
  using show_nat_no_char[of "CHR '':''" n] by (auto simp: is_digit_def)

lemma wf_event_ids:
  assumes "wf_event e"
  shows "ns_of (pid_node_id e pid) = ev_node_id e" "\<not> is_error_id (pid_node_id e pid)"
    "ns_of (namespace_node_id e (ev_entity_id e)) = ev_node_id e"
    "local_id (namespace_node_id e (ev_entity_id e)) = ev_entity_id e"
    "ns_of (namespace_node_id e (transport_resource e)) = ev_node_id e"
    "local_id (namespace_node_id e (transport_resource e)) = transport_resource e"
    "ns_of (namespace_node_id e (''error-'' @ ev_entity_id e)) = ev_node_id e"
    "is_error_id (namespace_node_id e (''error-'' @ ev_entity_id e))"
proof -
  have ok: "case ev_node_id e of Some p \<Rightarrow> CHR '':'' \<notin> set p | None \<Rightarrow> \<not> contains n ''::''"
    if "\<not> contains (ev_entity_id e) ''::'' \<Longrightarrow> \<not> contains n ''::''" for n
    using assms that by (auto simp: wf_event_def split: option.splits)
  note parts = namespace_parts[OF ok]
  show "ns_of (pid_node_id e pid) = ev_node_id e" "\<not> is_error_id (pid_node_id e pid)"
    using contains_no_colon[OF pid_no_colon, of pid] parts[of "''pid-'' @ show_nat pid"]
    by (simp_all add: pid_node_id_def is_error_id_def)
  show "ns_of (namespace_node_id e (ev_entity_id e)) = ev_node_id e"
    "local_id (namespace_node_id e (ev_entity_id e)) = ev_entity_id e"
    by (rule parts, assumption)+
  have "\<not> contains (transport_resource e) ''::''" if "\<not> contains (ev_entity_id e) ''::''"
    using that by (simp add: transport_resource_def contains_no_colon split: option.splits)
  then show "ns_of (namespace_node_id e (transport_resource e)) = ev_node_id e"
    "local_id (namespace_node_id e (transport_resource e)) = transport_resource e"
    by (auto intro: parts)
  have "local_id (namespace_node_id e (''error-'' @ ev_entity_id e)) = ''error-'' @ ev_entity_id e"
    "ns_of (namespace_node_id e (''error-'' @ ev_entity_id e)) = ev_node_id e"
    using contains_error_prefix by (auto intro: parts)
  then show "ns_of (namespace_node_id e (''error-'' @ ev_entity_id e)) = ev_node_id e"
    "is_error_id (namespace_node_id e (''error-'' @ ev_entity_id e))"
    by (simp_all add: is_error_id_def)
qed

lemma wf_event_resource:
  assumes "wf_event e" "\<not> is_error_type (ev_type e)"
  shows "\<not> is_error_id (namespace_node_id e (ev_entity_id e))"
    "\<not> is_error_id (namespace_node_id e (transport_resource e))"
  using assms unfolding is_error_id_def wf_event_ids(4,6)[OF assms(1)]
  by (auto simp: wf_event_def transport_resource_def split: option.splits)

section \<open>Edges never dangle\<close>

definition edge_ok :: "(string, node) hashmap \<Rightarrow> edge \<Rightarrow> bool" where
  "edge_ok ns ed \<longleftrightarrow>
     hm_contains ns (edge_from ed) \<and> hm_contains ns (edge_to ed) \<and>
     ns_of (edge_from ed) = ns_of (edge_to ed) \<and> \<not> is_error_id (edge_from ed) \<and>
     (edge_type ed = BlockedBy \<or> \<not> is_error_id (edge_to ed))"

definition errors_ok :: "(string, node) hashmap \<Rightarrow> bool" where
  "errors_ok ns \<longleftrightarrow> (\<forall>k n. hm_get ns k = Some n \<longrightarrow> node_type n = ErrorNode \<longrightarrow> is_error_id k)"

definition links_ok :: "state_graph \<Rightarrow> bool" where
  "links_ok g \<longleftrightarrow> (\<forall>ed\<in>set (edges g). edge_ok (nodes g) ed) \<and> errors_ok (nodes g)"

definition nodes_le :: "(string, node) hashmap \<Rightarrow> (string, node) hashmap \<Rightarrow> bool" where
  "nodes_le m m' \<longleftrightarrow> (\<forall>k. hm_contains m k \<longrightarrow> hm_contains m' k)"

lemma edge_ok_mono: "edge_ok m ed \<Longrightarrow> nodes_le m m' \<Longrightarrow> edge_ok m' ed"
  by (simp add: edge_ok_def nodes_le_def)

lemma contains_ensure [graph_simps]: "hm_contains (ensure_node k n m) k' \<longleftrightarrow> k' = k \<or> hm_contains m k'"
  by (auto simp: ensure_node_def hm_simps)

lemma contains_touch [graph_simps]: "hm_contains (touch_node k f v ts m) k' \<longleftrightarrow> hm_contains m k'"
  by (auto simp: touch_node_def hm_simps hm_contains_def split: option.splits)

lemma contains_signals:
  "hm_contains m k \<Longrightarrow> hm_contains (fold (\<lambda>p. hm_insert (signal_node_id p) (signal_node p)) ps m) k"
  by (induction ps arbitrary: m) (simp_all add: hm_simps)

lemma errors_ok_insert:
  "errors_ok m \<Longrightarrow> (node_type n = ErrorNode \<Longrightarrow> is_error_id k) \<Longrightarrow> errors_ok (hm_insert k n m)"
  by (simp add: errors_ok_def hm_simps)

lemma errors_ok_ensure:
  "errors_ok m \<Longrightarrow> (node_type n = ErrorNode \<Longrightarrow> is_error_id k) \<Longrightarrow> errors_ok (ensure_node k n m)"
  by (simp add: ensure_node_def errors_ok_insert)

lemma errors_ok_touch: "errors_ok m \<Longrightarrow> errors_ok (touch_node k f v ts m)"
  by (auto simp: touch_node_def errors_ok_def hm_simps split: option.splits)

lemma errors_ok_remove_list: "errors_ok m \<Longrightarrow> errors_ok (fold hm_remove ks m)"
  by (simp add: errors_ok_def hm_get_remove_list)

lemma signal_node_fields [simp]:
  "node_type (signal_node p) = ResourceNode" "node_id (signal_node p) = signal_node_id p"
  by (simp_all add: signal_node_def)

lemma errors_ok_signal: "errors_ok m \<Longrightarrow> errors_ok (hm_insert k (signal_node p) m)"
  by (rule errors_ok_insert) simp_all

lemma errors_ok_signals:
  "errors_ok m \<Longrightarrow> errors_ok (fold (\<lambda>p. hm_insert (signal_node_id p) (signal_node p)) ps m)"
  by (induction ps arbitrary: m) (simp_all add: errors_ok_signal)

lemmas errors_ok_ops = errors_ok_insert errors_ok_ensure errors_ok_touch

lemma links_ok_nodes:
  "links_ok g \<Longrightarrow> nodes_le (nodes g) ns \<Longrightarrow> errors_ok ns \<Longrightarrow> links_ok (g\<lparr>nodes := ns\<rparr>)"
  by (auto simp: links_ok_def intro: edge_ok_mono)

lemma links_ok_errors: "links_ok g \<Longrightarrow> errors_ok (nodes g)"
  by (simp add: links_ok_def)

lemma links_ok_upsert: "links_ok g \<Longrightarrow> edge_ok (nodes g) ed \<Longrightarrow> links_ok (snd (upsert_edge ed g))"
  by (auto simp: links_ok_def upsert_edge_def)

lemma links_ok_add_waits_on:
  assumes "links_ok g" "wf_event e" "hm_contains (nodes g) r" "ns_of r = ev_node_id e" "\<not> is_error_id r"
  shows "links_ok (add_waits_on e pid md r g)"
  unfolding add_waits_on_def Let_def using assms
  by (intro links_ok_upsert links_ok_nodes errors_ok_ops)
     (auto simp: links_ok_def edge_ok_def nodes_le_def graph_simps wf_event_ids)

lemma links_ok_process_state: "links_ok g \<Longrightarrow> wf_event e \<Longrightarrow> links_ok (handle_process_state e g)"
  by (auto simp: handle_process_state_def Let_def nodes_le_def graph_simps hm_simps
      intro!: links_ok_nodes errors_ok_ops links_ok_errors split: option.splits)

lemma links_ok_resource:
  assumes "links_ok g" "node_type n \<noteq> ErrorNode"
  shows "links_ok (g\<lparr>nodes := touch_node r f v t (ensure_node r n (nodes g))\<rparr>)"
  using assms
  by (intro links_ok_nodes errors_ok_ops) (auto simp: nodes_le_def graph_simps links_ok_def)

lemma links_ok_ensure:
  assumes "links_ok g" "node_type n \<noteq> ErrorNode \<or> is_error_id k"
  shows "links_ok (g\<lparr>nodes := ensure_node k n (nodes g)\<rparr>)"
  using assms
  by (intro links_ok_nodes errors_ok_ops) (auto simp: nodes_le_def graph_simps links_ok_errors)

lemma links_ok_compute:
  assumes "links_ok g" "wf_event e" "\<not> is_error_type (ev_type e)"
  shows "links_ok (handle_compute_event e g)"
proof (cases "ev_pid e")
  case None
  then show ?thesis using assms by (simp add: handle_compute_event_def Let_def links_ok_resource)
next
  case (Some pid)
  let ?r = "namespace_node_id e (ev_entity_id e)"
  let ?g = "g\<lparr>nodes := touch_node ?r ''util'' (ev_value e) (ev_ts e) (ensure_node ?r
     \<lparr>node_id = ?r, node_type = ResourceNode, last_update = ev_ts e, metadata = []\<rparr> (nodes g))\<rparr>"
  have "links_ok ?g" using assms(1) by (rule links_ok_resource) simp
  from links_ok_ensure[OF this] show ?thesis
    unfolding handle_compute_event_def Let_def using Some assms
    by (auto intro!: links_ok_upsert simp: edge_ok_def graph_simps wf_event_ids wf_event_resource)
qed

lemma links_ok_transport:
  assumes "links_ok g" "wf_event e" "\<not> is_error_type (ev_type e)"
  shows "links_ok (handle_transport_event e g)"
proof -
  let ?r = "namespace_node_id e (transport_resource e)"
  let ?g = "g\<lparr>nodes := touch_node ?r (transport_field e) (ev_value e) (ev_ts e) (ensure_node ?r
     \<lparr>node_id = ?r, node_type = ResourceNode, last_update = ev_ts e, metadata = []\<rparr> (nodes g))\<rparr>"
  have "links_ok ?g" using assms(1) by (rule links_ok_resource) simp
  then have "links_ok (add_waits_on e pid md ?r ?g)" for pid md
    using assms by (intro links_ok_add_waits_on) (simp_all add: graph_simps wf_event_ids wf_event_resource)
  with \<open>links_ok ?g\<close> show ?thesis
    unfolding handle_transport_event_def Let_def by (auto split: option.splits)
qed

lemma links_ok_fold_upsert:
  assumes "links_ok g" "\<And>x. x \<in> set xs \<Longrightarrow> edge_ok (nodes g) (f x)"
  shows "links_ok (fold (\<lambda>x g. snd (upsert_edge (f x) g)) xs g)"
  using assms by (induction xs arbitrary: g) (simp_all add: links_ok_upsert graph_simps)

lemma links_ok_error:
  assumes "links_ok g" "wf_event e"
  shows "links_ok (handle_error_event e g)"
proof -
  let ?k = "namespace_node_id e (''error-'' @ ev_entity_id e)"
  let ?r = "namespace_node_id e (ev_entity_id e)"
  let ?g = "g\<lparr>nodes := ensure_node ?k \<lparr>node_id = ?k, node_type = ErrorNode, last_update = ev_ts e,
     metadata = hm_insert ''error_type'' (ev_value e) []\<rparr> (nodes g)\<rparr>"
  have g: "links_ok ?g" using assms by (intro links_ok_ensure) (simp_all add: wf_event_ids(8)[simplified])
  have "edge_ok (nodes ?g) \<lparr>edge_type = BlockedBy, edge_from = edge_from ed, edge_to = ?k, edge_ts = t\<rparr>"
    if "ed \<in> set (edges ?g)" "edge_to ed = ?r" for ed t
    using that g wf_event_ids[OF assms(2)] by (auto simp: links_ok_def edge_ok_def graph_simps)
  then show ?thesis
    unfolding handle_error_event_def Let_def using g by (intro links_ok_fold_upsert) auto
qed

lemma links_ok_handle_event: "links_ok g \<Longrightarrow> wf_event e \<Longrightarrow> links_ok (handle_event e g)"
  by (simp add: handle_event_def handle_storage_event_def handle_topo_event_def links_ok_process_state
      links_ok_compute links_ok_transport links_ok_error is_error_type_def split: event_type.splits)

lemma links_ok_frame [graph_simps]: "links_ok (g\<lparr>last_cleanup_ts := t\<rparr>) = links_ok g"
  "links_ok (g\<lparr>signals := s\<rparr>) = links_ok g"
  by (simp_all add: links_ok_def)

lemma links_ok_update_signals: "links_ok g \<Longrightarrow> links_ok (update_signals e g)"
  by (auto simp: update_signals_def graph_simps Let_def nodes_le_def contains_signals errors_ok_signals
      links_ok_errors intro!: links_ok_nodes split: prod.splits)

section \<open>Cleanup\<close>

text \<open>What cleanup at a given time takes away from the nodes and the edges.\<close>

definition cleaned :: "nat \<Rightarrow> state_graph \<Rightarrow> node \<Rightarrow> bool" where
  "cleaned t g n \<longleftrightarrow>
     expired_error (saturating_sub t (error_window_ms g)) n \<or>
     dead_process (saturating_sub t (10 * 60 * 1000)) n"

definition node_is :: "state_graph \<Rightarrow> (node \<Rightarrow> bool) \<Rightarrow> string \<Rightarrow> bool" where
  "node_is g P k = (case hm_get (nodes g) k of Some n \<Rightarrow> P n | None \<Rightarrow> False)"

definition surviving_edges :: "nat \<Rightarrow> state_graph \<Rightarrow> edge list" where
  "surviving_edges t g = filter (\<lambda>e.
     \<not> (edge_type e = BlockedBy \<and>
        node_is g (expired_error (saturating_sub t (error_window_ms g))) (edge_to e)) \<and>
     \<not> node_is g (dead_process (saturating_sub t (10 * 60 * 1000))) (edge_from e) \<and>
     \<not> node_is g (dead_process (saturating_sub t (10 * 60 * 1000))) (edge_to e) \<and>
     saturating_sub t EDGE_TTL_MS \<le> edge_ts e) (edges g)"

lemma set_keys_where: "hm_wf m \<Longrightarrow> k \<in> set (keys_where P m) \<longleftrightarrow> (\<exists>n. hm_get m k = Some n \<and> P n)"
  by (force simp: keys_where_def hm_get_def hm_wf_def)

lemma keys_where_node_is: "graph_inv g \<Longrightarrow> k \<in> set (keys_where P (nodes g)) \<longleftrightarrow> node_is g P k"
  by (auto simp: set_keys_where graph_inv_def nodes_ok_def node_is_def split: option.splits)

lemma cleanup_nodes:
  assumes "graph_inv g"
  shows "hm_get (nodes (cleanup_old_errors t g)) k =
     (case hm_get (nodes g) k of None \<Rightarrow> None | Some n \<Rightarrow> if cleaned t g n then None else Some n)"
  by (simp add: cleanup_old_errors_def cleanup_sets_def cleanup_apply_def Let_def graph_simps
      hm_get_remove_list keys_where_node_is[OF assms] node_is_def cleaned_def split: option.splits)

lemma cleanup_edges:
  assumes "graph_inv g"
  shows "edges (cleanup_old_errors t g) = cap_edges (surviving_edges t g)"
  by (simp add: cleanup_old_errors_def cleanup_sets_def cleanup_apply_def Let_def graph_simps
      keys_where_node_is[OF assms] surviving_edges_def conj_ac)

lemma links_ok_cleanup:
  assumes "graph_inv g" "links_ok g"
  shows "links_ok (cleanup_old_errors t g)"
proof -
  have keep: "hm_contains (nodes (cleanup_old_errors t g)) k"
    if "hm_contains (nodes g) k" "\<not> node_is g (dead_process (saturating_sub t (10 * 60 * 1000))) k"
      "\<not> node_is g (expired_error (saturating_sub t (error_window_ms g))) k" for k
    using that by (auto simp: hm_contains_def cleanup_nodes[OF assms(1)] node_is_def cleaned_def split: option.splits)
  have err: "is_error_id k" if "node_is g (expired_error c) k" for k c
    using that assms(2) by (auto simp: links_ok_def errors_ok_def node_is_def expired_error_def split: option.splits)
  have "edge_ok (nodes (cleanup_old_errors t g)) ed" if "ed \<in> set (surviving_edges t g)" for ed
    using that assms(2) by (auto simp: surviving_edges_def links_ok_def edge_ok_def intro!: keep dest: err)
  moreover have "errors_ok (nodes (cleanup_old_errors t g))"
    using assms(2) by (auto simp: links_ok_def errors_ok_def cleanup_nodes[OF assms(1)] split: option.splits if_splits)
  ultimately show ?thesis
    using set_cap_edges by (auto simp: links_ok_def cleanup_edges[OF assms(1)])
qed

lemma links_ok_process_event:
  assumes "graph_inv g" "links_ok g" "wf_event e"
  shows "links_ok (snd (process_event e g))"
  using assms by (auto simp: process_event_def Let_def graph_simps
      intro!: links_ok_update_signals links_ok_cleanup links_ok_handle_event graph_inv_handle_event)

lemma links_ok_new: "links_ok state_graph_new"
  by (simp add: links_ok_def errors_ok_def state_graph_new_def)

interpretation wf_run: step_invariant "\<lambda>e g. snd (process_event e g)" wf_event "\<lambda>g. graph_inv g \<and> links_ok g"
  by unfold_locales (simp add: graph_inv_process_event links_ok_process_event)

text \<open>
  \<^bold>\<open>C3.\<close>  Referential integrity and isolation: after any stream of well-formed events, in any order of
  time stamps and across any number of cleanups, both ends of every edge are nodes of the graph, and
  both belong to the same machine, so the causes found for a process never mix machines.
\<close>

theorem edges_never_dangle:
  assumes "list_all wf_event es" "ed \<in> set (edges (process_events es state_graph_new))"
  shows "hm_contains (nodes (process_events es state_graph_new)) (edge_from ed) \<and>
    hm_contains (nodes (process_events es state_graph_new)) (edge_to ed) \<and>
    ns_of (edge_from ed) = ns_of (edge_to ed)"
proof -
  have "links_ok (process_events es state_graph_new)"
    using wf_run.run_inv[OF assms(1), of state_graph_new] graph_inv_new links_ok_new by (simp add: process_events_def)
  with assms(2) show ?thesis by (auto simp: links_ok_def edge_ok_def)
qed

definition gpu_use :: event where
  "gpu_use = \<lparr>ev_ts = 1000, ev_type = ComputeMem, ev_entity_id = ''gpu-0'', ev_job_id = None,
     ev_pid = Some 7, ev_value = ''80'', ev_node_id = Some ''a''\<rparr>"

definition gpu_error :: "nat \<Rightarrow> event" where
  "gpu_error t = \<lparr>ev_ts = t, ev_type = ErrorHw, ev_entity_id = ''gpu-0'', ev_job_id = None,
     ev_pid = None, ev_value = ''XID 79'', ev_node_id = Some ''a''\<rparr>"

theorem edges_never_dangle_witness:
  "ns_of ''a::pid-7'' = ns_of ''a::gpu-0'' \<and> hm_contains (nodes (process_events [gpu_error 900, gpu_use] state_graph_new)) ''a::gpu-0''"
proof -
  let ?ed = "\<lparr>edge_type = Consumes, edge_from = ''a::pid-7'', edge_to = ''a::gpu-0'', edge_ts = 1000\<rparr>"
  have "list_all wf_event [gpu_error 900, gpu_use]" by code_simp
  moreover have "?ed \<in> set (edges (process_events [gpu_error 900, gpu_use] state_graph_new))" by code_simp
  ultimately show ?thesis using edges_never_dangle[of "[gpu_error 900, gpu_use]" ?ed] by simp
qed

text \<open>
  \<^bold>\<open>C4.\<close>  Cleanup is exact.  A node disappears if and only if it is an error outside the error window
  or a process that is dead or stale and not running, so resources always stay.  The edges left are
  the surviving ones up to the capacity; when there are too many, each edge kept is at least as new
  as each edge dropped.
\<close>

theorem cleanup_exact:
  "let g = process_events es state_graph_new; g' = cleanup_old_errors t g in
     (\<forall>k. hm_get (nodes g') k =
        (case hm_get (nodes g) k of None \<Rightarrow> None | Some n \<Rightarrow> if cleaned t g n then None else Some n)) \<and>
     length (edges g') = min MAX_EDGES (length (surviving_edges t g)) \<and>
     (\<exists>dropped. mset (edges g') + mset dropped = mset (surviving_edges t g) \<and>
        list_all (\<lambda>d. list_all (\<lambda>e. edge_ts d \<le> edge_ts e) (edges g')) dropped)"
proof -
  define g where "g = process_events es state_graph_new"
  have inv: "graph_inv g" using graph_inv_process_events[OF graph_inv_new] by (simp add: g_def)
  define xs where "xs = surviving_edges t g"
  define ys where "ys = sort_desc edge_ts xs"
  have "\<exists>dropped. mset (cap_edges xs) + mset dropped = mset xs \<and>
     list_all (\<lambda>d. list_all (\<lambda>e. edge_ts d \<le> edge_ts e) (cap_edges xs)) dropped"
  proof (cases "MAX_EDGES < length xs")
    case True
    have "sorted_wrt (\<lambda>x y. edge_ts y \<le> edge_ts x) (take MAX_EDGES ys @ drop MAX_EDGES ys)"
      unfolding append_take_drop_id ys_def by (rule sorted_sort_desc)
    then have "\<forall>d\<in>set (drop MAX_EDGES ys). \<forall>e\<in>set (take MAX_EDGES ys). edge_ts d \<le> edge_ts e"
      unfolding sorted_wrt_append by blast
    moreover have "mset (take MAX_EDGES ys) + mset (drop MAX_EDGES ys) = mset xs"
      unfolding mset_append[symmetric] append_take_drop_id by (simp add: ys_def)
    ultimately show ?thesis using True
      by (intro exI[of _ "drop MAX_EDGES ys"]) (simp add: cap_edges_def ys_def list_all_iff)
  next
    case False
    then show ?thesis by (intro exI[of _ "[]"]) (simp add: cap_edges_def)
  qed
  moreover have "length (cap_edges xs) = min MAX_EDGES (length xs)" by (auto simp: cap_edges_def)
  ultimately show ?thesis
    unfolding Let_def g_def[symmetric] cleanup_edges[OF inv] xs_def[symmetric]
    by (simp add: cleanup_nodes[OF inv])
qed

section \<open>Processes and errors\<close>

lemma no_sample: "ev_type e \<noteq> TransportDrop \<Longrightarrow> ev_type e \<noteq> ComputeUtil \<Longrightarrow> extract_sample spec e = None"
  by (simp add: extract_sample_def)

lemma on_event_no_sample:
  assumes "ev_type e \<noteq> TransportDrop" "ev_type e \<noteq> ComputeUtil"
  shows "on_event e eng = (eng, [])"
proof -
  have "on_event_specs e specs eng = (eng, [])" for specs
    by (induction specs) (simp_all add: on_event_spec_def no_sample[OF assms])
  then show ?thesis by (simp add: on_event_def)
qed

lemma update_signals_no_sample:
  assumes "ev_type e \<noteq> TransportDrop" "ev_type e \<noteq> ComputeUtil"
  shows "update_signals e g = g"
  by (simp add: update_signals_def on_event_no_sample[OF assms])

lemma set_active_processes:
  "graph_inv g \<Longrightarrow> n \<in> set (get_active_processes g) \<longleftrightarrow>
     hm_get (nodes g) (node_id n) = Some n \<and> node_type n = ProcessNode \<and>
     hm_get (metadata n) ''state'' \<noteq> Some ''exit'' \<and> hm_get (metadata n) ''state'' \<noteq> Some ''zombie''"
  unfolding get_active_processes_def graph_inv_def nodes_ok_def by (auto simp: set_hm_values)

lemma process_event_nodes_sub:
  assumes "graph_inv g" "ev_type e \<noteq> TransportDrop" "ev_type e \<noteq> ComputeUtil"
    "hm_get (nodes (snd (process_event e g))) k = Some n"
  shows "hm_get (nodes (handle_event e g)) k = Some n"
  using assms graph_inv_handle_event[OF assms(1), of e]
  by (auto simp: process_event_def Let_def update_signals_no_sample cleanup_nodes
      split: if_splits option.splits)

text \<open>
  \<^bold>\<open>C6.\<close>  Process lifecycle.  After a process reports \<open>start\<close> it is among the active processes,
  whatever it was before and whether or not the event triggers a cleanup; after it reports \<open>exit\<close> or
  \<open>zombie\<close> it is not.
\<close>

theorem process_lifecycle:
  assumes "ev_type e = ProcessState" "ev_pid e = Some pid"
  shows "let g' = snd (process_event e (process_events es state_graph_new));
             active = map node_id (get_active_processes g') in
     (ev_value e = ''start'' \<longrightarrow> pid_node_id e pid \<in> set active) \<and>
     (ev_value e = ''exit'' \<or> ev_value e = ''zombie'' \<longrightarrow> pid_node_id e pid \<notin> set active)"
proof -
  define g where "g = process_events es state_graph_new"
  define g1 where "g1 = snd (process_event e g)"
  have inv: "graph_inv g" using graph_inv_process_events[OF graph_inv_new] by (simp add: g_def)
  then have inv': "graph_inv (handle_event e g)" "graph_inv g1"
    by (simp_all add: graph_inv_handle_event g1_def graph_inv_process_event)
  let ?k = "pid_node_id e pid"
  have "?k \<in> set (map node_id (get_active_processes g1))" if v: "ev_value e = ''start''"
  proof -
    obtain n where n: "hm_get (nodes (handle_event e g)) ?k = Some n" "node_id n = ?k" "node_type n = ProcessNode"
      "hm_get (metadata n) ''state'' = Some ''running''"
      using assms v by (simp add: handle_event_def handle_process_state_def Let_def hm_simps)
    then have "\<not> cleaned t (handle_event e g) n" for t
      by (simp add: cleaned_def expired_error_def dead_process_def)
    with n have "hm_get (nodes g1) ?k = Some n"
      using assms by (simp add: g1_def process_event_def Let_def update_signals_no_sample cleanup_nodes[OF inv'(1)])
    with n show ?thesis using set_active_processes[OF inv'(2), of n] by force
  qed
  moreover have "?k \<notin> set (map node_id (get_active_processes g1))"
    if v: "ev_value e = ''exit'' \<or> ev_value e = ''zombie''"
  proof
    assume "?k \<in> set (map node_id (get_active_processes g1))"
    then obtain n where n: "hm_get (nodes g1) ?k = Some n" "hm_get (metadata n) ''state'' \<noteq> Some ''exit''"
      "hm_get (metadata n) ''state'' \<noteq> Some ''zombie''"
      by (auto simp: set_active_processes[OF inv'(2)])
    have "hm_get (nodes (handle_event e g)) ?k = Some n"
      using process_event_nodes_sub[OF inv] n(1) assms(1) by (simp add: g1_def)
    with n v assms show False
      by (auto simp: handle_event_def handle_process_state_def Let_def touch_node_def hm_simps
          split: option.splits if_splits)
  qed
  ultimately show ?thesis by (simp add: g_def g1_def Let_def)
qed

theorem process_lifecycle_witness:
  "''pid-7'' \<in> set (map node_id (get_active_processes (snd (process_event
     (gpu_use\<lparr>ev_type := ProcessState, ev_value := ''start'', ev_node_id := None\<rparr>) (process_events [gpu_use] state_graph_new)))))"
proof -
  let ?e = "gpu_use\<lparr>ev_type := ProcessState, ev_value := ''start'', ev_node_id := None\<rparr>"
  have "ev_type ?e = ProcessState" "ev_pid ?e = Some 7" "ev_value ?e = ''start''" "pid_node_id ?e 7 = ''pid-7''"
    by code_simp+
  then show ?thesis using process_lifecycle[of ?e 7 "[gpu_use]"] by (simp add: Let_def)
qed

text \<open>A hardware error reaches the diagnosis of every process that uses the device.\<close>

definition error_node_id :: "event \<Rightarrow> string" where
  "error_node_id e = namespace_node_id e (''error-'' @ ev_entity_id e)"

lemma handle_event_error: "is_error_type (ev_type e) \<Longrightarrow> handle_event e g = handle_error_event e g"
  by (auto simp: is_error_type_def handle_event_def handle_topo_event_def)

lemma error_event_nodes:
  "nodes (handle_error_event e g) = ensure_node (error_node_id e)
     \<lparr>node_id = error_node_id e, node_type = ErrorNode, last_update = ev_ts e,
      metadata = hm_insert ''error_type'' (ev_value e) []\<rparr> (nodes g)"
  by (simp add: handle_error_event_def Let_def graph_simps error_node_id_def)

lemma fold_upsert_timer [graph_simps]:
  "last_cleanup_ts (fold (\<lambda>x g. snd (upsert_edge (f x) g)) xs g) = last_cleanup_ts g"
  "cleanup_interval_ms (fold (\<lambda>x g. snd (upsert_edge (f x) g)) xs g) = cleanup_interval_ms g"
  "error_window_ms (fold (\<lambda>x g. snd (upsert_edge (f x) g)) xs g) = error_window_ms g"
  by (induction xs arbitrary: g) (simp_all add: graph_simps)

lemma error_event_timer [graph_simps]:
  "last_cleanup_ts (handle_error_event e g) = last_cleanup_ts g"
  "cleanup_interval_ms (handle_error_event e g) = cleanup_interval_ms g"
  "error_window_ms (handle_error_event e g) = error_window_ms g"
  by (simp_all add: handle_error_event_def Let_def graph_simps)

lemma has_edge_key:
  "has_edge g t a b \<longleftrightarrow> \<lparr>key_type = t, key_from = a, key_to = b\<rparr> \<in> edge_key_of ` set (edges g)"
  by (auto simp: has_edge_def edge_key_of_def)

lemma error_event_edges:
  assumes "index_ok g" "has_edge g Consumes p (namespace_node_id e (ev_entity_id e))"
  shows "has_edge (handle_error_event e g) BlockedBy p (error_node_id e)"
proof -
  have "p \<in> edge_from ` {ed \<in> set (edges g). edge_type ed = Consumes \<and> edge_to ed = namespace_node_id e (ev_entity_id e)}"
    using assms(2) by (auto simp: has_edge_def)
  then show ?thesis
    unfolding has_edge_key handle_error_event_def Let_def error_node_id_def
    by (subst fold_upsert_edge_keys) (auto simp: graph_simps assms(1) edge_key_of_def o_def image_image)
qed

lemma error_no_sample:
  "is_error_type (ev_type e) \<Longrightarrow> update_signals e g = g"
  by (rule update_signals_no_sample) (auto simp: is_error_type_def)

text \<open>A new error gives every process that uses the device an edge with the time of the event.\<close>

lemma error_event_edge:
  assumes "index_ok g" "has_edge g Consumes p (namespace_node_id e (ev_entity_id e))"
    and "\<not> has_edge g BlockedBy p (error_node_id e)"
  shows "\<lparr>edge_type = BlockedBy, edge_from = p, edge_to = error_node_id e, edge_ts = ev_ts e\<rparr>
    \<in> set (edges (handle_error_event e g))"
proof -
  obtain ed where ed: "ed \<in> set (edges (handle_error_event e g))" "edge_type ed = BlockedBy" "edge_from ed = p"
    "edge_to ed = error_node_id e"
    using error_event_edges[OF assms(1,2)] by (auto simp: has_edge_def)
  have "ed \<notin> set (edges g)" using assms(3) ed by (auto simp: has_edge_def)
  with ed(1) have "edge_ts ed = ev_ts e"
    unfolding handle_error_event_def Let_def by (auto simp: graph_simps dest!: subsetD[OF fold_upsert_edges_subset])
  with ed have "ed = \<lparr>edge_type = BlockedBy, edge_from = p, edge_to = error_node_id e, edge_ts = ev_ts e\<rparr>"
    by (simp add: edge.equality)
  with ed(1) show ?thesis by simp
qed

text \<open>
  What lets a process keep a new error when the event of the error triggers a cleanup: the process is
  neither dead nor stale, and the edges are within the capacity.
\<close>

definition outlives_cleanup :: "event \<Rightarrow> string \<Rightarrow> state_graph \<Rightarrow> bool" where
  "outlives_cleanup e p g \<longleftrightarrow>
     \<not> node_is g (dead_process (saturating_sub (ev_ts e) (10 * 60 * 1000))) p \<and>
     length (edges (handle_error_event e g)) \<le> MAX_EDGES"

lemma cleanup_keeps_error:
  assumes inv: "graph_inv g" and "links_ok g"
    and use: "has_edge g Consumes p (namespace_node_id e (ev_entity_id e))"
    and new: "hm_get (nodes g) (error_node_id e) = None" and live: "outlives_cleanup e p g"
  shows "has_edge (cleanup_old_errors (ev_ts e) (handle_error_event e g)) BlockedBy p (error_node_id e) \<and>
    hm_get (nodes (cleanup_old_errors (ev_ts e) (handle_error_event e g))) (error_node_id e) =
      hm_get (nodes (handle_error_event e g)) (error_node_id e)"
proof -
  let ?g = "handle_error_event e g"
  let ?ed = "\<lparr>edge_type = BlockedBy, edge_from = p, edge_to = error_node_id e, edge_ts = ev_ts e\<rparr>"
  let ?n = "\<lparr>node_id = error_node_id e, node_type = ErrorNode, last_update = ev_ts e,
    metadata = hm_insert ''error_type'' (ev_value e) []\<rparr>"
  have inv': "graph_inv ?g" using inv by (rule graph_inv_handlers)
  have n: "hm_get (nodes ?g) (error_node_id e) = Some ?n"
    using new by (simp add: error_event_nodes ensure_node_def hm_contains_def hm_simps)
  have "\<not> has_edge g BlockedBy p (error_node_id e)"
    using assms(2) new by (auto simp: has_edge_def links_ok_def edge_ok_def hm_contains_def)
  with inv use have ed: "?ed \<in> set (edges ?g)" by (intro error_event_edge) (simp_all add: graph_inv_def)
  have "p \<noteq> error_node_id e" 
    using use assms(2) new by (auto simp: has_edge_def links_ok_def edge_ok_def hm_contains_def)
  then have "node_is ?g P p = node_is g P p" for P
    by (simp add: node_is_def error_event_nodes ensure_node_def hm_simps)
  with ed live n have "?ed \<in> set (surviving_edges (ev_ts e) ?g)"
    by (simp add: surviving_edges_def outlives_cleanup_def node_is_def expired_error_def dead_process_def saturating_sub_def)
  moreover have "length (surviving_edges (ev_ts e) ?g) \<le> MAX_EDGES"
    using live length_filter_le le_trans unfolding outlives_cleanup_def surviving_edges_def by blast
  ultimately have "?ed \<in> set (edges (cleanup_old_errors (ev_ts e) ?g))"
    by (simp add: cleanup_edges[OF inv'] cap_edges_def)
  moreover have "\<not> cleaned (ev_ts e) ?g ?n"
    by (simp add: cleaned_def expired_error_def dead_process_def saturating_sub_def)
  ultimately show ?thesis by (auto simp: has_edge_def cleanup_nodes[OF inv'] n intro!: bexI[of _ ?ed])
qed

text \<open>
  \<^bold>\<open>C5.\<close>  The diagnosis loop closes: when an error event arrives for a device and the graph does not have
  that error yet, every process with a \<open>Consumes\<close> edge to the device gets the error, with its message,
  among its root causes.  When the event also triggers a cleanup this needs a stream of well-formed
  events, a process that is neither dead nor stale, and edges within the capacity: cleanup may take
  away the process or the edge otherwise.
\<close>

theorem diagnosis_closes:
  assumes "is_error_type (ev_type e)"
    and "has_edge (process_events es state_graph_new) Consumes p (namespace_node_id e (ev_entity_id e))"
    and "hm_get (nodes (process_events es state_graph_new)) (error_node_id e) = None"
    and "cleanup_due (ev_ts e) (process_events es state_graph_new) \<longrightarrow>
      list_all wf_event es \<and> outlives_cleanup e p (process_events es state_graph_new)"
  shows "error_node_id e @ '': '' @ ev_value e
    \<in> set (find_root_cause_by_id p (snd (process_event e (process_events es state_graph_new))))"
proof -
  define g where "g = process_events es state_graph_new"
  define g' where "g' = snd (process_event e g)"
  have inv: "graph_inv g" using graph_inv_process_events[OF graph_inv_new] by (simp add: g_def)
  let ?n = "\<lparr>node_id = error_node_id e, node_type = ErrorNode, last_update = ev_ts e,
    metadata = hm_insert ''error_type'' (ev_value e) []\<rparr>"
  have n: "hm_get (nodes (handle_error_event e g)) (error_node_id e) = Some ?n"
    using assms(3) by (simp add: error_event_nodes ensure_node_def hm_contains_def hm_simps g_def)
  have due: "cleanup_due (ev_ts e) (handle_error_event e g) = cleanup_due (ev_ts e) g"
    by (simp add: cleanup_due_def graph_simps)
  have g': "g' = (if cleanup_due (ev_ts e) g
      then (cleanup_old_errors (ev_ts e) (handle_error_event e g))\<lparr>last_cleanup_ts := ev_ts e\<rparr> else handle_error_event e g)"
    using assms(1) by (simp add: g'_def process_event_def Let_def handle_event_error error_no_sample due)
  have "has_edge g' BlockedBy p (error_node_id e) \<and> hm_get (nodes g') (error_node_id e) = Some ?n"
  proof (cases "cleanup_due (ev_ts e) g")
    case True
    have "links_ok g"
      using wf_run.run_inv[of es state_graph_new] assms(4) True graph_inv_new links_ok_new
      by (simp add: process_events_def g_def)
    from cleanup_keeps_error[OF inv this] assms(2,3,4) True n show ?thesis
      by (simp add: g' has_edge_def g_def[symmetric])
  next
    case False
    then show ?thesis using error_event_edges[of g p e] inv assms(2) n by (simp add: graph_inv_def g' g_def[symmetric])
  qed
  moreover have "error_desc (error_node_id e) ?n = error_node_id e @ '': '' @ ev_value e"
    by (simp add: error_desc_def hm_simps)
  ultimately have "error_node_id e @ '': '' @ ev_value e \<in> root_causes p g'"
    unfolding root_causes_def by (fastforce intro: rtrancl_refl)
  moreover have "graph_inv g'" unfolding g'_def using inv by (rule graph_inv_process_event)
  ultimately show ?thesis unfolding g_def[symmetric] g'_def[symmetric] by (simp add: find_root_cause_reachable)
qed

theorem diagnosis_closes_witness:
  "''a::error-gpu-0: XID 79'' \<in> set (find_root_cause_by_id ''a::pid-7''
     (snd (process_event (gpu_error 70000) (process_events [gpu_use] state_graph_new)))) \<and>
   cleanup_due 70000 (process_events [gpu_use] state_graph_new)"
proof -
  have v: "is_error_type (ev_type (gpu_error 70000))"
    "has_edge (process_events [gpu_use] state_graph_new) Consumes ''a::pid-7''
       (namespace_node_id (gpu_error 70000) (ev_entity_id (gpu_error 70000)))"
    "hm_get (nodes (process_events [gpu_use] state_graph_new)) (error_node_id (gpu_error 70000)) = None"
    "cleanup_due 70000 (process_events [gpu_use] state_graph_new)" "list_all wf_event [gpu_use]"
    "outlives_cleanup (gpu_error 70000) ''a::pid-7'' (process_events [gpu_use] state_graph_new)"
    "error_node_id (gpu_error 70000) @ '': '' @ ev_value (gpu_error 70000) = ''a::error-gpu-0: XID 79''"
    by code_simp+
  have "''a::error-gpu-0: XID 79'' \<in> set (find_root_cause_by_id ''a::pid-7''
      (snd (process_event (gpu_error 70000) (process_events [gpu_use] state_graph_new))))"
    using diagnosis_closes[OF v(1-3)] v(5,6) unfolding v(7) by blast
  with v(4) show ?thesis by blast
qed

section \<open>What is not refreshed\<close>

text \<open>
  A recurring error is forgotten while it recurs: an error event does not refresh the update
  time of an error node that is already there, so when its first report has left the error window and
  the event triggers a cleanup, that very event removes the error it reports.
\<close>

theorem recurring_error_dropped:
  assumes "is_error_type (ev_type e)"
    and "hm_get (nodes (process_events es state_graph_new)) (error_node_id e) = Some n"
    and "node_type n = ErrorNode" "last_update n < ev_ts e - error_window_ms (process_events es state_graph_new)"
    and "cleanup_due (ev_ts e) (process_events es state_graph_new)"
  shows "hm_get (nodes (snd (process_event e (process_events es state_graph_new)))) (error_node_id e) = None"
proof -
  define g where "g = process_events es state_graph_new"
  have "graph_inv g" using graph_inv_process_events[OF graph_inv_new] by (simp add: g_def)
  then have inv: "graph_inv (handle_error_event e g)" by (rule graph_inv_handlers)
  have due: "cleanup_due (ev_ts e) (handle_error_event e g)"
    using assms(5) by (simp add: cleanup_due_def graph_simps g_def)
  have "hm_get (nodes (handle_error_event e g)) (error_node_id e) = Some n"
    using assms(2) by (simp add: error_event_nodes ensure_node_def hm_contains_def g_def)
  moreover have "cleaned (ev_ts e) (handle_error_event e g) n"
    using assms(3,4) by (simp add: cleaned_def expired_error_def graph_simps saturating_sub_def g_def)
  ultimately show ?thesis
    using assms(1) due unfolding g_def[symmetric]
    by (simp add: process_event_def Let_def handle_event_error error_no_sample cleanup_nodes[OF inv])
qed

theorem recurring_error_dropped_witness:
  "hm_get (nodes (snd (process_event (gpu_error 302001) (process_events [gpu_use, gpu_error 2000] state_graph_new))))
     ''a::error-gpu-0'' = None"
proof -
  let ?n = "\<lparr>node_id = ''a::error-gpu-0'', node_type = ErrorNode, last_update = 2000,
    metadata = [(''error_type'', ''XID 79'')]\<rparr>"
  have "is_error_type (ev_type (gpu_error 302001))"
    "hm_get (nodes (process_events [gpu_use, gpu_error 2000] state_graph_new)) (error_node_id (gpu_error 302001)) = Some ?n"
    "last_update ?n < ev_ts (gpu_error 302001) - error_window_ms (process_events [gpu_use, gpu_error 2000] state_graph_new)"
    "cleanup_due (ev_ts (gpu_error 302001)) (process_events [gpu_use, gpu_error 2000] state_graph_new)"
    "error_node_id (gpu_error 302001) = ''a::error-gpu-0''"
    by code_simp+
  then show ?thesis
    using recurring_error_dropped[of "gpu_error 302001" "[gpu_use, gpu_error 2000]" ?n] by simp
qed

lemma compute_edges:
  assumes "index_ok g" "ev_pid e = Some pid"
    "has_edge g Consumes (pid_node_id e pid) (namespace_node_id e (ev_entity_id e))"
  shows "edges (handle_compute_event e g) = edges g"
  using assms
  by (simp add: handle_compute_event_def Let_def has_edge_key upsert_edge_edges graph_simps edge_key_of_def)

lemma compute_timer [graph_simps]:
  "last_cleanup_ts (handle_compute_event e g) = last_cleanup_ts g"
  "cleanup_interval_ms (handle_compute_event e g) = cleanup_interval_ms g"
  by (simp_all add: handle_compute_event_def Let_def graph_simps split: option.splits)

lemma update_signals_edges [graph_simps]: "edges (update_signals e g) = edges g"
  by (simp add: update_signals_def Let_def split: prod.splits)

lemma same_key_same_edge:
  "index_ok g \<Longrightarrow> a \<in> set (edges g) \<Longrightarrow> b \<in> set (edges g) \<Longrightarrow> edge_key_of a = edge_key_of b \<Longrightarrow> a = b"
  by (auto simp: index_ok_def distinct_map inj_on_def)

text \<open>
  A use that is still being reported is forgotten: an event for an edge that is already there
  does not refresh its time stamp, so once the edge is older than the edge TTL, an event that reports
  the same process on the same device and triggers a cleanup leaves the graph without that edge.
\<close>

theorem live_edge_expires:
  assumes "ev_type e = ComputeUtil \<or> ev_type e = ComputeMem" "ev_pid e = Some pid"
    and "ed \<in> set (edges (process_events es state_graph_new))" "edge_type ed = Consumes"
    and "edge_from ed = pid_node_id e pid" "edge_to ed = namespace_node_id e (ev_entity_id e)"
    and "edge_ts ed < ev_ts e - EDGE_TTL_MS" "cleanup_due (ev_ts e) (process_events es state_graph_new)"
  shows "\<not> has_edge (snd (process_event e (process_events es state_graph_new)))
    Consumes (pid_node_id e pid) (namespace_node_id e (ev_entity_id e))"
proof -
  define g where "g = process_events es state_graph_new"
  let ?g = "handle_compute_event e g" and ?r = "namespace_node_id e (ev_entity_id e)"
  have inv: "graph_inv g" using graph_inv_process_events[OF graph_inv_new] by (simp add: g_def)
  then have inv': "graph_inv ?g" by (rule graph_inv_handlers)
  have ok: "index_ok g" using inv by (simp add: graph_inv_def)
  have due: "cleanup_due (ev_ts e) ?g" using assms(8) by (simp add: cleanup_due_def graph_simps g_def)
  have same: "edges ?g = edges g"
    using compute_edges[OF ok assms(2)] assms(3-6) by (auto simp: has_edge_def g_def)
  have "x = ed" if "x \<in> set (edges g)" "edge_type x = Consumes" "edge_from x = pid_node_id e pid" "edge_to x = ?r" for x
    using same_key_same_edge[OF ok that(1), of ed] assms(3-6) that by (simp add: edge_key_of_def g_def)
  then have "\<not> (\<exists>x\<in>set (surviving_edges (ev_ts e) ?g).
      edge_type x = Consumes \<and> edge_from x = pid_node_id e pid \<and> edge_to x = ?r)"
    using assms(7) by (fastforce simp: surviving_edges_def same saturating_sub_def)
  moreover have "edges (snd (process_event e g)) = cap_edges (surviving_edges (ev_ts e) ?g)"
    using assms(1) due
    by (auto simp: process_event_def Let_def graph_simps handle_event_def cleanup_edges[OF inv'])
  ultimately show ?thesis
    unfolding g_def[symmetric] has_edge_def using set_cap_edges by fastforce
qed

theorem live_edge_expires_witness:
  "\<not> has_edge (snd (process_event (gpu_use\<lparr>ev_ts := 3700000\<rparr>) (process_events [gpu_use] state_graph_new)))
     Consumes ''a::pid-7'' ''a::gpu-0''"
proof -
  let ?e = "gpu_use\<lparr>ev_ts := 3700000\<rparr>"
  let ?ed = "\<lparr>edge_type = Consumes, edge_from = ''a::pid-7'', edge_to = ''a::gpu-0'', edge_ts = 1000\<rparr>"
  have "?ed \<in> set (edges (process_events [gpu_use] state_graph_new))" "edge_ts ?ed < ev_ts ?e - EDGE_TTL_MS"
    "cleanup_due (ev_ts ?e) (process_events [gpu_use] state_graph_new)" "ev_type ?e = ComputeMem"
    "ev_pid ?e = Some 7" "pid_node_id ?e 7 = ''a::pid-7''" "namespace_node_id ?e (ev_entity_id ?e) = ''a::gpu-0''"
    by code_simp+
  then show ?thesis using live_edge_expires[of ?e 7 ?ed "[gpu_use]"] by simp
qed

end
