(* ===== verification/Rule_Props.thy ===== *)
theory Rule_Props
  imports Rule_Engine
begin

text \<open>
  What the rule engine promises: which files it loads and under which pack, that ids are unique and
  the rules sorted, how conditions read the graph and the events, and what first match means.
\<close>

section \<open>Conditions\<close>

lemma match_signal_ex:
  "match_signal sig ep op target vt ns \<longleftrightarrow>
     (\<exists>n\<in>set (hm_values ns). starts_with (node_id n) (''signal::'' @ sig @ ''::'') \<and>
        match_signal_node (''signal::'' @ sig @ ''::'') ep op target vt n)"
  by (auto simp: match_signal_def Let_def list_ex_iff filter_empty_conv)

text \<open>
  Rule conditions are monotone and insensitive to order: adding events, edges or nodes never makes
  a condition that held fail, however conditions are nested.  In particular the outcome does not
  depend on the iteration order of the hash map of nodes, nor on the order of events.
\<close>

theorem match_condition_mono:
  assumes "match_condition_with_snapshot c events es ns"
    and "set events \<subseteq> set events'" "set es \<subseteq> set es'" "set (hm_values ns) \<subseteq> set (hm_values ns')"
  shows "match_condition_with_snapshot c events' es' ns'"
  using assms
proof (induction c)
  case (SignalCond sig ep op target vt)
  then show ?case by (auto simp: match_signal_ex)
qed (auto simp: list_ex_iff list_all_iff)

definition xid_event :: event where
  "xid_event = \<lparr>ev_ts = 5, ev_type = ErrorHw, ev_entity_id = ''gpu-0'', ev_job_id = None, ev_pid = None,
     ev_value = ''XID 79'', ev_node_id = Some ''a''\<rparr>"

definition xid_condition :: condition where
  "xid_condition = AllCond [AnyCond [EventCond ''error.hw'' (Some ''npu-*|gpu-*'') (Some ''XID'') None]]"

theorem match_condition_mono_witness:
  "match_condition_with_snapshot xid_condition [xid_event\<lparr>ev_value := []\<rparr>, xid_event] [] []"
proof -
  have "match_condition_with_snapshot xid_condition [xid_event] [] []" by code_simp
  from match_condition_mono[OF this] show ?thesis by simp
qed

section \<open>First match\<close>

lemma find_filter: "List.find P xs = (case filter P xs of [] \<Rightarrow> None | x # _ \<Rightarrow> Some x)"
  by (induction xs) auto

lemma sorted_desc_filter_hd:
  assumes "sorted_wrt (\<lambda>x y. f y \<le> (f x :: nat)) xs" "filter P xs = x # ys" "y \<in> set (x # ys)"
  shows "f y \<le> f x"
proof -
  have "sorted_wrt (\<lambda>x y. f y \<le> f x) (x # ys)" using sorted_wrt_filter[OF assms(1), of P] assms(2) by simp
  then show ?thesis using assms(3) by auto
qed

lemma match_all_event_conditions:
  assumes "match_all_conditions cs events g" "c \<in> set cs" "is_event_condition c"
  shows "match_event_condition events c"
  using assms by (cases c) (auto simp: match_all_conditions_def list_all_iff)

lemma match_all_simple:
  assumes "match_all_conditions (rule_conditions r) events g" "list_ex is_event_condition (rule_conditions r)"
  shows "simple_match events r"
  using assms match_all_event_conditions[OF assms(1)]
  by (auto simp: simple_match_def Let_def list_all_iff list_ex_iff filter_empty_conv)

section \<open>Loading\<close>

lemma hm_count_sum:
  "sum_list (map snd (hm_insert k ((case hm_get m k of Some n \<Rightarrow> n | None \<Rightarrow> 0) + 1) m)) =
     Suc (sum_list (map snd m))"
  by (induction m) (auto simp: hm_insert_def hm_get_def)

definition blank_id :: "(string \<Rightarrow> string + rule_wire) \<Rightarrow> fs \<Rightarrow> path \<times> string \<Rightarrow> bool" where
  "blank_id parse_rule fsys f =
     (case lookup_fs [fsys] (fst f) of
        Some (FileNode (Some content)) \<Rightarrow>
          (case parse_rule content of
             Inr w \<Rightarrow> (case normalize_wire w of Inr (r, _) \<Rightarrow> final_id (snd f) r = None | Inl _ \<Rightarrow> False)
           | Inl _ \<Rightarrow> False)
      | _ \<Rightarrow> False)"

fun stats_ok :: "load_state \<Rightarrow> bool" where
  "stats_ok (rules, stats, owner) \<longleftrightarrow>
     loaded_rules stats = length rules \<and> skipped_rules stats = length (skipped_samples stats) \<and>
     skipped_rules stats = sum_list (map snd (skipped_by_reason stats)) \<and>
     legacy_total stats = legacy_migratable_total stats + legacy_unsupported_total stats \<and>
     legacy_unsupported_total stats \<le> skipped_rules stats"

fun ids_ok :: "load_state \<Rightarrow> bool" where
  "ids_ok (rules, stats, owner) \<longleftrightarrow>
     distinct (map rule_id rules) \<and> (\<forall>r\<in>set rules. \<exists>i. rule_id r = Some i \<and> hm_get owner i \<noteq> None)"

fun outcomes :: "load_state \<Rightarrow> nat" where
  "outcomes (rules, stats, owner) = loaded_rules stats + skipped_rules stats"

lemma record_skip_fields:
  "loaded_rules (record_skip p r d st) = loaded_rules st"
  "skipped_rules (record_skip p r d st) = Suc (skipped_rules st)"
  "length (skipped_samples (record_skip p r d st)) = Suc (length (skipped_samples st))"
  "legacy_total (record_skip p r d st) = legacy_total st"
  "legacy_migratable_total (record_skip p r d st) = legacy_migratable_total st"
  "legacy_unsupported_total (record_skip p r d st) = legacy_unsupported_total st"
  "sum_list (map snd (skipped_by_reason (record_skip p r d st))) = Suc (sum_list (map snd (skipped_by_reason st)))"
  unfolding record_skip_def by (simp_all add: hm_count_sum[simplified])

text \<open>Each file is loaded, skipped and recorded, has a blank id, or ends the load.\<close>

lemma load_file_cases:
  assumes "load_file pr fsys f s = Inr s'"
  obtains (loaded) rules stats owner r i stats1 where "s = (rules, stats, owner)" "\<not> blank_id pr fsys f"
      "hm_get owner i = None" "s' = (rules @ [r\<lparr>rule_id := Some i\<rparr>],
        stats1\<lparr>loaded_rules := loaded_rules stats1 + 1\<rparr>, hm_insert i (fst f) owner)"
      "stats1 = stats \<or> stats1 = stats\<lparr>legacy_total := legacy_total stats + 1,
        legacy_migratable_total := legacy_migratable_total stats + 1\<rparr>"
    | (skipped) rules stats owner reason d stats1 where "s = (rules, stats, owner)" "\<not> blank_id pr fsys f"
      "s' = (rules, record_skip (fst f) reason d stats1, owner)"
      "stats1 = stats \<or> stats1 = stats\<lparr>legacy_total := legacy_total stats + 1,
        legacy_unsupported_total := legacy_unsupported_total stats + 1\<rparr>"
    | (blank) rules stats owner stats1 where "s = (rules, stats, owner)" "blank_id pr fsys f"
      "s' = (rules, stats1, owner)"
      "stats1 = stats \<or> stats1 = stats\<lparr>legacy_total := legacy_total stats + 1,
        legacy_migratable_total := legacy_migratable_total stats + 1\<rparr>"
proof -
  obtain rules stats owner where s: "s = (rules, stats, owner)" by (cases s)
  obtain p pack where f: "f = (p, pack)" by (cases f)
  obtain content where c: "lookup_fs [fsys] (fst f) = Some (FileNode (Some content))"
    using assms unfolding load_file_def s by (auto split: prod.splits option.splits fs.splits)
  note eq = assms[unfolded load_file_def s f] and c' = c[unfolded f fst_conv]
  show thesis
  proof (cases "pr content")
    case (Inl e)
    then show ?thesis using eq c' by (intro skipped[OF s]) (auto simp: blank_id_def f)
  next
    case (Inr w)
    show ?thesis
    proof (cases "normalize_wire w")
      case (Inl e)
      then show ?thesis using eq c' Inr by (intro skipped[OF s]) (auto simp: blank_id_def f)
    next
      case n: (Inr rl)
      obtain r l where rl: "rl = (r, l)" by (cases rl)
      define stats1 where "stats1 = (if l = Migrated then stats\<lparr>legacy_total := legacy_total stats + 1,
        legacy_migratable_total := legacy_migratable_total stats + 1\<rparr> else stats)"
      then have st: "stats1 = stats \<or> stats1 = stats\<lparr>legacy_total := legacy_total stats + 1,
        legacy_migratable_total := legacy_migratable_total stats + 1\<rparr>" by simp
      show ?thesis
      proof (cases "final_id pack r")
        case None
        then show ?thesis using eq c' Inr n rl
          by (intro blank[OF s _ _ st]) (auto simp: blank_id_def f stats1_def)
      next
        case (Some i)
        then show ?thesis using eq c' Inr n rl
          by (intro loaded[OF s _ _ _ st]) (auto simp: blank_id_def f Let_def stats1_def split: option.splits)
      qed
    qed
  qed
qed

lemma load_file_ok:
  assumes "load_file pr fsys f s = Inr s'" "stats_ok s" "ids_ok s"
  shows "stats_ok s'" "ids_ok s'" "outcomes s' + (if blank_id pr fsys f then 1 else 0) = Suc (outcomes s)"
  using assms(2,3) by (cases rule: load_file_cases[OF assms(1)]; fastforce simp: record_skip_fields hm_simps)+

lemma load_files_ok:
  assumes "load_files pr fsys files s = Inr s'" "stats_ok s" "ids_ok s"
  shows "stats_ok s' \<and> ids_ok s' \<and> outcomes s' + length (filter (blank_id pr fsys) files) = outcomes s + length files"
  using assms
proof (induction files arbitrary: s)
  case (Cons f files)
  then obtain s1 where s1: "load_file pr fsys f s = Inr s1" "load_files pr fsys files s1 = Inr s'"
    by (auto simp: bind_result_def split: sum.splits)
  from load_file_ok[OF s1(1) Cons.prems(2,3)] Cons.IH[OF s1(2)] show ?case by auto
qed simp

lemma load_from_dir_Inr:
  assumes "load_from_dir pm pr sv fsys dir = Inr eng" "lookup_fs [fsys] dir \<noteq> None"
  obtains files rules stats owner where "collect_rule_files pm fsys dir = Inr files"
    "load_files pr fsys files ([], stats_default, []) = Inr (rules, stats, owner)"
    "\<not> (strict_flag sv \<and> 0 < skipped_rules stats)"
    "eng = \<lparr>engine_rules = sort_desc rule_priority rules, load_stats = stats\<rparr>"
  using assms
  by (auto simp: load_from_dir_def bind_result_def maybe_fail_in_strict_mode_def split: sum.splits if_splits)

lemma initial_load_ok: "stats_ok ([], stats_default, [])" "ids_ok ([], stats_default, [])"
  by (simp_all add: stats_default_def)

lemma load_from_dir_ok:
  assumes "load_from_dir pm pr sv fsys dir = Inr eng"
  obtains rules owner where "stats_ok (rules, load_stats eng, owner)" "ids_ok (rules, load_stats eng, owner)"
    "engine_rules eng = sort_desc rule_priority rules"
proof (cases "lookup_fs [fsys] dir = None")
  case True
  then have "eng = \<lparr>engine_rules = sort_desc rule_priority [], load_stats = stats_default\<rparr>"
    using assms by (simp add: load_from_dir_def sort_desc_def)
  then show ?thesis using that[of "[]" "[]"] initial_load_ok by simp
next
  case False
  then obtain files rules stats owner where
    l: "load_files pr fsys files ([], stats_default, []) = Inr (rules, stats, owner)"
    and e: "eng = \<lparr>engine_rules = sort_desc rule_priority rules, load_stats = stats\<rparr>"
    using load_from_dir_Inr[OF assms] by metis
  show ?thesis using that[of rules owner] load_files_ok[OF l initial_load_ok] by (simp add: e)
qed

lemma load_sorted:
  assumes "load_from_dir pm pr sv fsys dir = Inr eng"
  shows "sorted_wrt (\<lambda>a b. rule_priority b \<le> rule_priority a) (engine_rules eng)"
  using load_from_dir_ok[OF assms] sorted_sort_desc[of rule_priority] by metis

text \<open>
  \<^bold>\<open>C10.\<close>  Every successful load yields an engine whose rules all have an id, no two the same, sorted by
  falling priority, and whose counters agree: loaded rules with the rules, skipped rules with the
  samples and with the sum over the reasons, migrated and unsupported with the legacy total.
\<close>

theorem load_sound:
  assumes "load_from_dir pm pr sv fsys dir = Inr eng"
  shows "distinct (map rule_id (engine_rules eng)) \<and> None \<notin> set (map rule_id (engine_rules eng)) \<and>
    sorted_wrt (\<lambda>a b. rule_priority b \<le> rule_priority a) (engine_rules eng) \<and>
    stats_ok (engine_rules eng, load_stats eng, [])"
proof -
  obtain rules owner where "stats_ok (rules, load_stats eng, owner)" "ids_ok (rules, load_stats eng, owner)"
    "engine_rules eng = sort_desc rule_priority rules"
    using load_from_dir_ok[OF assms] .
  then show ?thesis by (auto simp: distinct_map_sort_desc sorted_sort_desc)
qed

text \<open>
  Every collected file is accounted for: it is loaded, or skipped and counted, or its rule has a
  blank id.  Strict mode fails the load when a file was skipped and counted; a rule with a blank id is
  in no counter, so strict mode accepts it.
\<close>

theorem load_accounts:
  assumes "lookup_fs [fsys] dir \<noteq> None" "load_from_dir pm pr sv fsys dir = Inr eng"
  shows "\<exists>files. collect_rule_files pm fsys dir = Inr files \<and>
    length files = loaded_rules (load_stats eng) + skipped_rules (load_stats eng) +
      length (filter (blank_id pr fsys) files) \<and>
    (strict_flag sv \<longrightarrow> skipped_rules (load_stats eng) = 0)"
proof -
  obtain files rules stats owner where f: "collect_rule_files pm fsys dir = Inr files"
    and l: "load_files pr fsys files ([], stats_default, []) = Inr (rules, stats, owner)"
    and s: "\<not> (strict_flag sv \<and> 0 < skipped_rules stats)"
    and e: "eng = \<lparr>engine_rules = sort_desc rule_priority rules, load_stats = stats\<rparr>"
    using load_from_dir_Inr[OF assms(2,1)] by metis
  show ?thesis
    using f s load_files_ok[OF l initial_load_ok] by (auto simp: e stats_default_def)
qed

section \<open>Which files are collected\<close>

fun rule_paths :: "path \<Rightarrow> fs \<Rightarrow> path list" where
  "rule_paths dir (DirNode es) = concat (map (\<lambda>(name, n).
     if is_dir n then rule_paths (dir @ [name]) n
     else if is_rule_file name then [dir @ [name]] else []) es)"
| "rule_paths dir _ = []"

text \<open>Collecting for a pack adds a set of paths, those not seen before, to the list under its name.\<close>

fun adds :: "string \<Rightarrow> path set \<Rightarrow> collected \<Rightarrow> collected \<Rightarrow> bool" where
  "adds pack P (seen, out) (seen', out') \<longleftrightarrow>
     seen' = seen \<union> P \<and>
     (\<exists>xs. out' = out @ xs \<and> set xs = (P - seen) \<times> {pack} \<and> distinct (map fst xs))"

lemma adds_refl: "adds pack {} st st"
  by (cases st) auto

lemma adds_trans: "adds pack P st1 st2 \<Longrightarrow> adds pack Q st2 st3 \<Longrightarrow> adds pack (P \<union> Q) st1 st3"
proof -
  obtain s1 o1 s2 o2 s3 o3 where st: "st1 = (s1, o1)" "st2 = (s2, o2)" "st3 = (s3, o3)"
    by (cases st1; cases st2; cases st3)
  assume "adds pack P st1 st2" "adds pack Q st2 st3"
  then obtain xs ys where x: "s2 = s1 \<union> P" "o2 = o1 @ xs" "set xs = (P - s1) \<times> {pack}" "distinct (map fst xs)"
    and y: "s3 = s2 \<union> Q" "o3 = o2 @ ys" "set ys = (Q - s2) \<times> {pack}" "distinct (map fst ys)"
    by (auto simp: st)
  have "distinct (map fst (xs @ ys))" using x y by auto
  moreover have "set (xs @ ys) = (P \<union> Q - s1) \<times> {pack}" using x y by auto
  ultimately show ?thesis using x y unfolding st adds.simps by (intro conjI exI[of _ "xs @ ys"]) auto
qed

lemma adds_file: "adds pack {p} st (add_rule_file p pack st)"
  by (cases st) auto

definition stack_paths :: "(path \<times> fs) list \<Rightarrow> path set" where
  "stack_paths stack = (\<Union>(d, n)\<in>set stack. set (rule_paths d n))"

lemma stack_paths_Cons: "stack_paths ((d, n) # stack) = set (rule_paths d n) \<union> stack_paths stack"
  by (simp add: stack_paths_def)

lemma rule_paths_entries:
  "set (rule_paths dir (DirNode [])) = {}"
  "set (rule_paths dir (DirNode ((name, n) # es))) =
     (if is_dir n then set (rule_paths (dir @ [name]) n) else if is_rule_file name then {dir @ [name]} else {}) \<union>
     set (rule_paths dir (DirNode es))"
  by simp_all

declare rule_paths.simps [simp del]

lemma scan_entries_adds:
  "\<exists>P. adds pack P st (snd (scan_entries dir pack es stack st)) \<and>
     P \<union> stack_paths (fst (scan_entries dir pack es stack st)) = set (rule_paths dir (DirNode es)) \<union> stack_paths stack"
proof (induction dir pack es stack st rule: scan_entries.induct)
  case (1 dir pack stack st)
  show ?case by (rule exI[of _ "{}"]) (simp add: adds_refl rule_paths_entries)
next
  case (2 dir pack name n es stack st)
  consider "is_dir n" | "\<not> is_dir n" "is_rule_file name" | "\<not> is_dir n" "\<not> is_rule_file name" by blast
  then show ?case
  proof cases
    case 1
    then show ?thesis using 2(1) by (simp add: stack_paths_Cons rule_paths_entries Un_ac)
  next
    case c: 2
    let ?p = "dir @ [name]"
    obtain P where P: "adds pack P (add_rule_file ?p pack st) (snd (scan_entries dir pack es stack (add_rule_file ?p pack st)))"
      "P \<union> stack_paths (fst (scan_entries dir pack es stack (add_rule_file ?p pack st))) =
         set (rule_paths dir (DirNode es)) \<union> stack_paths stack"
      using 2(2)[OF c] by blast
    show ?thesis using adds_trans[OF adds_file P(1)] P(2) c by (intro exI[of _ "{?p} \<union> P"]) (auto simp: rule_paths_entries)
  next
    case 3
    then show ?thesis using 2(3) by (simp add: rule_paths_entries)
  qed
qed

lemma collect_loop_adds:
  "collect_loop pack stack st = Inr st' \<Longrightarrow> adds pack (stack_paths stack) st st'"
proof (induction pack stack st rule: collect_loop.induct)
  case (1 pack st)
  then show ?case by (simp add: adds_refl stack_paths_def)
next
  case (2 pack dir n stack st)
  then obtain es where n: "n = DirNode es" by (auto split: fs.splits)
  obtain stack1 st1 where s: "scan_entries dir pack es stack st = (stack1, st1)"
    by (cases "scan_entries dir pack es stack st")
  obtain P where P: "adds pack P st st1" "P \<union> stack_paths stack1 = set (rule_paths dir n) \<union> stack_paths stack"
    using scan_entries_adds[of pack st dir es stack] by (auto simp: s n)
  have "adds pack (stack_paths stack1) st1 st'" using 2 n s by simp
  from adds_trans[OF P(1) this] show ?case unfolding P(2) by (simp add: stack_paths_Cons)
qed

text \<open>The sources of rules in the order they are read: a pack name and the rule files under it.\<close>

definition pack_sources :: "fs \<Rightarrow> path \<Rightarrow> manifest_pack list \<Rightarrow> (string \<times> path set) list" where
  "pack_sources fsys dir ps = concat (map (\<lambda>p.
     case lookup_fs [fsys] (path_join dir (pack_dir p)) of
       Some n \<Rightarrow> [(pack_name p, set (rule_paths (path_join dir (pack_dir p)) n))]
     | None \<Rightarrow> []) ps)"

definition legacy_sources :: "fs \<Rightarrow> path \<Rightarrow> (string \<times> path set) list" where
  "legacy_sources fsys dir =
     (''legacy'', {dir @ [name] |name n es. lookup_fs [fsys] dir = Some (DirNode es) \<and> (name, n) \<in> set es \<and>
        \<not> is_dir n \<and> is_rule_file name \<and> name \<noteq> ''manifest.yaml''}) #
     (case lookup_fs [fsys] (path_join dir ''legacy'') of
        Some n \<Rightarrow> [(''legacy'', set (rule_paths (path_join dir ''legacy'') n))]
      | None \<Rightarrow> [])"

definition rule_sources :: "(string \<Rightarrow> string + manifest_raw) \<Rightarrow> fs \<Rightarrow> path \<Rightarrow> (string \<times> path set) list" where
  "rule_sources pm fsys dir =
     (case lookup_fs [fsys] (path_join dir ''manifest.yaml'') of
        Some (FileNode (Some content)) \<Rightarrow>
          (case pm content of
             Inr raw \<Rightarrow> pack_sources fsys dir (filter pack_enabled (manifest_packs (manifest_of_raw raw))) @
               (if legacy_enabled (manifest_of_raw raw) then legacy_sources fsys dir else [])
           | Inl _ \<Rightarrow> [])
      | Some _ \<Rightarrow> []
      | None \<Rightarrow> legacy_sources fsys dir)"

text \<open>A file belongs to the first source that has it.\<close>

fun owned :: "(string \<times> path set) list \<Rightarrow> path set \<Rightarrow> (path \<times> string) set" where
  "owned [] seen = {}"
| "owned ((name, P) # rest) seen = (P - seen) \<times> {name} \<union> owned rest (seen \<union> P)"

fun gathers :: "(string \<times> path set) list \<Rightarrow> collected \<Rightarrow> collected \<Rightarrow> bool" where
  "gathers src (seen, out) (seen', out') \<longleftrightarrow>
     seen' = seen \<union> \<Union> (snd ` set src) \<and>
     (\<exists>xs. out' = out @ xs \<and> set xs = owned src seen \<and> distinct (map fst xs))"

lemma gathers_Nil: "gathers [] st st"
  by (cases st) simp

lemma owned_fresh: "f \<in> owned src seen \<Longrightarrow> fst f \<notin> seen"
  by (induction src seen rule: owned.induct) auto

lemma owned_in: "f \<in> owned src seen \<Longrightarrow> fst f \<in> \<Union> (snd ` set src)"
  by (induction src seen rule: owned.induct) auto

lemma owned_append: "owned (a @ b) seen = owned a seen \<union> owned b (seen \<union> \<Union> (snd ` set a))"
  by (induction a seen rule: owned.induct) (auto simp: Un_assoc)

lemma adds_gathers: "adds name P st st' \<Longrightarrow> gathers [(name, P)] st st'"
  by (cases st; cases st') auto

lemma gathers_append:
  assumes "gathers a st1 st2" "gathers b st2 st3"
  shows "gathers (a @ b) st1 st3"
proof -
  obtain s1 o1 s2 o2 s3 o3 where st: "st1 = (s1, o1)" "st2 = (s2, o2)" "st3 = (s3, o3)"
    by (cases st1; cases st2; cases st3)
  from assms obtain xs ys where x: "s2 = s1 \<union> \<Union> (snd ` set a)" "o2 = o1 @ xs" "set xs = owned a s1" "distinct (map fst xs)"
    and y: "s3 = s2 \<union> \<Union> (snd ` set b)" "o3 = o2 @ ys" "set ys = owned b s2" "distinct (map fst ys)"
    by (auto simp: st)
  have "distinct (map fst (xs @ ys))"
    using x y owned_fresh[of _ b s2] owned_in[of _ a s1] by fastforce
  then show ?thesis using x y unfolding st gathers.simps
    by (intro conjI exI[of _ "xs @ ys"]) (auto simp: owned_append)
qed

lemma scan_legacy_adds:
  "adds ''legacy'' {dir @ [name] |name n. (name, n) \<in> set es \<and> \<not> is_dir n \<and> is_rule_file name \<and>
     name \<noteq> ''manifest.yaml''} st (scan_legacy dir es st)"
proof (induction dir es st rule: scan_legacy.induct)
  case (1 dir st)
  then show ?case by (simp add: adds_refl)
next
  case (2 dir name n es st)
  let ?new = "\<not> is_dir n \<and> is_rule_file name \<and> name \<noteq> ''manifest.yaml''"
  let ?P = "\<lambda>es. {dir @ [name] |name n. (name, n) \<in> set es \<and> \<not> is_dir n \<and> is_rule_file name \<and> name \<noteq> ''manifest.yaml''}"
  have split: "?P ((name, n) # es) = (if ?new then {dir @ [name]} else {}) \<union> ?P es" by auto
  show ?case
  proof (cases ?new)
    case True
    from adds_trans[OF adds_file 2(1)[OF True]] show ?thesis unfolding split using True by simp
  next
    case False
    from 2(2)[OF this] show ?thesis unfolding split using False by auto
  qed
qed

lemma collect_legacy_gathers:
  assumes "collect_legacy_rules fsys dir st = Inr st'"
  shows "gathers (legacy_sources fsys dir) st st'"
proof -
  obtain es where es: "lookup_fs [fsys] dir = Some (DirNode es)"
    using assms by (auto simp: collect_legacy_rules_def split: option.splits fs.splits)
  let ?top = "{dir @ [name] |name n. (name, n) \<in> set es \<and> \<not> is_dir n \<and> is_rule_file name \<and> name \<noteq> ''manifest.yaml''}"
  let ?l = "path_join dir ''legacy''"
  have top: "gathers [(''legacy'', ?top)] st (scan_legacy dir es st)" by (rule adds_gathers[OF scan_legacy_adds])
  have src: "legacy_sources fsys dir = [(''legacy'', ?top)] @
      (case lookup_fs [fsys] ?l of Some n \<Rightarrow> [(''legacy'', set (rule_paths ?l n))] | None \<Rightarrow> [])"
    by (simp add: legacy_sources_def es)
  show ?thesis
  proof (cases "lookup_fs [fsys] ?l")
    case None
    then show ?thesis using assms top by (simp add: src collect_legacy_rules_def es Let_def)
  next
    case (Some n)
    then have "collect_loop ''legacy'' [(?l, n)] (scan_legacy dir es st) = Inr st'"
      using assms by (simp add: collect_legacy_rules_def es Let_def collect_rules_recursively_def)
    from collect_loop_adds[OF this] have "gathers [(''legacy'', set (rule_paths ?l n))] (scan_legacy dir es st) st'"
      by (intro adds_gathers) (simp add: stack_paths_def)
    from gathers_append[OF top this] show ?thesis by (simp add: src Some)
  qed
qed

lemma collect_packs_gathers:
  "collect_packs fsys dir ps st = Inr st' \<Longrightarrow> gathers (pack_sources fsys dir ps) st st'"
proof (induction ps arbitrary: st)
  case Nil
  then show ?case by (simp add: pack_sources_def gathers_Nil)
next
  case (Cons p ps)
  let ?d = "path_join dir (pack_dir p)"
  show ?case
  proof (cases "lookup_fs [fsys] ?d")
    case None
    then show ?thesis using Cons by (simp add: pack_sources_def)
  next
    case (Some n)
    with Cons.prems obtain st1 where st1: "collect_loop (pack_name p) [(?d, n)] st = Inr st1"
      "collect_packs fsys dir ps st1 = Inr st'"
      by (auto simp: bind_result_def collect_rules_recursively_def split: sum.splits)
    have "gathers [(pack_name p, set (rule_paths ?d n))] st st1"
      using collect_loop_adds[OF st1(1)] by (intro adds_gathers) (simp add: stack_paths_def)
    from gathers_append[OF this Cons.IH[OF st1(2)]] show ?thesis by (simp add: pack_sources_def Some)
  qed
qed

lemma collect_gathers:
  assumes "collect_rule_files pm fsys dir = Inr files"
  obtains seen out where "gathers (rule_sources pm fsys dir) ({}, []) (seen, out)"
    "files = sort_key (\<lambda>f. path_key (fst f)) out"
proof (cases "lookup_fs [fsys] (path_join dir ''manifest.yaml'')")
  case None
  then show ?thesis using assms that collect_legacy_gathers
    by (fastforce simp: collect_rule_files_def rule_sources_def bind_result_def split: sum.splits)
next
  case (Some n)
  then obtain content raw where c: "n = FileNode (Some content)" "pm content = Inr raw"
    using assms
    by (auto simp: collect_rule_files_def bind_result_def Let_def split: fs.splits option.splits sum.splits)
  let ?m = "manifest_of_raw raw"
  from assms Some c obtain st1 st2 where
    p: "collect_packs fsys dir (filter pack_enabled (manifest_packs ?m)) ({}, []) = Inr st1"
    and l: "(if legacy_enabled ?m then collect_legacy_rules fsys dir st1 else Inr st1) = Inr st2"
    and f: "files = sort_key (\<lambda>f. path_key (fst f)) (snd st2)"
    by (auto simp: collect_rule_files_def bind_result_def Let_def split: sum.splits if_splits)
  have "gathers (if legacy_enabled ?m then legacy_sources fsys dir else []) st1 st2"
    using l by (auto simp: gathers_Nil collect_legacy_gathers split: if_splits)
  from gathers_append[OF collect_packs_gathers[OF p] this]
  have "gathers (rule_sources pm fsys dir) ({}, []) (fst st2, snd st2)"
    using Some c by (simp add: rule_sources_def)
  then show ?thesis using f by (rule that)
qed

text \<open>
  \<^bold>\<open>C11.\<close>  The rule files collected are exactly those of the sources the manifest names, in its order, then
  the legacy ones: each file once, under the first source that has it, sorted by path.  The order in
  which the file system lists a directory does not matter.
\<close>

theorem collect_exact:
  assumes "collect_rule_files pm fsys dir = Inr files"
  shows "set files = owned (rule_sources pm fsys dir) {} \<and> distinct (map fst files) \<and>
    sorted (map (\<lambda>f. path_key (fst f)) files)"
proof -
  obtain seen out where g: "gathers (rule_sources pm fsys dir) ({}, []) (seen, out)"
    and f: "files = sort_key (\<lambda>f. path_key (fst f)) out"
    using collect_gathers[OF assms] .
  have "mset (map fst files) = mset (map fst out)" unfolding f mset_map mset_sort ..
  then have "distinct (map fst files) = distinct (map fst out)" by (rule mset_eq_imp_distinct_iff)
  with g show ?thesis by (auto simp: f)
qed

section \<open>An example directory\<close>

text \<open>
  A parser for the witnesses: a file's content is the scene of the rule, a leading bar marks the legacy
  syntax without conditions, a leading question mark a file that does not parse, a blank after a hash
  a blank id.
\<close>

definition example_rule :: "string option \<Rightarrow> string \<Rightarrow> conditions_wire \<Rightarrow> rule_wire" where
  "example_rule i scene cs =
     \<lparr>rw_id = i, rw_name = scene, rw_scene = scene, rw_priority = length scene, rw_reason_codes = [],
      rw_conditions = cs, rw_root_cause = \<lparr>rc_primary = [], rc_secondary = None\<rparr>, rw_solution_steps = [],
      rw_related_evidences = [], rw_applicability = \<lparr>min_confidence = Fin False 1, required_events = None\<rparr>\<rparr>"

definition example_parse :: "string \<Rightarrow> string + rule_wire" where
  "example_parse c =
     (case c of
        CHR ''?'' # e \<Rightarrow> Inl ''missing field''
      | CHR ''|'' # s \<Rightarrow> Inr (example_rule None s (LegacyConditions None None))
      | CHR ''#'' # s \<Rightarrow> Inr (example_rule (Some '' '') s (NewConditions []))
      | s \<Rightarrow> Inr (example_rule None s (NewConditions [xid_condition])))"

definition example_manifest :: "string \<Rightarrow> string + manifest_raw" where
  "example_manifest c =
     Inr \<lparr>raw_version = 1,
          raw_packs = Some [\<lparr>pack_raw_name = ''hw'', pack_raw_enabled = None, pack_raw_dir = ''packs''\<rparr>],
          raw_legacy = Some (Some True)\<rparr>"

definition example_fs :: "string \<Rightarrow> fs" where
  "example_fs odd_file = DirNode [(''rules'', DirNode
     [(''manifest.yaml'', FileNode (Some '''')),
      (''packs'', DirNode [(''b.yml'', FileNode (Some ''xid'')), (''a'', DirNode [(''a.yaml'', FileNode (Some ''ecc2''))]),
         (''README'', FileNode (Some ''''))]),
      (''odd.yaml'', FileNode (Some odd_file))])]"

theorem load_sound_witness:
  "sorted_wrt (\<lambda>a b. rule_priority b \<le> rule_priority a)
     (engine_rules (case load_from_dir example_manifest example_parse None (example_fs ''|x'') [''rules''] of Inr e \<Rightarrow> e))"
proof -
  obtain eng where "load_from_dir example_manifest example_parse None (example_fs ''|x'') [''rules''] = Inr eng"
  proof (cases "load_from_dir example_manifest example_parse None (example_fs ''|x'') [''rules'']")
    case (Inl e)
    moreover have "\<not> isl (load_from_dir example_manifest example_parse None (example_fs ''|x'') [''rules''])"
      by code_simp
    ultimately show ?thesis by simp
  qed
  then show ?thesis using load_sound[of example_manifest example_parse None "example_fs ''|x''" "[''rules'']"] by simp
qed

text \<open>A rule with a blank id, in strict mode.\<close>

theorem load_accounts_witness:
  "\<exists>files. collect_rule_files example_manifest (example_fs ''#x'') [''rules''] = Inr files \<and>
     length (filter (blank_id example_parse (example_fs ''#x'')) files) = 1 \<and> length files = 3"
proof -
  obtain eng where eng: "load_from_dir example_manifest example_parse (Some ''TRUE'') (example_fs ''#x'') [''rules''] = Inr eng"
  proof (cases "load_from_dir example_manifest example_parse (Some ''TRUE'') (example_fs ''#x'') [''rules'']")
    case (Inl e)
    moreover have "\<not> isl (load_from_dir example_manifest example_parse (Some ''TRUE'') (example_fs ''#x'') [''rules''])"
      by code_simp
    ultimately show ?thesis by simp
  qed
  have dir: "lookup_fs [example_fs ''#x''] [''rules''] \<noteq> None" by code_simp
  have "loaded_rules (load_stats (case load_from_dir example_manifest example_parse (Some ''TRUE'') (example_fs ''#x'') [''rules''] of Inr e \<Rightarrow> e)) = 2"
    by code_simp
  then have two: "loaded_rules (load_stats eng) = 2" by (simp add: eng)
  have "strict_flag (Some ''TRUE'')" by code_simp
  with load_accounts[OF dir eng] two obtain files where
    f: "collect_rule_files example_manifest (example_fs ''#x'') [''rules''] = Inr files"
    "length files = 2 + length (filter (blank_id example_parse (example_fs ''#x'')) files)" by auto
  have "case collect_rule_files example_manifest (example_fs ''#x'') [''rules''] of Inr fs \<Rightarrow> length fs = 3 | Inl _ \<Rightarrow> False"
    by code_simp
  with f show ?thesis by auto
qed

theorem collect_exact_witness:
  "\<exists>files. collect_rule_files example_manifest (example_fs ''x'') [''rules''] = Inr files \<and>
     set files = owned (rule_sources example_manifest (example_fs ''x'') [''rules'']) {} \<and> length files = 3"
proof -
  let ?c = "collect_rule_files example_manifest (example_fs ''x'') [''rules'']"
  have "case ?c of Inr fs \<Rightarrow> length fs = 3 | Inl _ \<Rightarrow> False" by code_simp
  then obtain files where "?c = Inr files" "length files = 3" by (auto split: sum.splits)
  then show ?thesis using collect_exact[of example_manifest "example_fs ''x''" "[''rules'']"] by auto
qed

section \<open>First match and priority\<close>

text \<open>
  \<^bold>\<open>C12.\<close>  On every engine a load returns, \<open>match_first\<close> is the head of \<open>match_rules\<close> and has the highest
  priority of all matching rules; and when the rule it picks has an event condition at its top level,
  the graph-free \<open>match_first_simple\<close> also finds a rule, of at least that priority.
\<close>

theorem match_first_best:
  assumes "load_from_dir pm pr sv fsys dir = Inr eng" "match_first eng g events = Some r"
  shows "match_rules eng g events \<noteq> [] \<and> r = hd (match_rules eng g events) \<and>
    list_all (\<lambda>r'. rule_priority r' \<le> rule_priority r) (match_rules eng g events) \<and>
    (list_ex is_event_condition (rule_conditions r) \<longrightarrow>
      (\<exists>s. match_first_simple eng events = Some s \<and> rule_priority r \<le> rule_priority s))"
proof -
  have sorted: "sorted_wrt (\<lambda>a b. rule_priority b \<le> rule_priority a) (engine_rules eng)"
    by (rule load_sorted[OF assms(1)])
  obtain rs where rs: "match_rules eng g events = r # rs"
    using assms(2) by (auto simp: match_first_def find_filter match_rules_def split: list.splits)
  have "rule_priority r' \<le> rule_priority r" if "r' \<in> set (match_rules eng g events)" for r'
    using sorted_desc_filter_hd[OF sorted rs[unfolded match_rules_def]] that rs by simp
  moreover have "\<exists>s. match_first_simple eng events = Some s \<and> rule_priority r \<le> rule_priority s"
    if "list_ex is_event_condition (rule_conditions r)"
  proof -
    have "r \<in> set (match_rules eng g events)" using rs by simp
    then have "r \<in> set (filter (simple_match events) (engine_rules eng))"
      using match_all_simple that by (auto simp: match_rules_def)
    then obtain s ss where "filter (simple_match events) (engine_rules eng) = s # ss" "r \<in> set (s # ss)"
      by (cases "filter (simple_match events) (engine_rules eng)") auto
    then show ?thesis using sorted_desc_filter_hd[OF sorted] by (simp add: match_first_simple_def find_filter)
  qed
  ultimately show ?thesis using rs by (auto simp: list_all_iff)
qed

theorem match_first_best_witness:
  "\<exists>eng r. load_from_dir example_manifest example_parse None (example_fs ''x'') [''rules''] = Inr eng \<and>
     match_first eng state_graph_new [xid_event] = Some r \<and>
     list_all (\<lambda>r'. rule_priority r' \<le> rule_priority r) (match_rules eng state_graph_new [xid_event])"
proof -
  let ?l = "load_from_dir example_manifest example_parse None (example_fs ''x'') [''rules'']"
  have "case ?l of Inr eng \<Rightarrow> match_first eng state_graph_new [xid_event] \<noteq> None | Inl _ \<Rightarrow> False"
    by code_simp
  then obtain eng r where "?l = Inr eng" "match_first eng state_graph_new [xid_event] = Some r"
    by (auto split: sum.splits)
  then show ?thesis using match_first_best by blast
qed

text \<open>
  \<^bold>\<open>C13.\<close>  Normalising a rule keeps its meaning: a rule in the new syntax keeps its conditions; one in the
  legacy syntax is accepted exactly when it has one of \<open>all\<close> and \<open>any\<close>, and then matches exactly when
  all, or any, of the listed conditions match.
\<close>

theorem normalize_meaning:
  "case rw_conditions w of
     NewConditions cs \<Rightarrow> (\<exists>r. normalize_wire w = Inr (r, NoLegacy) \<and> rule_conditions r = cs)
   | LegacyConditions alls anys \<Rightarrow>
       (\<exists>r. normalize_wire w = Inr (r, Migrated)) = ((alls = None) \<noteq> (anys = None)) \<and>
       (case normalize_wire w of
          Inl _ \<Rightarrow> (alls = None) = (anys = None)
        | Inr (r, _) \<Rightarrow>
            match_all_conditions (rule_conditions r) events g =
              (case alls of
                 Some cs \<Rightarrow> list_all (\<lambda>c. match_condition c events g) cs
               | None \<Rightarrow> list_ex (\<lambda>c. match_condition c events g) (the anys)))"
  by (auto simp: normalize_wire_def match_all_conditions_def match_condition_def Let_def
      split: conditions_wire.splits option.splits)

end
