(* ===== verification/Hub_Props.thy ===== *)
theory Hub_Props
  imports Hub Graph_Safety Rule_Props
begin

text \<open>
  What the hub promises: whom a command reaches, what a diagnosis may do and when, what the cluster-wide
  analysis returns; and where the connection table, the guard and the health check fall short.
\<close>

section \<open>What a request leaves alone\<close>

text \<open>The part of the state that only connection tasks change.\<close>

definition same_links :: "'c hub \<Rightarrow> 'c hub \<Rightarrow> bool" where
  "same_links h h' \<longleftrightarrow>
     connections h' = connections h \<and> tasks h' = tasks h \<and> chan_open h' = chan_open h \<and> core h' = core h"

lemma same_links_refl [simp]: "same_links h h"
  by (simp add: same_links_def)

lemma same_links_trans [trans]: "same_links a b \<Longrightarrow> same_links b c \<Longrightarrow> same_links a c"
  by (simp add: same_links_def)

lemma same_links_guard [simp]: "same_links h (h'\<lparr>guard := gd\<rparr>) = same_links h h'"
  "same_links (h\<lparr>guard := gd\<rparr>) h' = same_links h h'"
  by (simp_all add: same_links_def)

lemma send_fix_links: "send_fix_command nid pid act h = (r, h') \<Longrightarrow> same_links h h' \<and> guard h' = guard h \<and>
    controller h' = controller h \<and> cluster h' = cluster h \<and> fault_tasks h' = fault_tasks h"
  by (auto simp: send_fix_command_def same_links_def split: option.splits if_splits)

text \<open>One action of the loop, as its own step.\<close>

definition execute_action :: "nat \<Rightarrow> policy_action \<Rightarrow> 'c hub \<Rightarrow> (exec_error + unit) \<times> 'c hub" where
  "execute_action now a h =
     (case check_and_record_cooldown (pa_node_id a) (pa_action a) now (guard h) of
        (Inr _, gd) \<Rightarrow> send_fix_command (pa_node_id a) (pa_target_pid a) (pa_action a) (h\<lparr>guard := gd\<rparr>)
      | (Inl e, gd) \<Rightarrow> (Inl e, h\<lparr>guard := gd\<rparr>))"

lemma execute_actions_Cons:
  "execute_actions now (a # as) h =
     (let (r, h1) = execute_action now a h; (rs, h2) = execute_actions now as h1 in (action_result a r # rs, h2))"
  by (simp add: execute_action_def)

declare execute_actions.simps(2) [simp del]

lemma execute_action_frame:
  assumes "execute_action now a h = (r, h')"
  shows "same_links h h' \<and> controller h' = controller h \<and> cluster h' = cluster h \<and> fault_tasks h' = fault_tasks h"
proof -
  obtain q gd where q: "check_and_record_cooldown (pa_node_id a) (pa_action a) now (guard h) = (q, gd)"
    by (rule prod.exhaust)
  show ?thesis
    using assms by (cases q) (auto simp: execute_action_def q dest: send_fix_links)
qed

lemma execute_actions_frame:
  "execute_actions now as h = (rs, h') \<Longrightarrow>
     same_links h h' \<and> controller h' = controller h \<and> cluster h' = cluster h \<and> fault_tasks h' = fault_tasks h"
proof (induction as arbitrary: h rs)
  case (Cons a as)
  obtain r h1 where a: "execute_action now a h = (r, h1)" by (rule prod.exhaust)
  then obtain rs1 where as: "execute_actions now as h1 = (rs1, h')"
    using Cons.prems by (auto simp: execute_actions_Cons split: prod.splits)
  with execute_action_frame[OF a] Cons.IH[OF as] show ?case by (auto intro: same_links_trans)
qed simp

lemma isolate_nodes_fail: "isolate_nodes env clock i ps s = (rs, s') \<Longrightarrow> filter er_success rs = []"
  by (induction ps arbitrary: i s rs) (auto split: option.splits prod.splits sum.splits)

lemma execute_policy_acts:
  assumes "execute_policy env clock now scenes procs policy h = (ltd, rs, h')"
  obtains (run) rs0 h0 where "\<not> ltd" "0 < permits (guard h)"
      "execute_actions now policy (h\<lparr>guard := (guard h)\<lparr>permits := permits (guard h) - 1\<rparr>\<rparr>) = (rs0, h0)"
      "outbox h' = outbox h0" "guard h' = release_permit (guard h0)" "same_links h0 h'"
      "filter er_success rs = filter er_success rs0"
  | (limited) "ltd" "permits (guard h) = 0" "outbox h' = outbox h" "guard h' = guard h" "same_links h h'"
      "filter er_success rs = []"
proof (cases "permits (guard h)")
  case 0
  then show thesis
    using limited assms
    by (auto simp: execute_policy_def try_acquire_def same_links_def Let_def
        dest: isolate_nodes_fail split: if_splits option.splits prod.splits)
next
  case (Suc n)
  obtain rs0 h0 where e: "execute_actions now policy (h\<lparr>guard := (guard h)\<lparr>permits := n\<rparr>\<rparr>) = (rs0, h0)"
    by (rule prod.exhaust)
  then show thesis
    using Suc run[of rs0 h0] assms
    by (auto simp: execute_policy_def try_acquire_def same_links_def Let_def
        dest: isolate_nodes_fail split: if_splits option.splits prod.splits)
qed

text \<open>The scenes and the processes a diagnosis of a job works with, and the two ways it can go.\<close>

definition job_scenes :: "hub_config \<Rightarrow> nat \<Rightarrow> params \<Rightarrow> string \<Rightarrow> 'c hub \<Rightarrow> string list" where
  "job_scenes cfg now ps job h =
     map rule_scene (match_rules (rules cfg) (hub_graph h)
       (recent now (nat_param u64_max ps ''window_s'' 60 10 3600) (\<lambda>e. ev_job_id e = Some job) (hub_buffer h)))"

definition job_processes :: "string \<Rightarrow> 'c hub \<Rightarrow> process_json list" where
  "job_processes job h = snd (cluster_why (hub_graph h) job)"

definition job_policy :: "hub_config \<Rightarrow> nat \<Rightarrow> params \<Rightarrow> string \<Rightarrow> 'c hub \<Rightarrow> policy_action list" where
  "job_policy cfg now ps job h =
     take (max_actions (guard h)) (build_policy_actions (job_scenes cfg now ps job h) (job_processes job h) False)"

lemma next_request_id_frame [simp]:
  "permits (snd (next_request_id now gd)) = permits gd" "cooldown_ms (snd (next_request_id now gd)) = cooldown_ms gd"
  "max_actions (snd (next_request_id now gd)) = max_actions gd"
  "last_action_ms (snd (next_request_id now gd)) = last_action_ms gd"
  by (simp_all add: next_request_id_def)

lemma diagnose_acts:
  assumes "diagnose env cfg clock now ps h = (r, h')"
  obtains (idle) gd where "h' = h\<lparr>guard := gd\<rparr>" "permits gd = permits (guard h)" "cooldown_ms gd = cooldown_ms (guard h)"
      "max_actions gd = max_actions (guard h)" "last_action_ms gd = last_action_ms (guard h)"
      "case r of Inr d \<Rightarrow> dg_dry_run d \<and> dg_execution d = [] | Inl _ \<Rightarrow> True"
  | (exec) job d where "hm_get ps ''job_id'' = Some job" "allow_execute cfg" "execute_requested ps" "r = Inr d"
      "execute_policy env clock now (job_scenes cfg now ps job h) (job_processes job h) (job_policy cfg now ps job h)
         (h\<lparr>guard := snd (next_request_id now (guard h))\<rparr>) = (dg_concurrency_limited d, dg_execution d, h')"
proof (cases "hm_get ps ''job_id''")
  case None
  then have "h' = h" "r = Inl ''missing job_id parameter''" using assms by (simp_all add: diagnose_def)
  moreover have "h\<lparr>guard := guard h\<rparr> = h" by (cases h) simp
  ultimately show thesis by (intro idle[of "guard h"]) simp_all
next
  case (Some job)
  show thesis
  proof (cases "allow_execute cfg \<and> execute_requested ps")
    case False
    then have "h' = h\<lparr>guard := snd (next_request_id now (guard h))\<rparr>"
      "case r of Inr d \<Rightarrow> dg_dry_run d \<and> dg_execution d = [] | Inl _ \<Rightarrow> True"
      using assms by (auto simp: diagnose_def Some next_request_id_def Let_def)
    then show thesis by (intro idle[of "snd (next_request_id now (guard h))"]) simp_all
  next
    case True
    obtain rid gd where gd: "next_request_id now (guard h) = (rid, gd)" by (rule prod.exhaust)
    then have m: "max_actions gd = max_actions (guard h)" by (metis next_request_id_frame(3) snd_conv)
    obtain ltd results h1 where
      ep: "execute_policy env clock now (job_scenes cfg now ps job h) (job_processes job h) (job_policy cfg now ps job h)
         (h\<lparr>guard := gd\<rparr>) = (ltd, results, h1)"
      by (rule prod_cases3)
    obtain d where "diagnose env cfg clock now ps h = (Inr d, h1)" "dg_concurrency_limited d = ltd" "dg_execution d = results"
      by (simp add: diagnose_def Some gd m Let_def True ep[unfolded job_scenes_def job_processes_def job_policy_def])
    with assms True ep gd show thesis by (intro exec[OF Some, of d]) simp_all
  qed
qed

lemma diagnose_links: "diagnose env cfg clock now ps h = (r, h') \<Longrightarrow> same_links h h'"
proof (erule diagnose_acts)
  fix job d
  assume "execute_policy env clock now (job_scenes cfg now ps job h) (job_processes job h) (job_policy cfg now ps job h)
    (h\<lparr>guard := snd (next_request_id now (guard h))\<rparr>) = (dg_concurrency_limited d, dg_execution d, h')"
  then show "same_links h h'"
  proof (cases rule: execute_policy_acts)
    case (run rs0 h0)
    have "same_links h h0" using execute_actions_frame[OF run(3)] by simp
    then show ?thesis using run(6) by (rule same_links_trans)
  qed simp
qed simp

section \<open>Whom a command reaches\<close>

text \<open>
  Steps of an orderly cluster: a connection has a channel of its own, no two live connections claim the
  same node id, and connections end with a close.
\<close>

definition exclusive :: "'c hub_env \<Rightarrow> hub_action \<Rightarrow> 'c hub \<Rightarrow> bool" where
  "exclusive env a h =
     (case a of
        Connect tx ip \<Rightarrow> list_all (\<lambda>(t, n). t \<noteq> tx \<and> n \<noteq> ''node-'' @ ip) (tasks h)
      | Incoming tx raw _ \<Rightarrow>
          (case parse_hub_event_message (from_envelope env) (from_event env) raw of
             Inr e \<Rightarrow> list_all (\<lambda>(t, n). t = tx \<or> ev_node_id e \<noteq> Some n) (tasks h)
           | Inl _ \<Rightarrow> True)
      | ReadFailure _ \<Rightarrow> False
      | WriteFailure _ \<Rightarrow> False
      | _ \<Rightarrow> True)"

inductive orderly :: "'c hub_env \<Rightarrow> hub_config \<Rightarrow> 'c hub \<Rightarrow> 'c hub \<Rightarrow> bool" for env cfg h0 where
  start: "orderly env cfg h0 h0"
| step: "orderly env cfg h0 h \<Longrightarrow> exclusive env a h \<Longrightarrow> orderly env cfg h0 (hub_step env cfg a h)"

definition table_ok :: "'c hub \<Rightarrow> bool" where
  "table_ok h \<longleftrightarrow> hm_wf (tasks h) \<and> hm_wf (connections h) \<and>
     (\<forall>n tx. hm_get (connections h) n = Some tx \<longleftrightarrow> hm_get (tasks h) tx = Some n) \<and>
     (\<forall>tx. tx \<in> set (chan_open h) \<longleftrightarrow> hm_get (tasks h) tx \<noteq> None)"

lemma table_ok_links: "same_links h h' \<Longrightarrow> table_ok h \<Longrightarrow> table_ok h'"
  by (simp add: table_ok_def same_links_def)

lemma hm_get_memD: "hm_get m k = Some v \<Longrightarrow> (k, v) \<in> set m"
  by (simp add: hm_get_def map_of_SomeD)

lemma list_all_hmD: "list_all (\<lambda>(k, v). P k v) m \<Longrightarrow> hm_get m k = Some v \<Longrightarrow> P k v"
  by (auto simp: list_all_iff dest: hm_get_memD)

lemma table_ok_adopt:
  assumes "table_ok h" "hm_get (tasks h) tx = Some nid"
    and "list_all (\<lambda>(t, n). t = tx \<or> ev_node_id e \<noteq> Some n) (tasks h)"
    and "adopt_node_id tx nid e (connections h) = (nid1, e1, conns)"
  shows "table_ok (h\<lparr>connections := conns, tasks := hm_insert tx nid1 (tasks h)\<rparr>)"
proof -
  have conn: "hm_get (connections h) n = Some t \<longleftrightarrow> hm_get (tasks h) t = Some n" for n t
    using assms(1) by (simp add: table_ok_def)
  have wf: "hm_wf (connections h)" "hm_wf (tasks h)" using assms(1) by (simp_all add: table_ok_def)
  have free: "hm_get (tasks h) t \<noteq> Some n" if "ev_node_id e = Some n" "t \<noteq> tx" for t n
    using list_all_hmD[OF assms(3)] that by blast
  have only: "hm_get (tasks h) t \<noteq> Some nid" if "t \<noteq> tx" for t
    using conn[of nid t] conn[of nid tx] assms(2) that by auto
  have "(hm_get conns n = Some t) = (hm_get (hm_insert tx nid1 (tasks h)) t = Some n)" for n t
  proof (cases "nid1 = nid")
    case True
    then have "conns = connections h" using assms(4) by (auto simp: adopt_node_id_def split: option.splits if_splits)
    with True assms(2) conn[of n t] show ?thesis by (auto simp: hm_simps)
  next
    case False
    then have "ev_node_id e = Some nid1" and c: "conns = hm_insert nid1 tx (hm_remove nid (connections h))"
      using assms(4) by (auto simp: adopt_node_id_def split: option.splits if_splits)
    from free[OF this(1), of t] show ?thesis
      using False conn[of n t] only[of t] assms(2) by (cases "t = tx"; cases "n = nid1"; cases "n = nid") (simp_all add: c hm_simps)
  qed
  moreover have "hm_wf conns"
    using wf assms(4) by (auto simp: adopt_node_id_def invs split: option.splits if_splits)
  moreover have "hm_wf (hm_insert tx nid1 (tasks h))" using wf by (simp add: invs)
  moreover have "t \<in> set (chan_open h) \<longleftrightarrow> hm_get (hm_insert tx nid1 (tasks h)) t \<noteq> None" for t
    using assms(1,2) by (simp add: table_ok_def hm_simps)
  ultimately show ?thesis by (simp add: table_ok_def)
qed

lemma table_ok_text:
  assumes "table_ok h" "exclusive env (Incoming tx raw fault) h"
  shows "table_ok (handle_text env cfg fault tx raw h)"
proof (cases "hm_get (tasks h) tx")
  case None
  with assms(1) show ?thesis by (simp add: handle_text_def)
next
  case (Some nid)
  show ?thesis
  proof (cases "parse_hub_event_message (from_envelope env) (from_event env) raw")
    case (Inl _)
    with assms(1) Some show ?thesis by (simp add: handle_text_def)
  next
    case (Inr e)
    obtain nid1 e1 conns where ad: "adopt_node_id tx nid e (connections h) = (nid1, e1, conns)"
      by (rule prod_cases3)
    have "table_ok (h\<lparr>connections := conns, tasks := hm_insert tx nid1 (tasks h)\<rparr>)"
      using table_ok_adopt[OF assms(1) Some _ ad] assms(2) Inr by (simp add: exclusive_def)
    moreover obtain acc core1 where
      "ingest (to_json env) (hash64 env) (event_buffer_size cfg) (dedup_window_ms cfg) fault e1 (core h) = (acc, core1)"
      by (rule prod.exhaust)
    ultimately show ?thesis by (simp add: handle_text_def Some Inr ad table_ok_def)
  qed
qed

lemma table_ok_connect:
  assumes "table_ok h" "exclusive env (Connect tx ip) h"
  shows "table_ok (connect_agent tx ip h)"
proof -
  define nid where "nid = ''node-'' @ ip"
  have all: "list_all (\<lambda>(t, n). t \<noteq> tx \<and> n \<noteq> nid) (tasks h)"
    using assms(2) by (simp add: exclusive_def nid_def)
  have free: "hm_get (tasks h) t \<noteq> Some nid" for t using list_all_hmD[OF all] by blast
  have new: "hm_get (tasks h) tx = None" using list_all_hmD[OF all] by (cases "hm_get (tasks h) tx") blast+
  have conn: "hm_get (connections h) n = Some t \<longleftrightarrow> hm_get (tasks h) t = Some n" for n t
    using assms(1) by (simp add: table_ok_def)
  have "(hm_get (hm_insert nid tx (connections h)) n = Some t) = (hm_get (hm_insert tx nid (tasks h)) t = Some n)" for n t
    using conn[of n t] free[of t] new by (cases "t = tx"; cases "n = nid") (simp_all add: hm_simps)
  moreover have "t \<in> set (tx # chan_open h) \<longleftrightarrow> hm_get (hm_insert tx nid (tasks h)) t \<noteq> None" for t
    using assms(1) by (simp add: table_ok_def hm_simps)
  moreover have "connect_agent tx ip h = h\<lparr>connections := hm_insert nid tx (connections h), chan_open := tx # chan_open h,
      tasks := hm_insert tx nid (tasks h)\<rparr>"
    by (simp add: connect_agent_def nid_def Let_def)
  ultimately show ?thesis
    using assms(1) by (simp add: table_ok_def invs)
qed

lemma table_ok_close:
  assumes "table_ok h"
  shows "table_ok (close_connection tx h)"
proof (cases "hm_get (tasks h) tx")
  case (Some nid)
  have conn: "hm_get (connections h) n = Some t \<longleftrightarrow> hm_get (tasks h) t = Some n" for n t
    using assms(1) by (simp add: table_ok_def)
  have "(hm_get (hm_remove nid (connections h)) n = Some t) = (hm_get (hm_remove tx (tasks h)) t = Some n)" for n t
    using conn[of n t] conn[of nid t] conn[of nid tx] Some by (cases "t = tx"; cases "n = nid") (auto simp: hm_simps)
  moreover have "t \<in> set (removeAll tx (chan_open h)) \<longleftrightarrow> hm_get (hm_remove tx (tasks h)) t \<noteq> None" for t
    using assms(1) by (auto simp: table_ok_def hm_simps)
  ultimately show ?thesis
    using assms(1) by (simp add: close_connection_def Some table_ok_def invs)
qed (use assms in \<open>simp add: close_connection_def\<close>)

lemma table_ok_step: "table_ok h \<Longrightarrow> exclusive env a h \<Longrightarrow> table_ok (hub_step env cfg a h)"
proof (cases a)
  case (FaultTask i now done_at)
  assume "table_ok h"
  moreover have "same_links h (run_fault_task env i now done_at h)"
    by (simp add: run_fault_task_def same_links_def Let_def split: option.splits prod.splits)
  ultimately show ?thesis using FaultTask by (simp add: table_ok_links)
next
  case (Diagnose clock now ps)
  assume "table_ok h"
  then show ?thesis
    using Diagnose diagnose_links[of env cfg clock now ps h] by (cases "diagnose env cfg clock now ps h") (simp add: table_ok_links)
next
  case (Fix nid pid act)
  assume "table_ok h"
  then show ?thesis
    using Fix send_fix_links[of nid pid "or_default act ''GracefulShutdown''" h]
    by (auto simp: fix_route_def intro: table_ok_links split: prod.splits sum.splits)
qed (simp_all add: table_ok_text table_ok_connect table_ok_close, simp_all add: exclusive_def)

text \<open>
  \<^bold>\<open>C22.\<close>  The connection table is exact and commands arrive: from an empty table, after any interleaving of
  connections, messages, closes, fault handlers, diagnoses and fix requests in which no two live
  connections claim one node id and none breaks, a node id is in the table exactly when a live
  connection holds it, and then a fix command for it is sent on the channel of that connection.
\<close>

theorem commands_reach_node:
  assumes "orderly env cfg h0 h" "connections h0 = []" "tasks h0 = []" "chan_open h0 = []"
  shows "(hm_get (connections h) n = Some tx) = (hm_get (tasks h) tx = Some n) \<and>
    (hm_get (tasks h) tx = Some n \<longrightarrow>
      send_fix_command n pid act h =
        (Inr (), h\<lparr>outbox := outbox h @ [(tx, \<lparr>intent = ''fix'', target_pid = pid, command_action = Some act\<rparr>)]\<rparr>))"
proof -
  have "table_ok h0" using assms(2-4) by (simp add: table_ok_def)
  with assms(1) have "table_ok h"
    by (induction rule: orderly.induct) (auto intro: table_ok_step)
  then have "(hm_get (connections h) n = Some tx) = (hm_get (tasks h) tx = Some n)"
    "hm_get (tasks h) tx = Some n \<longrightarrow> tx \<in> set (chan_open h)"
    by (simp_all add: table_ok_def)
  then show ?thesis by (cases "hm_get (tasks h) tx = Some n") (simp_all add: send_fix_command_def)
qed

text \<open>A hub for the witnesses: a message is the name of the machine whose process it reports.\<close>

definition beat :: "string \<Rightarrow> event" where
  "beat nid = \<lparr>ev_ts = 1000, ev_type = ProcessState, ev_entity_id = ''p'', ev_job_id = Some ''job-1'', ev_pid = Some 7,
     ev_value = ''start'', ev_node_id = Some nid\<rparr>"

definition small_env :: "small_cluster hub_env" where
  "small_env = \<lparr>from_envelope = (\<lambda>_. None), from_event = (\<lambda>raw. Some (beat raw)), to_json = ev_value,
     hash64 = sum_hash, api = small_api\<rparr>"

definition small_hub :: "small_cluster hub" where
  "small_hub = \<lparr>core = core_new 0, connections = [], chan_open = [], outbox = [], tasks = [], fault_tasks = [],
     controller = Some (controller_new True), cluster = small_start, guard = guard_new 16 60 20\<rparr>"

definition degradation_rule :: rule where
  "degradation_rule = \<lparr>rule_id = Some ''r'', rule_name = ''r'', rule_scene = ''physical_degradation'', rule_priority = 90,
     reason_codes = [], rule_conditions = [], root_cause = \<lparr>rc_primary = ''cable'', rc_secondary = None\<rparr>,
     solution_steps = [], related_evidences = [], rule_applicability = \<lparr>min_confidence = Fin False 0, required_events = None\<rparr>\<rparr>"

definition small_cfg :: hub_config where
  "small_cfg = \<lparr>rules = \<lparr>engine_rules = [degradation_rule], load_stats = stats_default\<rparr>, allow_execute = True,
     event_buffer_size = 10, dedup_window_ms = 300000, policy_version = ''v1''\<rparr>"

lemma parse_small [simp]:
  "parse_hub_event_message (from_envelope small_env) (from_event small_env) raw = Inr (beat raw)"
  by (simp add: parse_hub_event_message_def small_env_def)

lemma beat_node [simp]: "ev_node_id (beat n) = Some n"
  by (simp add: beat_def)

text \<open>The links of the hub after a message, whatever the rest of the state does.\<close>

lemma handle_text_links:
  assumes "parse_hub_event_message (from_envelope env) (from_event env) raw = Inr e"
    and "hm_get (tasks h) tx = Some nid" "adopt_node_id tx nid e (connections h) = (nid1, e1, conns)"
  shows "connections (handle_text env cfg fault tx raw h) = conns \<and>
    tasks (handle_text env cfg fault tx raw h) = hm_insert tx nid1 (tasks h) \<and>
    chan_open (handle_text env cfg fault tx raw h) = chan_open h"
proof -
  obtain acc core1 where
    "ingest (to_json env) (hash64 env) (event_buffer_size cfg) (dedup_window_ms cfg) fault e1 (core h) = (acc, core1)"
    by (rule prod.exhaust)
  with assms show ?thesis by (simp add: handle_text_def)
qed

theorem commands_reach_node_witness:
  "\<exists>h. orderly small_env small_cfg small_hub h \<and> hm_get (connections h) ''node-a'' = Some 1 \<and>
     fst (send_fix_command ''node-a'' 7 ''KillProcess'' h) = Inr ()"
proof -
  define h1 where "h1 = hub_step small_env small_cfg (Connect 1 ''10.0.0.1'') small_hub"
  define h2 where "h2 = hub_step small_env small_cfg (Incoming 1 ''node-a'' None) h1"
  have h1: "tasks h1 = [(1, ''node-10.0.0.1'')]" "connections h1 = [(''node-10.0.0.1'', 1)]"
    by (simp_all add: h1_def connect_agent_def small_hub_def hm_insert_def Let_def)
  have "orderly small_env small_cfg small_hub h1"
    unfolding h1_def by (rule orderly.step[OF orderly.start]) (simp add: exclusive_def small_hub_def)
  then have o: "orderly small_env small_cfg small_hub h2"
    unfolding h2_def by (rule orderly.step) (simp add: exclusive_def h1)
  have "adopt_node_id 1 ''node-10.0.0.1'' (beat ''node-a'') (connections h1) =
      (''node-a'', beat ''node-a'', hm_insert ''node-a'' 1 (hm_remove ''node-10.0.0.1'' (connections h1)))"
    by (simp add: adopt_node_id_def)
  from handle_text_links[OF parse_small _ this, of small_cfg None]
  have "tasks h2 = hm_insert 1 ''node-a'' (tasks h1)" by (simp add: h2_def h1 hm_get_def)
  then have t: "hm_get (tasks h2) 1 = Some ''node-a''" by (simp add: hm_simps)
  have "connections small_hub = []" "tasks small_hub = []" "chan_open small_hub = []" by (simp_all add: small_hub_def)
  note reach = commands_reach_node[OF o this, of "''node-a''" 1 7 "''KillProcess''"]
  then have "hm_get (connections h2) ''node-a'' = Some 1" using t by blast
  moreover have "fst (send_fix_command ''node-a'' 7 ''KillProcess'' h2) = Inr ()" using reach t by simp
  ultimately show ?thesis using o by blast
qed

text \<open>
  \<^bold>\<open>C23.\<close>  A reconnected agent can become unreachable: when two connections hold the same node id, as after
  a reconnect that the hub notices before the old connection ends, the end of the first removes the
  entry of the second, and no later event of the second restores it, because it brings no new node
  id.  Every command for the machine then fails although it is connected and reporting.
\<close>

theorem stale_close_unregisters:
  assumes "hm_get (tasks h) t1 = Some n" "hm_get (tasks h) t2 = Some n" "t1 \<noteq> t2"
    and "list_all (\<lambda>(raw, _). case parse_hub_event_message (from_envelope env) (from_event env) raw of
           Inr e \<Rightarrow> ev_node_id e = None \<or> ev_node_id e = Some n | Inl _ \<Rightarrow> True) msgs"
  shows "let h' = fold (\<lambda>(raw, fault). handle_text env cfg fault t2 raw) msgs (close_connection t1 h) in
    hm_get (tasks h') t2 = Some n \<and> send_fix_command n pid act h' = (Inl (NotConnected n), h')"
proof -
  define gone where "gone h \<longleftrightarrow> hm_get (tasks h) t2 = Some n \<and> hm_get (connections h) n = None" for h :: "'a hub"
  have "gone (close_connection t1 h)"
    using assms(1-3) by (simp add: gone_def close_connection_def hm_simps)
  moreover have "gone (handle_text env cfg fault t2 raw h)"
    if g: "gone h" and same: "case parse_hub_event_message (from_envelope env) (from_event env) raw of
           Inr e \<Rightarrow> ev_node_id e = None \<or> ev_node_id e = Some n | Inl _ \<Rightarrow> True" for h :: "'a hub" and raw fault
  proof (cases "parse_hub_event_message (from_envelope env) (from_event env) raw")
    case (Inl _)
    with g show ?thesis by (simp add: handle_text_def gone_def split: option.splits)
  next
    case (Inr e)
    obtain e1 where "adopt_node_id t2 n e (connections h) = (n, e1, connections h)"
      using same Inr by (auto simp: adopt_node_id_def)
    from handle_text_links[OF Inr _ this] g show ?thesis by (simp add: gone_def hm_simps)
  qed
  ultimately have "gone (fold (\<lambda>(raw, fault). handle_text env cfg fault t2 raw) msgs (close_connection t1 h))"
    using assms(4) by (induction msgs arbitrary: h rule: rev_induct) auto
  then show ?thesis by (simp add: gone_def send_fix_command_def Let_def)
qed

definition reconnected :: "small_cluster hub" where
  "reconnected = small_hub\<lparr>connections := [(''node-a'', 2)], tasks := [(1, ''node-a''), (2, ''node-a'')], chan_open := [1, 2]\<rparr>"

theorem stale_close_unregisters_witness:
  "fst (send_fix_command ''node-a'' 7 ''KillProcess'' reconnected) = Inr () \<and>
   fst (send_fix_command ''node-a'' 7 ''KillProcess''
     (handle_text small_env small_cfg None 2 ''node-a'' (close_connection 1 reconnected))) = Inl (NotConnected ''node-a'')"
proof -
  have "hm_get (tasks reconnected) 1 = Some ''node-a''" "hm_get (tasks reconnected) 2 = Some ''node-a''"
    by (simp_all add: reconnected_def hm_get_def)
  from stale_close_unregisters[OF this, of small_env "[(''node-a'', None)]" small_cfg 7 "''KillProcess''"]
  have "fst (send_fix_command ''node-a'' 7 ''KillProcess''
     (handle_text small_env small_cfg None 2 ''node-a'' (close_connection 1 reconnected))) = Inl (NotConnected ''node-a'')"
    by (simp add: Let_def)
  moreover have "fst (send_fix_command ''node-a'' 7 ''KillProcess'' reconnected) = Inr ()"
    by (simp add: reconnected_def send_fix_command_def hm_get_def)
  ultimately show ?thesis by simp
qed

section \<open>What a diagnosis may do\<close>

lemma send_fix_outbox:
  assumes "send_fix_command nid pid act h = (r, h')"
  shows "outbox h' = outbox h @ (case hm_get (connections h) nid of
      Some tx \<Rightarrow> if isl r then [] else [(tx, \<lparr>intent = ''fix'', target_pid = pid, command_action = Some act\<rparr>)]
    | None \<Rightarrow> [])"
  using assms by (auto simp: send_fix_command_def split: option.splits if_splits)

definition fix_for :: "(string, nat) hashmap \<Rightarrow> policy_action \<Rightarrow> nat \<times> hub_command \<Rightarrow> bool" where
  "fix_for conns a m \<longleftrightarrow> hm_get conns (pa_node_id a) = Some (fst m) \<and>
     snd m = \<lparr>intent = ''fix'', target_pid = pa_target_pid a, command_action = Some (pa_action a)\<rparr>"

lemma execute_action_outbox:
  assumes "execute_action now a h = (r, h')"
  obtains "outbox h' = outbox h" | m where "outbox h' = outbox h @ [m]" "fix_for (connections h) a m"
proof -
  obtain q gd where q: "check_and_record_cooldown (pa_node_id a) (pa_action a) now (guard h) = (q, gd)"
    by (rule prod.exhaust)
  show thesis
  proof (cases q)
    case (Inl e)
    then show thesis using assms that(1) by (auto simp: execute_action_def q)
  next
    case (Inr u)
    then have "send_fix_command (pa_node_id a) (pa_target_pid a) (pa_action a) (h\<lparr>guard := gd\<rparr>) = (r, h')"
      using assms by (simp add: execute_action_def q)
    from send_fix_outbox[OF this] that show thesis
      by (cases "hm_get (connections h) (pa_node_id a)") (auto simp: fix_for_def split: if_splits)
  qed
qed

lemma execute_actions_outbox:
  "execute_actions now as h = (rs, h') \<Longrightarrow>
     \<exists>msgs. outbox h' = outbox h @ msgs \<and> length msgs \<le> length as \<and>
       (\<forall>m\<in>set msgs. \<exists>a\<in>set as. fix_for (connections h) a m)"
proof (induction as arbitrary: h rs)
  case (Cons a as)
  obtain r h1 where a: "execute_action now a h = (r, h1)" by (rule prod.exhaust)
  then obtain rs1 where as: "execute_actions now as h1 = (rs1, h')"
    using Cons.prems by (auto simp: execute_actions_Cons split: prod.splits)
  have c: "connections h1 = connections h" using execute_action_frame[OF a] by (simp add: same_links_def)
  obtain msgs where m: "outbox h' = outbox h1 @ msgs" "length msgs \<le> length as"
      "\<forall>m\<in>set msgs. \<exists>a\<in>set as. fix_for (connections h) a m"
    using Cons.IH[OF as] c by metis
  from a show ?case
  proof (cases rule: execute_action_outbox)
    case 1
    with m show ?thesis by (intro exI[of _ msgs]) auto
  next
    case (2 m1)
    with m show ?thesis by (intro exI[of _ "m1 # msgs"]) auto
  qed
qed simp

lemma build_policy_actions_from:
  assumes "a \<in> set (build_policy_actions scenes ps dry)"
  shows "pa_action a = (if degraded scenes then ''KillProcess'' else ''GracefulShutdown'') \<and>
    (\<exists>p\<in>set ps. pj_node_id p = Some (pa_node_id a) \<and> (\<exists>pid. pj_pid p = Some pid \<and> pa_target_pid a = pid mod 2 ^ 32))"
  using assms by (auto simp: build_policy_actions_def map_filter_def Let_def split: option.splits if_splits)

lemma parse_u32_less: "parse_uint u32_max s = Some pid \<Longrightarrow> pid < 2 ^ 32"
  using parse_uint_le[of u32_max s pid] by (simp add: u32_max_def)

lemma process_entry_pid:
  assumes "p \<in> set (process_entry i)"
  shows "\<exists>n pid. p = \<lparr>pj_node_id = Some n, pj_pid = Some pid, pj_node_id_full = Some i\<rparr> \<and> pid < 2 ^ 32"
proof -
  have c: "contains i ''::''" by (rule ccontr) (use assms in \<open>simp add: process_entry_def\<close>)
  obtain n q rest where sp: "split_str ''::'' i = n # q # rest"
    using assms c by (cases "split_str ''::'' i"; cases "tl (split_str ''::'' i)") (simp_all add: process_entry_def)
  obtain s where s: "strip_prefix q ''pid-'' = Some s"
    using assms by (cases "strip_prefix q ''pid-''") (simp_all add: process_entry_def c sp)
  show ?thesis
    using assms parse_u32_less[of s] by (cases "parse_uint u32_max s") (simp_all add: process_entry_def c sp s)
qed

lemma cluster_why_processes: "p \<in> set (snd (cluster_why g job)) \<Longrightarrow> \<exists>i\<in>set (job_pids g job). p \<in> set (process_entry i)"
  by (auto simp: cluster_why_def Let_def split: if_splits)

text \<open>
  \<^bold>\<open>C24.\<close>  A diagnosis acts only when it may and only on what it should.  Unless execution is both enabled and
  requested it changes nothing but its request number.  Otherwise it sends at most the configured
  number of commands, each of them on the channel of the machine of a process that the graph has for
  the diagnosed job, for the pid of that process; and it asks for a kill only when a matched rule is of
  a physical degradation scene.
\<close>

theorem diagnose_confined:
  assumes "diagnose env cfg clock now ps h = (r, h')"
  shows "(\<not> (allow_execute cfg \<and> execute_requested ps) \<longrightarrow>
      outbox h' = outbox h \<and> controller h' = controller h \<and> cluster h' = cluster h \<and>
      last_action_ms (guard h') = last_action_ms (guard h)) \<and>
    (\<exists>msgs. outbox h' = outbox h @ msgs \<and> length msgs \<le> max_actions (guard h) \<and>
      (\<forall>(tx, m)\<in>set msgs. \<exists>job i n. hm_get ps ''job_id'' = Some job \<and> i \<in> set (job_pids (hub_graph h) job) \<and>
        \<lparr>pj_node_id = Some n, pj_pid = Some (target_pid m), pj_node_id_full = Some i\<rparr> \<in> set (process_entry i) \<and>
        hm_get (connections h) n = Some tx \<and>
        (command_action m = Some ''KillProcess'' \<longrightarrow> degraded (job_scenes cfg now ps job h))))"
  using assms
proof (cases rule: diagnose_acts)
  case (exec job d)
  let ?h = "h\<lparr>guard := snd (next_request_id now (guard h))\<rparr>"
  let ?policy = "job_policy cfg now ps job h"
  obtain msgs where m: "outbox h' = outbox h @ msgs" "length msgs \<le> length ?policy"
      "\<forall>m\<in>set msgs. \<exists>a\<in>set ?policy. fix_for (connections h) a m"
    using exec(5)
  proof (cases rule: execute_policy_acts)
    case (run rs0 h0)
    then show thesis using execute_actions_outbox[OF run(3)] that by auto
  next
    case limited
    then show thesis using that[of "[]"] by simp
  qed
  have "\<exists>i n. i \<in> set (job_pids (hub_graph h) job) \<and>
        \<lparr>pj_node_id = Some n, pj_pid = Some (target_pid c), pj_node_id_full = Some i\<rparr> \<in> set (process_entry i) \<and>
        hm_get (connections h) n = Some tx \<and>
        (command_action c = Some ''KillProcess'' \<longrightarrow> degraded (job_scenes cfg now ps job h))"
    if tc: "(tx, c) \<in> set msgs" for tx c
  proof -
    obtain a where a: "a \<in> set ?policy" "fix_for (connections h) a (tx, c)" using m(3) tc by blast
    have "a \<in> set (build_policy_actions (job_scenes cfg now ps job h) (job_processes job h) False)"
      using a(1) by (auto simp: job_policy_def dest: in_set_takeD)
    from build_policy_actions_from[OF this] obtain p pid where act: "pa_action a = (if degraded (job_scenes cfg now ps job h) then ''KillProcess'' else ''GracefulShutdown'')"
      and p: "p \<in> set (job_processes job h)" "pj_node_id p = Some (pa_node_id a)" "pj_pid p = Some pid" "pa_target_pid a = pid mod 2 ^ 32"
      by blast
    obtain i where i: "i \<in> set (job_pids (hub_graph h) job)" "p \<in> set (process_entry i)"
      using cluster_why_processes p(1) unfolding job_processes_def by blast
    obtain n' pid' where "p = \<lparr>pj_node_id = Some n', pj_pid = Some pid', pj_node_id_full = Some i\<rparr>" "pid' < 2 ^ 32"
      using process_entry_pid[OF i(2)] by blast
    with p have "p = \<lparr>pj_node_id = Some (pa_node_id a), pj_pid = Some (pa_target_pid a), pj_node_id_full = Some i\<rparr>"
      by simp
    with i a(2) act show ?thesis by (auto simp: fix_for_def split: if_splits)
  qed
  moreover have "length msgs \<le> max_actions (guard h)" using m(2) by (simp add: job_policy_def)
  ultimately show ?thesis using m(1) exec(1-3) by (intro conjI exI[of _ msgs]) auto
qed auto

definition running_hub :: "small_cluster hub" where
  "running_hub = reconnected\<lparr>core := (core_new 0)\<lparr>core_memory := memory_new\<lparr>mem_graph :=
     state_graph_new\<lparr>nodes := [(''node-a::pid-7'', \<lparr>node_id = ''node-a::pid-7'', node_type = ProcessNode, last_update = 1000,
       metadata = [(''job_id'', ''job-1'')]\<rparr>)]\<rparr>\<rparr>\<rparr>\<rparr>"

definition execute_job :: params where
  "execute_job = [(''job_id'', ''job-1''), (''execute'', ''TRUE'')]"

lemma running_outbox:
  "outbox (snd (diagnose small_env small_cfg (\<lambda>n. n) 2000 execute_job running_hub)) =
     [(2, \<lparr>intent = ''fix'', target_pid = 7, command_action = Some ''KillProcess''\<rparr>)]"
  by code_simp

theorem diagnose_confined_witness:
  "length (outbox (snd (diagnose small_env small_cfg (\<lambda>n. n) 2000 execute_job running_hub))) \<le> max_actions (guard running_hub) \<and>
   degraded (job_scenes small_cfg 2000 execute_job ''job-1'' running_hub) \<and>
   outbox (snd (diagnose small_env (small_cfg\<lparr>allow_execute := False\<rparr>) (\<lambda>n. n) 2000 execute_job running_hub)) = []"
proof -
  have e: "outbox running_hub = []" "hm_get execute_job ''job_id'' = Some ''job-1''"
    by (simp_all add: running_hub_def reconnected_def small_hub_def execute_job_def hm_get_def)
  obtain r h' where d: "diagnose small_env small_cfg (\<lambda>n. n) 2000 execute_job running_hub = (r, h')" by (rule prod.exhaust)
  have o: "outbox h' = [(2, \<lparr>intent = ''fix'', target_pid = 7, command_action = Some ''KillProcess''\<rparr>)]"
    using running_outbox by (simp add: d)
  obtain r2 h2 where d2: "diagnose small_env (small_cfg\<lparr>allow_execute := False\<rparr>) (\<lambda>n. n) 2000 execute_job running_hub = (r2, h2)"
    by (rule prod.exhaust)
  show ?thesis
    using diagnose_confined[OF d] diagnose_confined[OF d2] o by (auto simp: d d2 e)
qed

text \<open>How one passage of the cooldown changes the times it keeps.\<close>

definition later_times :: "execute_guard \<Rightarrow> execute_guard \<Rightarrow> bool" where
  "later_times a b \<longleftrightarrow> cooldown_ms b = cooldown_ms a \<and>
     (\<forall>k l. hm_get (last_action_ms a) k = Some l \<longrightarrow> (\<exists>l'\<ge>l. hm_get (last_action_ms b) k = Some l'))"

lemma later_times_refl [simp]: "later_times a a"
  by (auto simp: later_times_def)

lemma later_times_trans: "later_times a b \<Longrightarrow> later_times b c \<Longrightarrow> later_times a c"
  unfolding later_times_def by (metis order_trans)

definition passes :: "string \<Rightarrow> nat \<Rightarrow> execute_guard \<Rightarrow> execute_guard \<Rightarrow> bool" where
  "passes k now a b \<longleftrightarrow> (\<exists>l\<ge>now. hm_get (last_action_ms b) k = Some l) \<and>
     (\<forall>l. hm_get (last_action_ms a) k = Some l \<longrightarrow> l + cooldown_ms a \<le> now)"

lemma later_timesD:
  "later_times a b \<Longrightarrow> hm_get (last_action_ms a) k = Some l \<Longrightarrow> \<exists>l'\<ge>l. hm_get (last_action_ms b) k = Some l'"
  by (simp add: later_times_def)

lemma passes_before:
  assumes "later_times a b" "passes k now b c"
  shows "passes k now a c"
proof -
  have "l + cooldown_ms a \<le> now" if l: "hm_get (last_action_ms a) k = Some l" for l
  proof -
    obtain l' where "l \<le> l'" "hm_get (last_action_ms b) k = Some l'" using later_timesD[OF assms(1) l] by blast
    moreover from this assms(2) have "l' + cooldown_ms b \<le> now" by (simp add: passes_def)
    ultimately show ?thesis using assms(1) by (simp add: later_times_def)
  qed
  with assms(2) show ?thesis by (simp add: passes_def)
qed

lemma passes_after:
  assumes "passes k now a b" "later_times b c"
  shows "passes k now a c"
proof -
  obtain l where "now \<le> l" "hm_get (last_action_ms b) k = Some l" using assms(1) by (auto simp: passes_def)
  with later_timesD[OF assms(2)] have "\<exists>l\<ge>now. hm_get (last_action_ms c) k = Some l" by (metis order_trans)
  with assms(1) show ?thesis by (simp add: passes_def)
qed

lemma cooldown_step:
  assumes "check_and_record_cooldown n act now a = (q, b)" "0 < cooldown_ms a"
  shows "later_times a b \<and> (\<not> isl q \<longrightarrow> passes (cooldown_key n act) now a b)"
proof -
  have "now - l < cooldown_ms a \<or> l + cooldown_ms a \<le> now" for l using assms(2) by linarith
  then show ?thesis
    using assms(1)
    by (auto simp: check_and_record_cooldown_def later_times_def passes_def saturating_sub_def hm_simps Let_def
        split: option.splits if_splits) (metis add_leE)+
qed

lemma execute_action_times:
  assumes "execute_action now a h = (r, h')" "0 < cooldown_ms (guard h)"
  shows "later_times (guard h) (guard h') \<and>
    (\<not> isl r \<longrightarrow> passes (cooldown_key (pa_node_id a) (pa_action a)) now (guard h) (guard h'))"
proof -
  obtain q gd where q: "check_and_record_cooldown (pa_node_id a) (pa_action a) now (guard h) = (q, gd)"
    by (rule prod.exhaust)
  show ?thesis
    using cooldown_step[OF q assms(2)] assms(1)
    by (cases q) (auto simp: execute_action_def q dest: send_fix_links)
qed

definition result_key :: "exec_result \<Rightarrow> string" where
  "result_key x = cooldown_key (the (er_node_id x)) (the (er_action x))"

lemma execute_actions_times:
  assumes "execute_actions now as h = (rs, h')" "0 < cooldown_ms (guard h)"
  shows "later_times (guard h) (guard h') \<and> distinct (map result_key (filter er_success rs)) \<and>
    (\<forall>x\<in>set (filter er_success rs). passes (result_key x) now (guard h) (guard h'))"
  using assms
proof (induction as arbitrary: h rs)
  case (Cons a as)
  obtain r h1 where a: "execute_action now a h = (r, h1)" by (rule prod.exhaust)
  then obtain rs1 where as: "execute_actions now as h1 = (rs1, h')" and rs: "rs = action_result a r # rs1"
    using Cons.prems by (auto simp: execute_actions_Cons split: prod.splits)
  note t1 = execute_action_times[OF a Cons.prems(2)]
  have cd: "cooldown_ms (guard h1) = cooldown_ms (guard h)" using t1 by (simp add: later_times_def)
  have t2: "later_times (guard h1) (guard h')" "distinct (map result_key (filter er_success rs1))"
    "\<And>x. x \<in> set (filter er_success rs1) \<Longrightarrow> passes (result_key x) now (guard h1) (guard h')"
    using Cons.IH[OF as] Cons.prems(2) cd by auto
  have key: "result_key (action_result a r) = cooldown_key (pa_node_id a) (pa_action a)"
    by (simp add: result_key_def action_result_def)
  have rest: "passes (result_key x) now (guard h) (guard h')" if "x \<in> set (filter er_success rs1)" for x
    using passes_before t1 t2(3)[OF that] by blast
  have p: "passes (result_key (action_result a r)) now (guard h) (guard h1)" if "\<not> isl r"
    using t1 that by (simp add: key)
  have fresh: "result_key x \<noteq> result_key (action_result a r)" if "\<not> isl r" and x: "x \<in> set (filter er_success rs1)" for x
  proof
    assume eq: "result_key x = result_key (action_result a r)"
    obtain l where l: "now \<le> l" "hm_get (last_action_ms (guard h1)) (result_key x) = Some l"
      using p[OF \<open>\<not> isl r\<close>] by (auto simp: passes_def eq)
    then have "l + cooldown_ms (guard h1) \<le> now" using t2(3)[OF x] by (simp add: passes_def)
    with l(1) Cons.prems(2) cd show False by simp
  qed
  have new: "passes (result_key (action_result a r)) now (guard h) (guard h')" if "\<not> isl r"
    using p[OF that] t2(1) by (rule passes_after)
  have ok: "er_success (action_result a r) \<longleftrightarrow> \<not> isl r" by (simp add: action_result_def)
  have "later_times (guard h) (guard h')" using t1 t2(1) later_times_trans by blast
  moreover have "\<not> isl r \<Longrightarrow> result_key (action_result a r) \<notin> result_key ` set (filter er_success rs1)"
    using fresh by (metis (no_types, lifting) imageE)
  then have "distinct (map result_key (filter er_success rs))" using t2(2) by (simp add: rs ok)
  moreover have "\<forall>x\<in>set (filter er_success rs). passes (result_key x) now (guard h) (guard h')"
    using new rest by (simp add: rs ok)
  ultimately show ?case by blast
qed simp

lemma diagnose_times:
  assumes "diagnose env cfg clock now ps h = (r, h')" "0 < cooldown_ms (guard h)"
  shows "later_times (guard h) (guard h') \<and>
    (case r of Inl _ \<Rightarrow> True | Inr d \<Rightarrow> distinct (map result_key (filter er_success (dg_execution d))) \<and>
       (\<forall>x\<in>set (filter er_success (dg_execution d)). passes (result_key x) now (guard h) (guard h')))"
  using assms(1)
proof (cases rule: diagnose_acts)
  case (idle gd)
  then show ?thesis by (auto simp: later_times_def split: sum.splits)
next
  case (exec job d)
  from exec(5) show ?thesis
  proof (cases rule: execute_policy_acts)
    case (run rs0 h0)
    have "0 < cooldown_ms (guard (h\<lparr>guard := snd (next_request_id now (guard h))\<lparr>permits := permits (guard h) - 1\<rparr>\<rparr>))"
      using assms(2) by simp
    with execute_actions_times[OF run(3)[simplified]] run exec(4) show ?thesis
      by (simp add: later_times_def passes_def release_permit_def)
  next
    case limited
    then show ?thesis by (simp add: exec(4) later_times_def)
  qed
qed

lemma hub_step_times:
  assumes "0 < cooldown_ms (guard h)"
  shows "later_times (guard h) (guard (hub_step env cfg a h))"
proof (cases a)
  case (Diagnose clock now ps)
  then show ?thesis using diagnose_times[of env cfg clock now ps h] assms by (cases "diagnose env cfg clock now ps h") simp
next
  case (Incoming tx raw fault)
  have "guard (handle_text env cfg fault tx raw h) = guard h"
    by (simp add: handle_text_def case_prod_unfold Let_def split: option.split sum.split)
  with Incoming show ?thesis by simp
next
  case (FaultTask i now done_at)
  have "guard (run_fault_task env i now done_at h) = guard h"
    by (simp add: run_fault_task_def case_prod_unfold Let_def split: option.split)
  with FaultTask show ?thesis by simp
next
  case (Fix nid pid act)
  then show ?thesis
    using send_fix_links[of nid pid "or_default act ''GracefulShutdown''" h]
    by (cases "send_fix_command nid pid (or_default act ''GracefulShutdown'') h") (simp add: fix_route_def split: sum.split)
qed (simp_all add: connect_agent_def close_connection_def fail_connection_def fail_writer_def Let_def split: option.splits)

lemma hub_steps_times:
  "0 < cooldown_ms (guard h) \<Longrightarrow> later_times (guard h) (guard (fold (hub_step env cfg) acts h))"
proof (induction acts arbitrary: h)
  case (Cons a acts)
  have l: "later_times (guard h) (guard (hub_step env cfg a h))" by (rule hub_step_times[OF Cons.prems])
  then have "0 < cooldown_ms (guard (hub_step env cfg a h))" using Cons.prems by (simp add: later_times_def)
  from later_times_trans[OF l Cons.IH[OF this]] show ?case by simp
qed simp

text \<open>
  \<^bold>\<open>C25.\<close>  Actions are spaced, when the cooldown is above zero.  One diagnosis has at most one successful
  action per machine and kind, so of several processes of a job on one machine it acts on one.  And
  whatever happens in between, and however the clock moves, a later diagnosis that succeeds with the
  same kind on the same machine comes at least the cooldown after it.
\<close>

theorem actions_spaced:
  assumes "0 < cooldown_ms (guard h)" "diagnose env cfg clock1 t1 ps1 h = (Inr d1, h1)"
  shows "distinct (map (\<lambda>x. (er_node_id x, er_action x)) (filter er_success (dg_execution d1))) \<and>
    (\<forall>acts clock2 t2 ps2 d2 h2 x1 x2.
       diagnose env cfg clock2 t2 ps2 (fold (hub_step env cfg) acts h1) = (Inr d2, h2) \<and>
       x1 \<in> set (dg_execution d1) \<and> er_success x1 \<and> x2 \<in> set (dg_execution d2) \<and> er_success x2 \<and>
       er_node_id x1 = er_node_id x2 \<and> er_action x1 = er_action x2 \<longrightarrow> t1 + cooldown_ms (guard h) \<le> t2)"
proof (intro conjI allI impI)
  note one = diagnose_times[OF assms(2,1)]
  have "distinct (map result_key (filter er_success (dg_execution d1)))" using one by simp
  then have "distinct (map (\<lambda>(n, a). cooldown_key (the n) (the a))
      (map (\<lambda>x. (er_node_id x, er_action x)) (filter er_success (dg_execution d1))))"
    by (simp add: result_key_def[abs_def] comp_def)
  then show "distinct (map (\<lambda>x. (er_node_id x, er_action x)) (filter er_success (dg_execution d1)))"
    by (rule conjunct1[OF iffD1[OF distinct_map]])
  fix acts clock2 t2 ps2 d2 h2 x1 x2
  let ?h2 = "fold (hub_step env cfg) acts h1"
  assume a: "diagnose env cfg clock2 t2 ps2 ?h2 = (Inr d2, h2) \<and>
       x1 \<in> set (dg_execution d1) \<and> er_success x1 \<and> x2 \<in> set (dg_execution d2) \<and> er_success x2 \<and>
       er_node_id x1 = er_node_id x2 \<and> er_action x1 = er_action x2"
  have cd1: "cooldown_ms (guard h1) = cooldown_ms (guard h)" using one by (simp add: later_times_def)
  have steps: "later_times (guard h1) (guard ?h2)" using hub_steps_times[of h1 env cfg acts] assms(1) cd1 by simp
  have cd2: "cooldown_ms (guard ?h2) = cooldown_ms (guard h)" using steps cd1 by (simp add: later_times_def)
  have key: "result_key x1 = result_key x2" using a by (simp add: result_key_def)
  have "passes (result_key x2) t1 (guard h) (guard h1)" using one a by (simp flip: key)
  then have "passes (result_key x2) t1 (guard h) (guard ?h2)" using steps by (rule passes_after)
  then obtain l where l: "t1 \<le> l" "hm_get (last_action_ms (guard ?h2)) (result_key x2) = Some l"
    by (auto simp: passes_def)
  have "passes (result_key x2) t2 (guard ?h2) (guard h2)"
    using diagnose_times[of env cfg clock2 t2 ps2 ?h2 "Inr d2" h2] a assms(1) cd2 by simp
  with l show "t1 + cooldown_ms (guard h) \<le> t2" by (simp add: passes_def cd2)
qed

definition execution_of :: "(string + diagnosis) \<times> 'c hub \<Rightarrow> exec_result list" where
  "execution_of p = (case fst p of Inr d \<Rightarrow> dg_execution d | Inl _ \<Rightarrow> [])"

definition killed :: exec_result where
  "killed = \<lparr>er_node_id = Some ''node-a'', er_target_pid = Some 7, er_action = Some ''KillProcess'', er_success = True, er_error = None\<rparr>"

theorem actions_spaced_witness:
  "\<exists>d1 h1 d2 h2. diagnose small_env small_cfg (\<lambda>n. n) 2000 execute_job running_hub = (Inr d1, h1) \<and>
     diagnose small_env small_cfg (\<lambda>n. n) 62000 execute_job h1 = (Inr d2, h2) \<and>
     killed \<in> set (dg_execution d1) \<and> killed \<in> set (dg_execution d2) \<and> 2000 + cooldown_ms (guard running_hub) \<le> 62000"
proof -
  let ?p1 = "diagnose small_env small_cfg (\<lambda>n. n) 2000 execute_job running_hub"
  let ?p2 = "diagnose small_env small_cfg (\<lambda>n. n) 62000 execute_job (snd ?p1)"
  have e: "execution_of ?p1 = [killed]" "execution_of ?p2 = [killed]" "\<not> isl (fst ?p1)" "\<not> isl (fst ?p2)"
    "0 < cooldown_ms (guard running_hub)" by code_simp+
  obtain d1 h1 where p1: "?p1 = (Inr d1, h1)" using e(3) by (cases ?p1; cases "fst ?p1") auto
  obtain d2 h2 where p2: "?p2 = (Inr d2, h2)" using e(4) by (cases ?p2; cases "fst ?p2") auto
  have "dg_execution d1 = [killed]" "dg_execution d2 = [killed]"
    using e(1,2) p2 unfolding execution_of_def by (simp_all add: p1)
  moreover have "er_success killed" by (simp add: killed_def)
  ultimately show ?thesis
    using conjunct2[OF actions_spaced[OF e(5) p1], THEN spec, of "[]"] p1 p2 by fastforce
qed

text \<open>
  Isolation ignores the guard: when a matched scene is a physical degradation and the controller is
  on, a diagnosis that was refused for lack of a permit, and says so, still taints and evicts the
  machines of all processes of the job, without a limit on their number.
\<close>

theorem isolation_ignores_guard:
  assumes "hm_get ps ''job_id'' = Some job" "allow_execute cfg" "execute_requested ps"
    and "permits (guard h) = 0" "controller h = Some ctl" "degraded (job_scenes cfg now ps job h)"
  shows "\<exists>d h'. diagnose env cfg clock now ps h = (Inr d, h') \<and> dg_concurrency_limited d \<and> outbox h' = outbox h \<and>
    (controller h', cluster h') =
      (case isolate_nodes env clock 0 (job_processes job h) (ctl, cluster h) of (_, ctl', cl') \<Rightarrow> (Some ctl', cl'))"
proof -
  obtain r h' where d: "diagnose env cfg clock now ps h = (r, h')" by (rule prod.exhaust)
  obtain rs ctl' cl' where iso: "isolate_nodes env clock 0 (job_processes job h) (ctl, cluster h) = (rs, ctl', cl')"
    by (rule prod_cases3)
  from d show ?thesis
  proof (cases rule: diagnose_acts)
    case (idle gd)
    then show ?thesis
      using d assms(1-3) by (auto simp: diagnose_def Let_def split: prod.splits)
  next
    case (exec job' dg)
    then have "job' = job" using assms(1) by simp
    with exec(5) assms(4-6) have "dg_concurrency_limited dg" "outbox h' = outbox h" "controller h' = Some ctl'" "cluster h' = cl'"
      by (auto simp: execute_policy_def try_acquire_def iso)
    with d exec(4) show ?thesis by (simp add: iso)
  qed
qed

theorem isolation_ignores_guard_witness:
  "let h = running_hub\<lparr>guard := (guard running_hub)\<lparr>permits := 0\<rparr>\<rparr>;
       (r, h') = diagnose small_env small_cfg (\<lambda>n. n) 2000 execute_job h in
     outbox h' = outbox h \<and> hm_get (sc_nodes (cluster h)) ''node-a'' = Some [] \<and>
     (\<exists>v. hm_get (sc_nodes (cluster h')) ''node-a'' = Some [\<lparr>taint_key = failure_key, taint_value = v, taint_effect = ''NoSchedule''\<rparr>])"
proof -
  let ?h = "running_hub\<lparr>guard := (guard running_hub)\<lparr>permits := 0\<rparr>\<rparr>"
  have p: "hm_get execute_job ''job_id'' = Some ''job-1''" "allow_execute small_cfg" "execute_requested execute_job"
    "permits (guard ?h) = 0" "degraded (job_scenes small_cfg 2000 execute_job ''job-1'' ?h)"
    "hm_get (sc_nodes (cluster ?h)) ''node-a'' = Some []"
    by code_simp+
  have c: "controller ?h = Some (controller_new True)" by (simp add: running_hub_def reconnected_def small_hub_def)
  have t: "hm_get (sc_nodes (snd (snd (isolate_nodes small_env (\<lambda>n. n) 0 (job_processes ''job-1'' ?h) (controller_new True, cluster ?h))))) ''node-a'' =
      Some [\<lparr>taint_key = failure_key, taint_value = Some ''hardware-failure:rdma-physical-degradation'', taint_effect = ''NoSchedule''\<rparr>]"
    by code_simp
  from isolation_ignores_guard[OF p(1-4) c p(5), of small_env "\<lambda>n. n"] p(6) t show ?thesis
    by (auto simp: Let_def split: prod.splits)
qed

end
