(* ===== verification/Hub_Query.thy ===== *)
theory Hub_Query
  imports Hub_Props
begin

text \<open>
  The questions the hub answers: why a job is slow or stuck, whether a machine is fit, which incidents
  there are.
\<close>

section \<open>Splitting node ids\<close>

lemma split_str_none: "sep \<noteq> [] \<Longrightarrow> \<not> contains s sep \<Longrightarrow> split_str sep s = [s]"
  by (subst split_str.simps) (simp add: contains_def split: option.splits)

lemma find_str_here:
  assumes "p \<noteq> []"
  shows "find_str (u @ p @ t) p = Some (length u) \<longleftrightarrow> \<not> contains (u @ butlast p) p"
proof
  assume f: "find_str (u @ p @ t) p = Some (length u)"
  show "\<not> contains (u @ butlast p) p"
  proof
    assume "contains (u @ butlast p) p"
    then obtain a b where ab: "u @ butlast p = a @ p @ b" by (auto simp: contains_iff)
    then have "u @ p @ t = a @ p @ (b @ last p # t)" using append_butlast_last_id[OF assms]
      by (metis append.assoc append_Cons append_Nil)
    from find_str_least[OF this] f have "length u \<le> length a" by auto
    moreover have "length u + (length p - 1) = length a + length p + length b"
      using arg_cong[OF ab, of length] by simp
    moreover have "0 < length p" using assms by simp
    ultimately show False by linarith
  qed
next
  assume n: "\<not> contains (u @ butlast p) p"
  obtain i where i: "find_str (u @ p @ t) p = Some i" "i \<le> length u"
    using find_str_least[of "u @ p @ t" u p t] by auto
  obtain t' where t: "u @ p @ t = take i (u @ p @ t) @ p @ t'" using find_str_SomeD[OF i(1)] by auto
  have "i = length u"
  proof (rule ccontr)
    assume "i \<noteq> length u"
    let ?m = "length u + length p - 1"
    have l: "i + length p \<le> ?m" "0 < length p" using i(2) \<open>i \<noteq> length u\<close> assms by (simp_all add: Suc_leI)
    have "length u \<le> ?m" "?m - length u = length p - 1" using l(2) by linarith+
    then have "u @ butlast p = take ?m (u @ p @ t)" by (simp add: butlast_conv_take)
    also have "\<dots> = take i (u @ p @ t) @ p @ take (?m - i - length p) t'"
      using l i(2) by (subst t) (simp add: min_absorb2)
    finally show False using n unfolding contains_iff by blast
  qed
  with i(1) show "find_str (u @ p @ t) p = Some (length u)" by simp
qed

lemma split_str_here:
  assumes "p \<noteq> []" "\<not> contains (u @ butlast p) p"
  shows "split_str p (u @ p @ t) = u # split_str p t"
  using assms find_str_here[of p u t] by (subst split_str.simps) simp

lemma split_str_head:
  assumes "p \<noteq> []" "split_str p s = q # qs"
  shows "s = q \<and> qs = [] \<or> (\<exists>t. s = q @ p @ t \<and> \<not> contains (q @ butlast p) p \<and> qs = split_str p t)"
proof (cases "find_str s p")
  case None
  then show ?thesis using assms by (subst (asm) split_str.simps) simp
next
  case (Some j)
  obtain t where t: "s = take j s @ p @ t" "j + length p \<le> length s" using find_str_SomeD[OF Some] by blast
  have "length (take j s) = j" using t(2) by simp
  then have "find_str (take j s @ p @ t) p = Some (length (take j s))" using Some t(1) by simp
  then have n: "\<not> contains (take j s @ butlast p) p" by (rule iffD1[OF find_str_here[OF assms(1)]])
  have "split_str p s = take j s # split_str p t" using split_str_here[OF assms(1) n, of t] t(1) by simp
  with n t(1) assms(2) show ?thesis by auto
qed

text \<open>
  The node ids the hub reports as processes, without reference to how it splits them: a machine name,
  a double colon, \<open>pid-\<close> and a number, and perhaps more after another double colon; the machine name
  ends at the first double colon of the id.
\<close>

definition reported_as :: "string \<Rightarrow> string \<Rightarrow> nat \<Rightarrow> bool" where
  "reported_as i n k \<longleftrightarrow> \<not> contains (n @ '':'') ''::'' \<and>
     (\<exists>s rest. i = n @ ''::'' @ ''pid-'' @ s @ rest \<and> parse_uint u32_max s = Some k \<and>
        (rest = [] \<or> (\<exists>r. rest = ''::'' @ r)))"

definition process_id :: "string \<Rightarrow> nat \<Rightarrow> string" where
  "process_id n k = n @ ''::'' @ ''pid-'' @ show_nat k"

lemma parsed_no_colon: "parse_uint m s = Some k \<Longrightarrow> CHR '':'' \<notin> set (''pid-'' @ s)"
  by (cases s) (auto simp: parse_uint_def Let_def list_all_iff is_digit_def split: if_splits)

lemma count_list_zero: "c \<notin> set xs \<Longrightarrow> count_list xs c = 0"
  by (induction xs) auto

lemma no_colon_sep:
  assumes "CHR '':'' \<notin> set q"
  shows "\<not> contains (q @ '':'') ''::''"
proof
  assume "contains (q @ '':'') ''::''"
  then obtain a b where "q @ '':'' = a @ ''::'' @ b" unfolding contains_iff by blast
  from arg_cong[OF this, of "\<lambda>xs. count_list xs CHR '':''"] assms show False by (simp add: count_list_zero)
qed

lemma process_entry_reported:
  assumes "reported_as i n k"
  shows "process_entry i = [\<lparr>pj_node_id = Some n, pj_pid = Some k, pj_node_id_full = Some i\<rparr>]"
proof -
  define sep :: string where "sep = ''::''"
  obtain s rest where i: "i = n @ sep @ (''pid-'' @ s) @ rest" "parse_uint u32_max s = Some k"
      "rest = [] \<or> (\<exists>r. rest = sep @ r)" and n: "\<not> contains (n @ butlast sep) sep"
    using assms by (auto simp: reported_as_def sep_def)
  have sep: "sep \<noteq> []" by (simp add: sep_def)
  define q where "q = ''pid-'' @ s"
  have q: "CHR '':'' \<notin> set q" unfolding q_def by (rule parsed_no_colon[OF i(2)])
  then have "\<not> contains q sep" "\<not> contains (q @ butlast sep) sep"
    using no_colon_sep[OF q] contains_no_colon[OF q] by (simp_all add: sep_def)
  then have "\<exists>qs. split_str sep (q @ rest) = q # qs"
    using i(3) split_str_here[OF sep] split_str_none[OF sep] by fastforce
  then obtain qs where "split_str sep i = n # q # qs"
    using split_str_here[OF sep n] i(1) unfolding q_def by fastforce
  moreover have "contains i sep" using i(1) by (auto simp: contains_iff)
  moreover have "strip_prefix q ''pid-'' = Some s" unfolding q_def by (rule strip_prefix_append)
  ultimately show ?thesis using i(2) by (simp add: process_entry_def sep_def)
qed

lemma process_entry_unreported:
  assumes "e \<in> set (process_entry i)"
  shows "\<exists>n k. reported_as i n k"
proof -
  define sep :: string where "sep = ''::''"
  have sep: "sep \<noteq> []" by (simp add: sep_def)
  have c: "contains i sep" by (rule ccontr) (use assms in \<open>simp add: process_entry_def sep_def\<close>)
  obtain n q qs where sp: "split_str sep i = n # q # qs"
    using assms c by (cases "split_str sep i"; cases "tl (split_str sep i)") (simp_all add: process_entry_def sep_def[symmetric])
  obtain s where s: "strip_prefix q ''pid-'' = Some s"
    using assms by (cases "strip_prefix q ''pid-''") (simp_all add: process_entry_def sep_def[symmetric] c sp)
  obtain k where k: "parse_uint u32_max s = Some k"
    using assms by (cases "parse_uint u32_max s") (simp_all add: process_entry_def sep_def[symmetric] c sp s)
  obtain t where t: "i = n @ sep @ t" "\<not> contains (n @ butlast sep) sep" "split_str sep t = q # qs"
    using split_str_head[OF sep sp] by auto
  obtain rest where "t = q @ rest" "rest = [] \<or> (\<exists>r. rest = sep @ r)"
    using split_str_head[OF sep t(3)] by auto
  moreover have "q = ''pid-'' @ s" using s by (simp only: strip_prefix_Some_iff)
  ultimately have "i = n @ sep @ ''pid-'' @ s @ rest" "rest = [] \<or> (\<exists>r. rest = sep @ r)" using t(1) by simp_all
  moreover have "\<not> contains (n @ '':'') sep" using t(2) by (simp add: sep_def)
  ultimately show ?thesis using k unfolding reported_as_def sep_def by blast
qed

lemma reported_unique: "reported_as i n k \<Longrightarrow> reported_as i n' k' \<Longrightarrow> n' = n \<and> k' = k"
  using process_entry_reported[of i n k] process_entry_reported[of i n' k'] by simp

lemma set_process_entry:
  "e \<in> set (process_entry i) \<longleftrightarrow>
     (\<exists>n k. reported_as i n k \<and> e = \<lparr>pj_node_id = Some n, pj_pid = Some k, pj_node_id_full = Some i\<rparr>)"
proof
  assume e: "e \<in> set (process_entry i)"
  from process_entry_unreported[OF e] obtain n k where "reported_as i n k" by blast
  with e process_entry_reported[OF this]
  show "\<exists>n k. reported_as i n k \<and> e = \<lparr>pj_node_id = Some n, pj_pid = Some k, pj_node_id_full = Some i\<rparr>" by auto
qed (auto simp: process_entry_reported)

lemma reported_process_id:
  assumes "k \<le> u32_max"
  shows "reported_as (process_id n k) n k \<longleftrightarrow> \<not> contains (n @ '':'') ''::''"
proof
  assume "\<not> contains (n @ '':'') ''::''"
  then show "reported_as (process_id n k) n k"
    unfolding reported_as_def process_id_def
    by (intro conjI exI[of _ "show_nat k"] exI[of _ "[]"]) (simp_all add: parse_show_nat[OF assms])
qed (simp add: reported_as_def)

section \<open>Why a job is stuck\<close>

definition is_job_process :: "state_graph \<Rightarrow> string \<Rightarrow> string \<Rightarrow> bool" where
  "is_job_process g job i \<longleftrightarrow>
     (\<exists>n. hm_get (nodes g) i = Some n \<and> node_type n = ProcessNode \<and> hm_get (metadata n) ''job_id'' = Some job)"

lemma set_job_pids: "hm_wf (nodes g) \<Longrightarrow> i \<in> set (job_pids g job) \<longleftrightarrow> is_job_process g job i"
  by (force simp: job_pids_def is_job_process_def get_nodes_async_def hm_wf_def hm_get_def)

lemma distinct_remdups_adj_sorted: "sorted xs \<Longrightarrow> distinct (remdups_adj xs)"
  for xs :: "'a::linorder list"
  by (induction xs rule: remdups_adj.induct) (auto simp: less_le_not_le)

lemma distinct_entries:
  assumes "distinct is"
  shows "distinct (concat (map process_entry is))"
  using assms
proof (induction "is")
  case (Cons i "is")
  have "distinct (process_entry i)"
    using process_entry_reported[of i] process_entry_unreported[of _ i] by (cases "process_entry i") fastforce+
  with Cons show ?case by (auto simp: set_process_entry)
qed simp

lemma distinct_job_pids: "hm_wf (nodes g) \<Longrightarrow> distinct (job_pids g job)"
  by (auto simp: job_pids_def get_nodes_async_def hm_wf_def distinct_map intro: inj_on_subset)

text \<open>
  \<^bold>\<open>C26.\<close>  The cluster-wide analysis is exact.  On every graph built by an event stream, for a job with
  processes the causes returned are, sorted and without repetition, the descriptions of exactly the
  root causes of its processes, each behind the part of the node id before the first double colon; a
  job without processes gets the one message that says so.  The processes returned are, each once,
  exactly those processes of the job whose node id is a machine name, \<open>::pid-\<close> and a number, with that
  name and number.  A process of a machine whose own name has a double colon or ends in a colon, such
  as \<open>node-fe80::1\<close>, the id the hub makes up for an agent that connects over IPv6 and gives no name, is not
  returned; one of any other machine is.
\<close>

theorem cluster_why_exact:
  "let g = process_events es state_graph_new; (causes, procs) = cluster_why g job in
     (if \<exists>i. is_job_process g job i
      then sorted causes \<and> distinct causes \<and>
        set causes = {cause_info i c |i c. is_job_process g job i \<and> c \<in> root_causes i g}
      else causes = [job_not_found job] \<and> procs = []) \<and>
     distinct procs \<and>
     set procs = {\<lparr>pj_node_id = Some n, pj_pid = Some k, pj_node_id_full = Some i\<rparr> |i n k.
        is_job_process g job i \<and> reported_as i n k} \<and>
     (\<forall>n k. k \<le> u32_max \<longrightarrow> reported_as (process_id n k) n k = (\<not> contains (n @ '':'') ''::''))"
proof -
  define g where "g = process_events es state_graph_new"
  have inv: "graph_inv g" unfolding g_def by (rule graph_inv_process_events[OF graph_inv_new])
  then have wf: "hm_wf (nodes g)" by (simp add: graph_inv_def nodes_ok_def)
  define causes where "causes = fst (cluster_why g job)"
  define procs where "procs = snd (cluster_why g job)"
  have pids: "set (job_pids g job) = {i. is_job_process g job i}" using set_job_pids[OF wf] by blast
  then have empty: "job_pids g job = [] \<longleftrightarrow> \<not> (\<exists>i. is_job_process g job i)" by (metis empty_Collect_eq set_empty2)
  have c: "sorted causes \<and> distinct causes \<and>
        set causes = {cause_info i c |i c. is_job_process g job i \<and> c \<in> root_causes i g}"
    if "\<exists>i. is_job_process g job i"
    using that empty pids
    by (auto simp: causes_def cluster_why_def Let_def distinct_remdups_adj_sorted sorted_remdups_adj
        find_root_cause_reachable[OF inv])
  have procs: "procs = concat (map process_entry (job_pids g job))" by (simp add: procs_def cluster_why_def Let_def)
  have n: "causes = [job_not_found job] \<and> procs = []" if "\<not> (\<exists>i. is_job_process g job i)"
    using that empty by (simp add: causes_def procs cluster_why_def)
  have d: "distinct procs" unfolding procs by (rule distinct_entries[OF distinct_job_pids[OF wf]])
  have p: "set procs = {\<lparr>pj_node_id = Some n, pj_pid = Some k, pj_node_id_full = Some i\<rparr> |i n k.
        is_job_process g job i \<and> reported_as i n k}"
    unfolding procs using pids by (auto simp: set_process_entry)
  show ?thesis
    unfolding g_def[symmetric] Let_def case_prod_unfold causes_def[symmetric] procs_def[symmetric]
    by (intro conjI d p allI impI reported_process_id)
      (cases "\<exists>i. is_job_process g job i", simp_all only: c n if_True if_False simp_thms)
qed

theorem cluster_why_exact_witness:
  "is_job_process (process_events [beat ''node-a''] state_graph_new) ''job-1'' (process_id ''node-a'' 7) \<and>
   \<lparr>pj_node_id = Some ''node-a'', pj_pid = Some 7, pj_node_id_full = Some (process_id ''node-a'' 7)\<rparr>
     \<in> set (snd (cluster_why (process_events [beat ''node-a''] state_graph_new) ''job-1'')) \<and>
   sorted (fst (cluster_why (process_events [beat ''node-a''] state_graph_new) ''job-1''))"
proof -
  let ?g = "process_events [beat ''node-a''] state_graph_new"
  let ?p = "\<lparr>pj_node_id = Some ''node-a'', pj_pid = Some 7, pj_node_id_full = Some (process_id ''node-a'' 7)\<rparr>"
  have "list_ex (\<lambda>p. p = ?p) (snd (cluster_why ?g ''job-1''))" by code_simp
  then have m: "?p \<in> set (snd (cluster_why ?g ''job-1''))" by (simp only: list_ex_iff) blast
  note exact = cluster_why_exact[of "[beat ''node-a'']" "''job-1''", unfolded Let_def case_prod_unfold]
  from m have i: "is_job_process ?g ''job-1'' (process_id ''node-a'' 7)"
    unfolding conjunct1[OF conjunct2[OF conjunct2[OF exact]]] by auto
  then have "\<exists>i. is_job_process ?g ''job-1'' i" by blast
  then show ?thesis using conjunct1[OF exact] i m by simp
qed

section \<open>Fit for work\<close>

text \<open>A link failure reported only in capital letters, which the controller knows and the health check does not.\<close>

definition link_down_only :: "event \<Rightarrow> bool" where
  "link_down_only e \<longleftrightarrow> ev_type e = ErrorNet \<and> contains (ev_value e) ''LINK_DOWN'' \<and>
     \<not> (contains (ev_value e) ''link_down'' \<or> contains (ev_value e) ''pfc_storm'' \<or> contains (ev_value e) ''phy_degradation'')"

lemma fault_critical: "detect_irreversible_fault e = Some f \<Longrightarrow> critical_fault e \<or> link_down_only e"
  by (auto simp: detect_irreversible_fault_def critical_fault_def link_down_only_def split: event_type.splits if_splits)

lemma link_down_only_faulty: "link_down_only e \<Longrightarrow> detect_irreversible_fault e \<noteq> None \<and> \<not> critical_fault e"
  by (auto simp: detect_irreversible_fault_def critical_fault_def link_down_only_def)

text \<open>
  The health check agrees with the controller except for one spelling.  A machine with an event in
  the window that makes the controller isolate it is reported unfit, unless every such event is a link
  failure spelled in capitals: if its events in the window are all of that kind, the controller
  isolates the machine for each of them and the check reports it healthy.
\<close>

theorem preflight_vs_controller:
  assumes "hm_get ps ''node_id'' = Some nid"
  shows "let window = nat_param u64_max ps ''window_s'' 120 30 3600;
             evs = recent now window (\<lambda>e. ev_node_id e = Some nid) (hub_buffer h) in
    (list_ex (\<lambda>e. detect_irreversible_fault e \<noteq> None \<and> \<not> link_down_only e) evs \<longrightarrow>
       preflight now ps h = Inr (window, False, length evs)) \<and>
    (list_all link_down_only evs \<longrightarrow>
       list_all (\<lambda>e. detect_irreversible_fault e \<noteq> None) evs \<and> preflight now ps h = Inr (window, True, length evs))"
  using assms fault_critical link_down_only_faulty
  by (fastforce simp: preflight_def Let_def list_ex_iff list_all_iff)

definition capital_link :: event where
  "capital_link = \<lparr>ev_ts = 1000, ev_type = ErrorNet, ev_entity_id = ''mlx5_0'', ev_job_id = None, ev_pid = None,
     ev_value = ''LINK_DOWN'', ev_node_id = Some ''node-a''\<rparr>"

definition buffered :: "event list \<Rightarrow> small_cluster hub" where
  "buffered es = small_hub\<lparr>core := (core_new 0)\<lparr>core_memory := memory_new\<lparr>mem_buffer := es\<rparr>\<rparr>\<rparr>"

theorem preflight_vs_controller_witness:
  "preflight 2000 [(''node_id'', ''node-a'')] (buffered [capital_link\<lparr>ev_type := ErrorHw\<rparr>]) = Inr (120, False, 1) \<and>
   detect_irreversible_fault capital_link \<noteq> None \<and>
   preflight 2000 [(''node_id'', ''node-a'')] (buffered [capital_link]) = Inr (120, True, 1)"
proof -
  have ps: "hm_get [(''node_id'', ''node-a'')] ''node_id'' = Some ''node-a''"
    "nat_param u64_max [(''node_id'', ''node-a'')] ''window_s'' 120 30 3600 = 120"
    by (simp_all add: hm_get_def nat_param_def clamp_nat_def)
  have r: "recent 2000 120 (\<lambda>e. ev_node_id e = Some ''node-a'') [e] = [e]" if "e \<in> {capital_link, capital_link\<lparr>ev_type := ErrorHw\<rparr>}" for e
    using that by (auto simp: recent_def capital_link_def saturating_sub_def)
  have l: "link_down_only capital_link" "\<not> link_down_only (capital_link\<lparr>ev_type := ErrorHw\<rparr>)"
    "detect_irreversible_fault (capital_link\<lparr>ev_type := ErrorHw\<rparr>) \<noteq> None"
    by code_simp+
  have "hub_buffer (buffered es) = es" for es by (simp add: buffered_def)
  then show ?thesis
    using preflight_vs_controller[OF ps(1), of 2000 "buffered [capital_link\<lparr>ev_type := ErrorHw\<rparr>]"]
      preflight_vs_controller[OF ps(1), of 2000 "buffered [capital_link]"] l
    by (simp add: ps(2) r Let_def)
qed

section \<open>Incidents\<close>

lemma group_events_snoc:
  "group_events (es @ [e]) =
     hm_insert (job_key e) (or_default (hm_get (group_events es) (job_key e)) [] @ [e]) (group_events es)"
  by (simp add: group_events_def)

lemma group_events_wf: "hm_wf (group_events es)"
  by (induction es rule: rev_induct) (simp_all add: group_events_snoc invs, simp add: group_events_def)

lemma group_events_get:
  "hm_get (group_events es) k = (if filter (\<lambda>e. job_key e = k) es = [] then None else Some (filter (\<lambda>e. job_key e = k) es))"
  by (induction es rule: rev_induct) (auto simp: group_events_snoc hm_simps or_default_def, simp add: group_events_def)

text \<open>
  The incidents there are, as a multiset: for each job that has events, one for each rule that its
  events match.
\<close>

definition all_incidents :: "state_graph \<Rightarrow> rule_engine \<Rightarrow> event list \<Rightarrow> incident multiset" where
  "all_incidents g eng events = (\<Sum>k \<in> job_key ` set events.
     let evs = filter (\<lambda>e. job_key e = k) events in mset (map (incident_of k evs) (match_rules eng g evs)))"

text \<open>The order of urgency: priority first, then the number of events, more of each before less.\<close>

definition ranks_before :: "incident \<Rightarrow> incident \<Rightarrow> bool" where
  "ranks_before x y \<longleftrightarrow> in_priority y < in_priority x \<or>
     (in_priority x = in_priority y \<and> in_event_count y \<le> in_event_count x)"

lemma incident_key_ranks: "incident_key x \<le> incident_key y \<longleftrightarrow> ranks_before x y"
  by (auto simp: incident_key_def ranks_before_def)

lemma hm_mem_get: "hm_wf m \<Longrightarrow> (k, v) \<in> set m \<longleftrightarrow> hm_get m k = Some v"
  by (simp add: hm_wf_def hm_get_def)

lemma sum_list_hm:
  assumes "hm_wf m"
  shows "sum_list (map f m) = (\<Sum>k \<in> fst ` set m. f (k, the (hm_get m k)))"
proof -
  have d: "distinct (map fst m)" using assms by (simp add: hm_wf_def)
  have "sum_list (map f m) = (\<Sum>kv \<in> set m. f kv)"
    using d by (simp add: sum_list_distinct_conv_sum_set distinct_map)
  also have "\<dots> = (\<Sum>kv \<in> set m. f (fst kv, the (hm_get m (fst kv))))"
    using hm_mem_get[OF assms] by (intro sum.cong) force+
  also have "\<dots> = (\<Sum>k \<in> fst ` set m. f (k, the (hm_get m k)))"
    using d by (simp add: sum.reindex distinct_map)
  finally show ?thesis .
qed

lemma group_events_keys: "fst ` set (group_events events) = job_key ` set events"
proof -
  have "k \<in> fst ` set (group_events events) \<longleftrightarrow> hm_get (group_events events) k \<noteq> None" for k
    by (simp add: hm_get_def map_of_eq_None_iff)
  moreover have "hm_get (group_events events) k \<noteq> None \<longleftrightarrow> k \<in> job_key ` set events" for k
    by (auto simp: group_events_get filter_empty_conv)
  ultimately show ?thesis by blast
qed

lemma mset_concat_map: "mset (concat (map f xs)) = sum_list (map (\<lambda>x. mset (f x)) xs)"
  by (induction xs) simp_all

lemma mset_job_incidents:
  "mset (concat (map (job_incidents eng g) (group_events events))) = all_incidents g eng events"
proof -
  have "the (hm_get (group_events events) k) = filter (\<lambda>e. job_key e = k) events" if "k \<in> job_key ` set events" for k
    using that by (auto simp: group_events_get filter_empty_conv)
  then show ?thesis
    unfolding mset_concat_map sum_list_hm[OF group_events_wf] group_events_keys all_incidents_def
    by (intro sum.cong) (simp_all add: job_incidents_def Let_def)
qed

text \<open>
  \<^bold>\<open>C27.\<close>  The list of incidents is exact, ranked and cut only at the limit.  Together with the incidents
  that are left out, it holds every incident there is as often as there is one; it is in falling order of
  priority and, at the same priority, in falling order of the number of events; every listed incident
  ranks before, or level with, every one left out; and something is left out only when the list has
  \<open>limit\<close> entries.
\<close>

theorem incidents_ranked:
  "let xs = aggregate_incidents g eng events limit in
     sorted_wrt (\<lambda>x y. in_priority y < in_priority x \<or>
       (in_priority x = in_priority y \<and> in_event_count y \<le> in_event_count x)) xs \<and>
     length xs = min limit (size (all_incidents g eng events)) \<and>
     (\<exists>rest. mset xs + mset rest = all_incidents g eng events \<and>
        list_all (\<lambda>x. list_all (\<lambda>y. in_priority y < in_priority x \<or>
          (in_priority x = in_priority y \<and> in_event_count y \<le> in_event_count x)) rest) xs)"
proof -
  define all where "all = concat (map (job_incidents eng g) (group_events events))"
  define ys where "ys = sort_key incident_key all"
  have xs: "aggregate_incidents g eng events limit = take limit ys"
    by (simp add: aggregate_incidents_def ys_def all_def)
  have "sorted (map incident_key ys)" by (simp add: ys_def)
  then have "sorted_wrt ranks_before (take limit ys @ drop limit ys)"
    by (simp add: sorted_wrt_map incident_key_ranks)
  then have r: "sorted_wrt ranks_before (take limit ys)"
      "list_all (\<lambda>x. list_all (ranks_before x) (drop limit ys)) (take limit ys)"
    unfolding sorted_wrt_append list_all_iff by blast+
  have m: "mset ys = all_incidents g eng events" unfolding ys_def all_def by (simp add: mset_job_incidents)
  then have s: "length (take limit ys) = min limit (size (all_incidents g eng events))"
    by (simp add: min.commute flip: m)
  have "mset (take limit ys) + mset (drop limit ys) = all_incidents g eng events"
    unfolding m[symmetric] by (metis append_take_drop_id mset_append)
  with r s show ?thesis unfolding xs Let_def ranks_before_def by blast
qed

section \<open>Slow training\<close>

text \<open>Without a bandwidth sample the average counts as zero, which is below the limit.\<close>

lemma no_bandwidth_comm_bound:
  "values_of TransportBw events = [] \<Longrightarrow> fst (classify_training_slow events) = ''comm_bound''"
  by (simp add: classify_training_slow_def f64_avg_def Let_def)

lemma unknown_job_comm_bound:
  assumes "hm_get ps ''job_id'' = Some job" "list_all (\<lambda>e. ev_job_id e \<noteq> Some job) (hub_buffer h)"
  shows "\<exists>window score. training_slow now ps h = Inr (window, 0, ''comm_bound'', score)"
proof -
  have "recent now w (\<lambda>e. ev_job_id e = Some job) (hub_buffer h) = []" for w
    using assms(2) by (auto simp: recent_def list_all_iff filter_empty_conv)
  moreover have "fst (classify_training_slow []) = ''comm_bound''"
    by (rule no_bandwidth_comm_bound) (simp add: values_of_def map_filter_def)
  ultimately show ?thesis using assms(1) by (cases "classify_training_slow []") (simp add: training_slow_def Let_def)
qed

end
