(* ===== verification/Forwarder.thy ===== *)
theory Forwarder
  imports Exec Graph
begin

text \<open>
  \<^bold>\<open>agent/src/hub_forwarder.rs\<close> and the event loop of \<^bold>\<open>agent/src/main.rs\<close>: which events the agent sends to
  the hub, the queue of events that could not be sent, and the commands that come back.  The WebSocket
  library is a parameter: \<open>ws_connect\<close> and \<open>ws_send\<close> over an abstract network, \<open>True\<close> for success; the JSON
  text of an envelope is a parameter too.
\<close>

section \<open>The wire\<close>

definition HUB_PROTOCOL_VERSION :: string where
  "HUB_PROTOCOL_VERSION = ''1.0''"

definition EVENT_SCHEMA_VERSION :: string where
  "EVENT_SCHEMA_VERSION = ''1.0''"

definition PENDING_EVENT_CAPACITY :: nat where
  "PENDING_EVENT_CAPACITY = 1024"

record agent_envelope =
  out_kind :: string
  out_protocol_version :: string
  out_schema_version :: string
  out_agent_id :: string
  out_feature_flags :: "string list"
  out_event :: event

record 'n net =
  ws_connect :: "string \<Rightarrow> 'n \<Rightarrow> bool \<times> 'n"
  ws_send :: "string \<Rightarrow> 'n \<Rightarrow> bool \<times> 'n"
  envelope_json :: "agent_envelope \<Rightarrow> string"

section \<open>State\<close>

text \<open>\<open>ws_sender\<close> and \<open>command_listener\<close> say whether the sender and the listener task are there.\<close>

record forwarder =
  hub_url :: string
  fw_node_id :: string
  ws_sender :: bool
  command_listener :: bool
  forwarded_bindings :: "(nat \<times> string) set"
  last_util_values :: "(nat \<times> string, f64) hashmap"
  pending_events :: "event list"
  retries_total :: nat
  dropped_events_total :: nat
  flush_failures_total :: nat

definition forwarder_new :: "string \<Rightarrow> string \<Rightarrow> forwarder" where
  "forwarder_new url nid =
     \<lparr>hub_url = url, fw_node_id = nid, ws_sender = False, command_listener = False,
      forwarded_bindings = {}, last_util_values = [], pending_events = [],
      retries_total = 0, dropped_events_total = 0, flush_failures_total = 0\<rparr>"

record forwarder_reliability_snapshot =
  snap_pending :: nat
  snap_retries :: nat
  snap_dropped :: nat
  snap_flush_failures :: nat

definition reliability_snapshot :: "forwarder \<Rightarrow> forwarder_reliability_snapshot" where
  "reliability_snapshot fw =
     \<lparr>snap_pending = length (pending_events fw), snap_retries = retries_total fw,
      snap_dropped = dropped_events_total fw, snap_flush_failures = flush_failures_total fw\<rparr>"

text \<open>\<open>hostname\<close> is the output of that command when it ran and is valid text, \<open>env_hostname\<close> the variable HOSTNAME.\<close>

definition get_node_id :: "string option \<Rightarrow> string option \<Rightarrow> string" where
  "get_node_id hostname env_hostname =
     (case hostname of
        Some h \<Rightarrow> trim h
      | None \<Rightarrow> (case env_hostname of Some v \<Rightarrow> v | None \<Rightarrow> ''unknown-node''))"

section \<open>Edge roll-up\<close>

definition should_forward :: "event \<Rightarrow> forwarder \<Rightarrow> bool \<times> forwarder" where
  "should_forward e fw =
     (let on_binding = (\<lambda>fresh known.
            case ev_pid e of
              Some pid \<Rightarrow>
                (let key = (pid, ev_entity_id e) in
                 if key \<notin> forwarded_bindings fw
                 then (True, fresh key (fw\<lparr>forwarded_bindings := insert key (forwarded_bindings fw)\<rparr>))
                 else known key)
            | None \<Rightarrow> (False, fw)) in
      case ev_type e of
        ErrorHw \<Rightarrow> (True, fw)
      | ErrorNet \<Rightarrow> (True, fw)
      | ProcessState \<Rightarrow> (True, fw)
      | TransportDrop \<Rightarrow> (True, fw)
      | TopoLinkDown \<Rightarrow> (True, fw)
      | IntentRun \<Rightarrow> (False, fw)
      | ActionExec \<Rightarrow> (False, fw)
      | StorageIops \<Rightarrow> on_binding (\<lambda>_ f. f) (\<lambda>_. (False, fw))
      | StorageQDepth \<Rightarrow> on_binding (\<lambda>_ f. f) (\<lambda>_. (False, fw))
      | TransportBw \<Rightarrow> on_binding (\<lambda>_ f. f) (\<lambda>_. (False, fw))
      | _ \<Rightarrow>
          on_binding
            (\<lambda>key f. case parse_f64 (ev_value e) of
                Some util \<Rightarrow> f\<lparr>last_util_values := hm_insert key util (last_util_values f)\<rparr>
              | None \<Rightarrow> f)
            (\<lambda>key. case parse_f64 (ev_value e) of
                Some current_util \<Rightarrow>
                  (case hm_get (last_util_values fw) key of
                     Some last_util \<Rightarrow>
                       if f64_lt (Fin False 80) last_util \<and> f64_lt current_util (Fin False 1) \<or>
                          f64_lt last_util (Fin False 1) \<and> f64_lt (Fin False 80) current_util
                       then (True, fw\<lparr>last_util_values := hm_insert key current_util (last_util_values fw)\<rparr>)
                       else (False, fw)
                   | None \<Rightarrow> (False, fw))
              | None \<Rightarrow> (False, fw)))"

section \<open>Sending\<close>

text \<open>\<open>connect\<close> starts the listener task; the loop of that task is \<open>handle_command\<close> below, message by message.\<close>

definition connect :: "'n net \<Rightarrow> forwarder \<Rightarrow> 'n \<Rightarrow> bool \<times> forwarder \<times> 'n" where
  "connect net fw n =
     (case ws_connect net (hub_url fw) n of
        (True, n1) \<Rightarrow> (True, fw\<lparr>ws_sender := True, command_listener := True\<rparr>, n1)
      | (False, n1) \<Rightarrow> (False, fw, n1))"

definition reconnect :: "'n net \<Rightarrow> forwarder \<Rightarrow> 'n \<Rightarrow> bool \<times> forwarder \<times> 'n" where
  "reconnect net fw n = connect net (fw\<lparr>command_listener := False, ws_sender := False\<rparr>) n"

definition agent_envelope_of :: "string \<Rightarrow> event \<Rightarrow> agent_envelope" where
  "agent_envelope_of nid e =
     \<lparr>out_kind = ''event'', out_protocol_version = HUB_PROTOCOL_VERSION,
      out_schema_version = EVENT_SCHEMA_VERSION, out_agent_id = nid,
      out_feature_flags = [''edge_rollup''], out_event = e\<lparr>ev_node_id := Some nid\<rparr>\<rparr>"

definition forward_event :: "'n net \<Rightarrow> forwarder \<Rightarrow> event \<Rightarrow> 'n \<Rightarrow> bool \<times> 'n" where
  "forward_event net fw e n =
     (let json = envelope_json net (agent_envelope_of (fw_node_id fw) e) in
      if ws_sender fw then ws_send net json n else (False, n))"

fun flush_loop :: "'n net \<Rightarrow> forwarder \<Rightarrow> event list \<Rightarrow> 'n \<Rightarrow> bool \<times> event list \<times> 'n" where
  "flush_loop net fw [] n = (True, [], n)"
| "flush_loop net fw (e # es) n =
     (case forward_event net fw e n of
        (True, n1) \<Rightarrow> flush_loop net fw es n1
      | (False, n1) \<Rightarrow> (False, e # es, n1))"

definition flush_pending_events :: "'n net \<Rightarrow> forwarder \<Rightarrow> 'n \<Rightarrow> bool \<times> forwarder \<times> 'n" where
  "flush_pending_events net fw n =
     (let (ok, rest, n1) = flush_loop net fw (pending_events fw) n in
      (ok, fw\<lparr>pending_events := rest\<rparr>, n1))"

definition enqueue_pending_event :: "event \<Rightarrow> forwarder \<Rightarrow> forwarder" where
  "enqueue_pending_event e fw =
     (let fw1 = (if PENDING_EVENT_CAPACITY \<le> length (pending_events fw)
                 then fw\<lparr>pending_events := tl (pending_events fw),
                         dropped_events_total := saturating_add (dropped_events_total fw) 1\<rparr>
                 else fw) in
      fw1\<lparr>pending_events := pending_events fw1 @ [e]\<rparr>)"

definition count_retry :: "forwarder \<Rightarrow> forwarder" where
  "count_retry fw = fw\<lparr>retries_total := saturating_add (retries_total fw) 1\<rparr>"

definition count_flush_failure :: "forwarder \<Rightarrow> forwarder" where
  "count_flush_failure fw = fw\<lparr>flush_failures_total := saturating_add (flush_failures_total fw) 1\<rparr>"

text \<open>The first statement of \<open>forward_event_with_retry\<close>: what is pending goes first.\<close>

definition flush_before :: "'n net \<Rightarrow> forwarder \<Rightarrow> 'n \<Rightarrow> forwarder \<times> 'n" where
  "flush_before net fw n =
     (if pending_events fw = [] then (fw, n)
      else (case flush_pending_events net fw n of
              (True, fw1, n1) \<Rightarrow> (fw1, n1)
            | (False, fw1, n1) \<Rightarrow>
                (case reconnect net (count_retry (count_flush_failure fw1)) n1 of
                   (True, fw2, n2) \<Rightarrow>
                     (case flush_pending_events net fw2 n2 of
                        (True, fw3, n3) \<Rightarrow> (fw3, n3)
                      | (False, fw3, n3) \<Rightarrow> (count_flush_failure fw3, n3))
                 | (False, fw2, n2) \<Rightarrow> (fw2, n2))))"

definition forward_event_with_retry ::
  "'n net \<Rightarrow> event \<Rightarrow> forwarder \<Rightarrow> 'n \<Rightarrow> bool \<times> forwarder \<times> 'n" where
  "forward_event_with_retry net e fw0 n0 =
     (let (fw, n) = flush_before net fw0 n0 in
      case forward_event net fw e n of
        (True, n1) \<Rightarrow> (True, fw, n1)
      | (False, n1) \<Rightarrow>
          (case reconnect net (count_retry (enqueue_pending_event e fw)) n1 of
             (False, fw2, n2) \<Rightarrow> (False, fw2, n2)
           | (True, fw2, n2) \<Rightarrow>
               (case flush_pending_events net fw2 n2 of
                  (True, fw3, n3) \<Rightarrow> (True, fw3, n3)
                | (False, fw3, n3) \<Rightarrow> (False, count_flush_failure fw3, n3))))"

section \<open>Commands from the hub\<close>

record agent_command =
  cmd_intent :: string
  cmd_target_pid :: nat
  cmd_action :: "string option"

datatype command_error = UnknownAction string | ExecutionFailed exec_err

definition action_from_string :: "string \<Rightarrow> command_error + action_type" where
  "action_from_string action =
     (let s = to_lowercase action in
      if s = ''gracefulshutdown'' \<or> s = ''graceful_shutdown'' then Inr (GracefulShutdown 10 10 True)
      else if s = ''killprocess'' \<or> s = ''kill_process'' \<or> s = ''kill'' then Inr KillProcess
      else if s = ''signal'' \<or> s = ''sigusr1'' then Inr (Signal 10)
      else (case from_recommendation action of
              Some a \<Rightarrow> Inr a
            | None \<Rightarrow> Inl (UnknownAction action)))"

definition handle_command :: "'o os \<Rightarrow> agent_command \<Rightarrow> 'o \<Rightarrow> (command_error + unit) \<times> 'o" where
  "handle_command sys cmd w =
     (if cmd_intent cmd = ''fix''
      then (case (case cmd_action cmd of
                    Some s \<Rightarrow> action_from_string s
                  | None \<Rightarrow> Inr (GracefulShutdown 10 10 True)) of
              Inl e \<Rightarrow> (Inl e, w)
            | Inr action \<Rightarrow>
                (case execute sys action (cmd_target_pid cmd) w of
                   (Inr _, w1) \<Rightarrow> (Inr (), w1)
                 | (Inl e, w1) \<Rightarrow> (Inl (ExecutionFailed e), w1)))
      else (Inr (), w))"

section \<open>The event loop of the agent\<close>

text \<open>\<open>run_daemon\<close> keeps the forwarder only when its first connection succeeds.\<close>

definition start_forwarder :: "'n net \<Rightarrow> string option \<Rightarrow> string \<Rightarrow> 'n \<Rightarrow> forwarder option \<times> 'n" where
  "start_forwarder net url nid n =
     (case url of
        None \<Rightarrow> (None, n)
      | Some u \<Rightarrow>
          (case connect net (forwarder_new u nid) n of
             (True, fw, n1) \<Rightarrow> (Some fw, n1)
           | (False, _, n1) \<Rightarrow> (None, n1)))"

record 'n agent =
  agent_graph :: state_graph
  agent_forwarder :: "forwarder option"
  agent_net :: 'n

definition agent_event :: "'n net \<Rightarrow> event \<Rightarrow> 'n agent \<Rightarrow> 'n agent" where
  "agent_event net e a =
     (let (_, g) = process_event e (agent_graph a); a1 = a\<lparr>agent_graph := g\<rparr> in
      case agent_forwarder a1 of
        None \<Rightarrow> a1
      | Some fw \<Rightarrow>
          (let (forward, fw1) = should_forward e fw in
           if forward
           then (let (_, fw2, n) = forward_event_with_retry net e fw1 (agent_net a1) in
                 a1\<lparr>agent_forwarder := Some fw2, agent_net := n\<rparr>)
           else a1\<lparr>agent_forwarder := Some fw1\<rparr>))"

definition agent_events :: "'n net \<Rightarrow> event list \<Rightarrow> 'n agent \<Rightarrow> 'n agent" where
  "agent_events net es a = fold (agent_event net) es a"

end
