(* ===== verification/Forwarder_Props.thy ===== *)
theory Forwarder_Props
  imports Forwarder Exec_Props "HOL-Library.Sublist"
begin

text \<open>
  What the forwarder promises: no event is lost without being counted and, on a connection that stays
  broken once a send failed, none overtakes another; which events the edge roll-up lets through; and what
  a command of the hub can make the agent do.
\<close>

section \<open>The queue\<close>

text \<open>The same network with a log of the messages that were sent.\<close>

definition logged :: "'n net \<Rightarrow> ('n \<times> string list) net" where
  "logged net =
     \<lparr>ws_connect = \<lambda>u (n, l). (let (ok, n1) = ws_connect net u n in (ok, n1, l)),
      ws_send = \<lambda>m (n, l). (let (ok, n1) = ws_send net m n in (ok, n1, if ok then l @ [m] else l)),
      envelope_json = envelope_json net\<rparr>"

definition wire :: "'n net \<Rightarrow> string \<Rightarrow> event \<Rightarrow> string" where
  "wire net nid e = envelope_json net (agent_envelope_of nid e)"

text \<open>
  A failed send leaves the connection \<open>broken\<close>, and nothing can be sent on a broken one: how the WebSocket
  library treats a connection after an error.
\<close>

definition sticky :: "'n net \<Rightarrow> ('n \<Rightarrow> bool) \<Rightarrow> bool" where
  "sticky net broken \<longleftrightarrow>
     (\<forall>m n. let (ok, n1) = ws_send net m n in (broken n \<longrightarrow> \<not> ok) \<and> (\<not> ok \<longrightarrow> broken n1))"

definition blocked :: "('n \<Rightarrow> bool) \<Rightarrow> forwarder \<Rightarrow> 'n \<Rightarrow> bool" where
  "blocked broken fw n \<longleftrightarrow> (ws_sender fw \<longrightarrow> broken n)"

lemma forward_logged:
  assumes "forward_event (logged net) fw e (n, l) = (ok, n1, l1)"
  shows "l1 = (if ok then l @ [wire net (fw_node_id fw) e] else l)"
    and "sticky net broken \<Longrightarrow> \<not> ok \<Longrightarrow> blocked broken fw n1"
    and "sticky net broken \<Longrightarrow> blocked broken fw n \<Longrightarrow> \<not> ok"
proof -
  obtain k n2 where s: "ws_send net (wire net (fw_node_id fw) e) n = (k, n2)" by (rule prod.exhaust)
  have f: "(ok, n1, l1) = (if ws_sender fw then (k, n2, if k then l @ [wire net (fw_node_id fw) e] else l) else (False, n, l))"
    using assms s by (simp add: forward_event_def logged_def wire_def Let_def split: if_splits)
  then show "l1 = (if ok then l @ [wire net (fw_node_id fw) e] else l)" by (simp split: if_splits)
  show "blocked broken fw n1" if st: "sticky net broken" and "\<not> ok"
    using f that(2) st[unfolded sticky_def, rule_format, of "wire net (fw_node_id fw) e" n]
    by (auto simp: blocked_def s split: if_splits)
  show "\<not> ok" if st: "sticky net broken" and "blocked broken fw n"
    using f that(2) st[unfolded sticky_def, rule_format, of "wire net (fw_node_id fw) e" n]
    by (auto simp: blocked_def s split: if_splits)
qed

text \<open>Everything sent and then everything pending, as messages; a \<open>move\<close> keeps it.\<close>

definition content :: "'n net \<Rightarrow> forwarder \<Rightarrow> string list \<Rightarrow> string list" where
  "content net fw l = l @ map (wire net (fw_node_id fw)) (pending_events fw)"

definition move :: "'n net \<Rightarrow> forwarder \<Rightarrow> string list \<Rightarrow> forwarder \<Rightarrow> string list \<Rightarrow> bool" where
  "move net fw l fw1 l1 \<longleftrightarrow>
     content net fw1 l1 = content net fw l \<and> fw_node_id fw1 = fw_node_id fw \<and>
     dropped_events_total fw1 = dropped_events_total fw \<and>
     length (pending_events fw1) \<le> length (pending_events fw)"

lemma move_refl: "move net fw l fw l"
  by (simp add: move_def)

lemma move_trans: "move net fw l fw1 l1 \<Longrightarrow> move net fw1 l1 fw2 l2 \<Longrightarrow> move net fw l fw2 l2"
  by (simp add: move_def)

lemma move_count: "move net fw l (count_retry fw1) l1 = move net fw l fw1 l1"
  "move net fw l (count_flush_failure fw1) l1 = move net fw l fw1 l1"
  by (simp_all add: move_def content_def count_retry_def count_flush_failure_def)

lemma blocked_count: "blocked broken (count_flush_failure fw) n = blocked broken fw n"
  "pending_events (count_flush_failure fw) = pending_events fw"
  by (simp_all add: blocked_def count_flush_failure_def)

lemma flush_loop_logged:
  "flush_loop (logged net) fw es (n, l) = (ok, rest, n1, l1) \<Longrightarrow>
     (\<exists>sent. es = sent @ rest \<and> l1 = l @ map (wire net (fw_node_id fw)) sent) \<and>
     (sticky net broken \<longrightarrow> \<not> ok \<longrightarrow> blocked broken fw n1) \<and> (ok \<longrightarrow> rest = [])"
proof (induction es arbitrary: n l)
  case (Cons e es)
  obtain k n2 l2 where f: "forward_event (logged net) fw e (n, l) = (k, n2, l2)" by (metis prod.exhaust)
  note fl = forward_logged[OF f]
  show ?case
  proof (cases k)
    case True
    with Cons.prems f have "flush_loop (logged net) fw es (n2, l2) = (ok, rest, n1, l1)" by simp
    from Cons.IH[OF this] obtain sent where
      "es = sent @ rest" "l1 = l2 @ map (wire net (fw_node_id fw)) sent"
      "sticky net broken \<longrightarrow> \<not> ok \<longrightarrow> blocked broken fw n1" "ok \<longrightarrow> rest = []" by blast
    with fl(1) True show ?thesis by (auto intro!: exI[of _ "e # sent"])
  next
    case False
    with Cons.prems f fl show ?thesis by auto
  qed
qed auto

lemma flush_logged:
  assumes "flush_pending_events (logged net) fw (n, l) = (ok, fw1, n1, l1)"
  shows "move net fw l fw1 l1"
    and "ok \<Longrightarrow> pending_events fw1 = []"
    and "sticky net broken \<Longrightarrow> \<not> ok \<Longrightarrow> blocked broken fw1 n1"
proof -
  obtain rest where r: "flush_loop (logged net) fw (pending_events fw) (n, l) = (ok, rest, n1, l1)"
      "fw1 = fw\<lparr>pending_events := rest\<rparr>"
    using assms by (auto simp: flush_pending_events_def split: prod.splits)
  note fl = flush_loop_logged[OF r(1), of broken]
  from fl show "move net fw l fw1 l1" by (auto simp: move_def content_def r(2))
  show "pending_events fw1 = []" if ok using fl that by (simp add: r(2))
  show "blocked broken fw1 n1" if "sticky net broken" "\<not> ok" using fl that by (simp add: r(2) blocked_def)
qed

lemma reconnect_logged:
  assumes "reconnect (logged net) fw (n, l) = (ok, fw1, n1, l1)"
  shows "move net fw l fw1 l1" and "\<not> ok \<Longrightarrow> blocked broken fw1 n1"
  using assms by (auto simp: reconnect_def connect_def logged_def move_def content_def blocked_def Let_def
      split: prod.splits bool.splits)

lemma flush_before_logged:
  assumes "flush_before (logged net) fw (n, l) = (fw1, n1, l1)"
  shows "move net fw l fw1 l1 \<and> (sticky net broken \<longrightarrow> pending_events fw1 \<noteq> [] \<longrightarrow> blocked broken fw1 n1)"
proof (cases "pending_events fw = []")
  case True
  with assms show ?thesis by (simp add: flush_before_def move_refl)
next
  case False
  obtain ok2 fw2 n2 l2 where a: "flush_pending_events (logged net) fw (n, l) = (ok2, fw2, n2, l2)"
    by (metis prod.exhaust)
  note fa = flush_logged[OF a]
  show ?thesis
  proof (cases ok2)
    case True
    with assms False a fa show ?thesis by (simp add: flush_before_def)
  next
    case nok: False
    obtain ok3 fw3 n3 l3 where b: "reconnect (logged net) (count_retry (count_flush_failure fw2)) (n2, l2) = (ok3, fw3, n3, l3)"
      by (metis prod.exhaust)
    obtain ok4 fw4 n4 l4 where c: "flush_pending_events (logged net) fw3 (n3, l3) = (ok4, fw4, n4, l4)"
      by (metis prod.exhaust)
    note fb = reconnect_logged[OF b] note fc = flush_logged[OF c]
    have m3: "move net fw l fw3 l3"
      by (rule move_trans[OF _ fb(1)]) (simp add: move_count fa(1))
    have m4: "move net fw l fw4 l4" by (rule move_trans[OF m3 fc(1)])
    show ?thesis
      using assms False a nok b c m3 m4 fb(2)[of broken] fc(2) fc(3)[of broken]
      by (cases ok3; cases ok4) (auto simp: flush_before_def move_count blocked_count)
  qed
qed

definition queue_ok :: "'n net \<Rightarrow> ('n \<Rightarrow> bool) \<Rightarrow> string list \<Rightarrow> forwarder \<Rightarrow> string list \<Rightarrow> bool" where
  "queue_ok net broken offered fw l \<longleftrightarrow>
     length l + length (pending_events fw) + dropped_events_total fw = length offered \<and>
     length (pending_events fw) \<le> PENDING_EVENT_CAPACITY \<and>
     (sticky net broken \<longrightarrow> subseq (content net fw l) offered)"

lemma queue_ok_move: "queue_ok net broken offered fw l \<Longrightarrow> move net fw l fw1 l1 \<Longrightarrow> queue_ok net broken offered fw1 l1"
proof -
  assume m: "move net fw l fw1 l1"
  then have "length (content net fw1 l1) = length (content net fw l)" by (simp add: move_def)
  then have "length l1 + length (pending_events fw1) = length l + length (pending_events fw)"
    by (simp add: content_def)
  moreover assume "queue_ok net broken offered fw l"
  ultimately show ?thesis using m by (auto simp: queue_ok_def move_def)
qed

lemma queue_ok_enqueue:
  assumes "queue_ok net broken offered fw l" "length offered < u64_max"
  shows "queue_ok net broken (offered @ [wire net (fw_node_id fw) e]) (enqueue_pending_event e fw) l"
proof (cases "PENDING_EVENT_CAPACITY \<le> length (pending_events fw)")
  case True
  obtain p ps where p: "pending_events fw = p # ps"
    using True by (cases "pending_events fw") (auto simp: PENDING_EVENT_CAPACITY_def)
  have "subseq (l @ map (wire net (fw_node_id fw)) ps) (content net fw l)"
    unfolding content_def p by (rule list_emb_append_mono) (auto intro: list_emb_Cons)
  with assms True p show ?thesis
    by (auto simp: queue_ok_def enqueue_pending_event_def content_def saturating_add_def
        intro: subseq_order.trans simp flip: append_assoc)
next
  case False
  with assms show ?thesis
    by (auto simp: queue_ok_def enqueue_pending_event_def content_def simp flip: append_assoc)
qed

lemma queue_ok_sent:
  assumes "queue_ok net broken offered fw l" "sticky net broken \<longrightarrow> pending_events fw = []"
  shows "queue_ok net broken (offered @ [wire net (fw_node_id fw) e]) fw (l @ [wire net (fw_node_id fw) e])"
  using assms by (auto simp: queue_ok_def content_def)

lemma queue_ok_retry:
  assumes q: "queue_ok net broken offered fw l" "length offered < u64_max"
    and r: "forward_event_with_retry (logged net) e fw (n, l) = (ok, fw1, n1, l1)"
  shows "queue_ok net broken (offered @ [wire net (fw_node_id fw) e]) fw1 l1 \<and> fw_node_id fw1 = fw_node_id fw"
proof -
  obtain fa na la where a: "flush_before (logged net) fw (n, l) = (fa, na, la)" by (metis prod.exhaust)
  obtain k nb lb where b: "forward_event (logged net) fa e (na, la) = (k, nb, lb)" by (metis prod.exhaust)
  have ma: "move net fw l fa la" "sticky net broken \<Longrightarrow> pending_events fa \<noteq> [] \<Longrightarrow> blocked broken fa na"
    using flush_before_logged[OF a, of broken] by blast+
  have nid: "fw_node_id fa = fw_node_id fw" using ma(1) by (simp add: move_def)
  have qa: "queue_ok net broken offered fa la" by (rule queue_ok_move[OF q(1) ma(1)])
  note fb = forward_logged[OF b]
  show ?thesis
  proof (cases k)
    case True
    have "sticky net broken \<longrightarrow> pending_events fa = []" using ma(2) fb(3)[of broken] True by blast
    from queue_ok_sent[OF qa this, of e] show ?thesis
      using r a b True fb(1) nid by (simp add: forward_event_with_retry_def)
  next
    case False
    define fe where "fe = count_retry (enqueue_pending_event e fa)"
    obtain kc fc nc lc where c: "reconnect (logged net) fe (nb, lb) = (kc, fc, nc, lc)" by (metis prod.exhaust)
    obtain kd fd nd ld where d: "flush_pending_events (logged net) fc (nc, lc) = (kd, fd, nd, ld)" by (metis prod.exhaust)
    have lb: "lb = la" using fb(1) False by simp
    have "move net (enqueue_pending_event e fa) la fc lc"
      using reconnect_logged(1)[OF c] by (auto simp: fe_def lb move_def content_def count_retry_def)
    with queue_ok_enqueue[OF qa q(2), of e] have qc: "queue_ok net broken (offered @ [wire net (fw_node_id fw) e]) fc lc"
      by (simp add: nid queue_ok_move)
    have idc: "fw_node_id fc = fw_node_id fw"
      using reconnect_logged(1)[OF c] by (simp add: move_def fe_def count_retry_def enqueue_pending_event_def nid Let_def)
    have md: "move net fc lc fd ld" by (rule flush_logged(1)[OF d])
    have "move net fc lc fw1 l1"
      using r a b c d md False
      by (cases kc; cases kd) (auto simp: forward_event_with_retry_def fe_def[symmetric] move_count move_refl)
    with queue_ok_move[OF qc this] idc show ?thesis by (simp add: move_def)
  qed
qed

fun send_all :: "'n net \<Rightarrow> event list \<Rightarrow> forwarder \<Rightarrow> 'n \<Rightarrow> forwarder \<times> 'n" where
  "send_all net [] fw n = (fw, n)"
| "send_all net (e # es) fw n =
     (let (_, fw1, n1) = forward_event_with_retry net e fw n in send_all net es fw1 n1)"

lemma queue_ok_send_all:
  "queue_ok net broken offered fw l \<Longrightarrow> length offered + length es \<le> u64_max \<Longrightarrow>
   send_all (logged net) es fw (n, l) = (fw1, n1, l1) \<Longrightarrow>
   queue_ok net broken (offered @ map (wire net (fw_node_id fw)) es) fw1 l1 \<and> fw_node_id fw1 = fw_node_id fw"
proof (induction es arbitrary: offered fw n l)
  case (Cons e es)
  obtain ok fw2 n2 l2 where r: "forward_event_with_retry (logged net) e fw (n, l) = (ok, fw2, n2, l2)"
    by (metis prod.exhaust)
  have "length offered < u64_max" using Cons.prems(2) by simp
  from queue_ok_retry[OF Cons.prems(1) this r]
  have q: "queue_ok net broken (offered @ [wire net (fw_node_id fw) e]) fw2 l2" "fw_node_id fw2 = fw_node_id fw" by auto
  show ?case using Cons.IH[OF q(1), of n2] Cons.prems(2,3) r q(2) by simp
qed simp

text \<open>
  \<^bold>\<open>C32.\<close>  The forwarder accounts for every event it is given: after any sequence of events, on any
  network, each was sent, is pending or was counted as dropped, and at most 1024 are pending.  When a
  connection on which a send failed stays broken until it is replaced, what was sent followed by what is
  pending is in the order of the events, none twice; and as long as nothing was dropped it is exactly
  the events.
\<close>

theorem forwarder_keeps_events:
  assumes "send_all (logged net) es (forwarder_new url nid) (n, []) = (fw, n1, sent)" and "length es \<le> u64_max"
  shows "length sent + length (pending_events fw) + dropped_events_total fw = length es \<and>
    length (pending_events fw) \<le> 1024 \<and>
    (sticky net broken \<longrightarrow>
       subseq (sent @ map (wire net nid) (pending_events fw)) (map (wire net nid) es) \<and>
       (dropped_events_total fw = 0 \<longrightarrow>
          sent @ map (wire net nid) (pending_events fw) = map (wire net nid) es))"
proof -
  have "queue_ok net broken [] (forwarder_new url nid) []"
    by (simp add: queue_ok_def forwarder_new_def content_def)
  from queue_ok_send_all[OF this _ assms(1)] assms(2)
  have q: "queue_ok net broken (map (wire net nid) es) fw sent" "fw_node_id fw = nid"
    by (simp_all add: forwarder_new_def)
  then show ?thesis
    using subseq_same_length[of "content net fw sent" "map (wire net nid) es"]
    by (auto simp: queue_ok_def PENDING_EVENT_CAPACITY_def content_def)
qed

text \<open>A network that is up or down, fails the sends its script says, and comes back on a new connection.\<close>

definition flaky :: "(bool \<times> bool list) net" where
  "flaky =
     \<lparr>ws_connect = \<lambda>u (up, script). (True, True, script),
      ws_send = \<lambda>m (up, script).
        if \<not> up then (False, False, script)
        else (case script of [] \<Rightarrow> (True, True, []) | ok # rest \<Rightarrow> (ok, ok, rest)),
      envelope_json = \<lambda>env. show_nat (ev_ts (out_event env))\<rparr>"

lemma flaky_sticky: "sticky flaky (\<lambda>n. \<not> fst n)"
  by (auto simp: sticky_def flaky_def split: list.splits)

definition tick :: "nat \<Rightarrow> event" where
  "tick t = \<lparr>ev_ts = t, ev_type = ErrorNet, ev_entity_id = ''eth0'', ev_job_id = Some ''job-1'', ev_pid = Some 42,
     ev_value = ''drop'', ev_node_id = None\<rparr>"

theorem forwarder_keeps_events_witness:
  "let (fw, n, sent) = send_all (logged flaky) [tick 1, tick 2, tick 3] (forwarder_new ''ws'' ''n'')
         ((True, [True, False, False, False, False]), []) in
     sent = [''1''] \<and> map ev_ts (pending_events fw) = [2, 3] \<and>
     sent @ map (wire flaky ''n'') (pending_events fw) = map (wire flaky ''n'') [tick 1, tick 2, tick 3]"
proof -
  obtain fw n sent where r: "send_all (logged flaky) [tick 1, tick 2, tick 3] (forwarder_new ''ws'' ''n'')
      ((True, [True, False, False, False, False]), []) = (fw, n, sent)" by (metis prod.exhaust)
  have v: "let (fw, n, sent) = send_all (logged flaky) [tick 1, tick 2, tick 3] (forwarder_new ''ws'' ''n'')
         ((True, [True, False, False, False, False]), []) in
     sent = [''1''] \<and> map ev_ts (pending_events fw) = [2, 3] \<and> dropped_events_total fw = 0"
    by code_simp
  then have v1: "sent = [''1'']" "map ev_ts (pending_events fw) = [2, 3]" "dropped_events_total fw = 0"
    unfolding r by simp_all
  have "sent @ map (wire flaky ''n'') (pending_events fw) = map (wire flaky ''n'') [tick 1, tick 2, tick 3]"
    using forwarder_keeps_events[OF r, of "\<lambda>n. \<not> fst n"] v1(3) flaky_sticky by (simp add: u64_max_def)
  with v1 show ?thesis unfolding r by simp
qed

section \<open>Edge roll-up\<close>

fun rollup :: "event list \<Rightarrow> forwarder \<Rightarrow> event list \<times> forwarder" where
  "rollup [] fw = ([], fw)"
| "rollup (e # es) fw =
     (let (forward, fw1) = should_forward e fw; (sent, fw2) = rollup es fw1 in
      (if forward then e # sent else sent, fw2))"

definition always_sent :: "event \<Rightarrow> bool" where
  "always_sent e \<longleftrightarrow> ev_type e \<in> {ErrorHw, ErrorNet, ProcessState, TransportDrop, TopoLinkDown}"

definition is_compute :: "event \<Rightarrow> bool" where
  "is_compute e \<longleftrightarrow> ev_type e = ComputeUtil \<or> ev_type e = ComputeMem"

text \<open>The process and resource a measurement binds.\<close>

definition binding :: "event \<Rightarrow> (nat \<times> string) option" where
  "binding e =
     (if ev_type e \<in> {ComputeUtil, ComputeMem, StorageIops, StorageQDepth, TransportBw}
      then map_option (\<lambda>pid. (pid, ev_entity_id e)) (ev_pid e) else None)"

definition bindings :: "event list \<Rightarrow> (nat \<times> string) set" where
  "bindings es = {k. \<exists>e \<in> set es. binding e = Some k}"

lemma bindings_Cons: "bindings (e # es) = set_option (binding e) \<union> bindings es"
  by (auto simp: bindings_def)

lemma should_forward_cases:
  assumes "should_forward e fw = (forward, fw1)"
  shows "always_sent e \<Longrightarrow> forward"
    and "set_option (binding e) \<subseteq> forwarded_bindings fw \<union> (if forward then set_option (binding e) else {})"
    and "forwarded_bindings fw1 = forwarded_bindings fw \<union> set_option (binding e)"
  using assms
  by (cases "ev_type e"; cases "ev_pid e"; cases "parse_f64 (ev_value e)";
      auto simp: should_forward_def always_sent_def binding_def Let_def split: if_splits option.splits)+

lemma rollup_complete:
  "let sent = fst (rollup es fw) in
     subseq sent es \<and> filter always_sent sent = filter always_sent es \<and>
     bindings es \<subseteq> forwarded_bindings fw \<union> bindings sent"
proof (induction es arbitrary: fw)
  case (Cons e es)
  obtain forward fw1 where f: "should_forward e fw = (forward, fw1)" by (rule prod.exhaust)
  note c = should_forward_cases[OF f]
  have IH: "subseq (fst (rollup es fw1)) es" "filter always_sent (fst (rollup es fw1)) = filter always_sent es"
    "bindings es \<subseteq> forwarded_bindings fw1 \<union> bindings (fst (rollup es fw1))"
    using Cons.IH[of fw1] by (simp_all add: Let_def)
  have r: "fst (rollup (e # es) fw) = (if forward then e # fst (rollup es fw1) else fst (rollup es fw1))"
    by (simp add: f split: prod.splits)
  show ?case
    unfolding r Let_def using IH c
    by (cases forward) (auto simp: bindings_Cons split: if_splits)
qed (simp add: bindings_def)

lemma rollup_misses_swing:
  assumes "(pid, x) \<in> forwarded_bindings fw" "hm_get (last_util_values fw) (pid, x) = Some v"
    and "\<not> f64_lt (Fin False 80) v" "\<not> f64_lt v (Fin False 1)"
  shows "filter (\<lambda>e. binding e = Some (pid, x)) (fst (rollup es fw)) = []"
  using assms(1,2)
proof (induction es arbitrary: fw)
  case (Cons e es)
  obtain forward fw1 where f: "should_forward e fw = (forward, fw1)" by (rule prod.exhaust)
  have "(pid, x) \<in> forwarded_bindings fw1" using should_forward_cases(3)[OF f] Cons.prems(1) by simp
  moreover have "hm_get (last_util_values fw1) (pid, x) = Some v"
    using f Cons.prems assms(3,4)
    by (cases "ev_type e"; cases "ev_pid e"; cases "parse_f64 (ev_value e)";
        auto simp: should_forward_def Let_def hm_simps split: if_splits option.splits)
  moreover have "\<not> forward" if "binding e = Some (pid, x)"
    using that f Cons.prems assms(3,4)
    by (cases "ev_type e"; cases "ev_pid e"; cases "parse_f64 (ev_value e)";
        auto simp: should_forward_def binding_def Let_def split: if_splits option.splits)
  ultimately show ?case using Cons.IH[of fw1] f by (auto split: prod.splits)
qed simp

definition busy :: "string \<Rightarrow> event" where
  "busy v = \<lparr>ev_ts = 1, ev_type = ComputeUtil, ev_entity_id = ''gpu-0'', ev_job_id = None, ev_pid = Some 42,
     ev_value = v, ev_node_id = None\<rparr>"

text \<open>
  \<^bold>\<open>C33.\<close>  What the edge roll-up sends is in the order of the events, with every error, every process
  state, every packet drop and every broken link among it, and it announces every binding of a process
  to a resource that was not announced before.  But a swing of the utilisation is judged against the
  value last sent, not the value last seen: once a process is announced on a resource with a value
  from 1 to 80, no measurement of it is sent again, whatever it does.
\<close>

theorem rollup_lets_through:
  "let sent = fst (rollup es fw) in
     subseq sent es \<and> filter always_sent sent = filter always_sent es \<and>
     bindings es \<subseteq> forwarded_bindings fw \<union> bindings sent \<and>
     ((pid, x) \<in> forwarded_bindings fw \<and> hm_get (last_util_values fw) (pid, x) = Some v \<and>
        \<not> f64_lt (Fin False 80) v \<and> \<not> f64_lt v (Fin False 1) \<longrightarrow>
      filter (\<lambda>e. binding e = Some (pid, x)) sent = [])"
  using rollup_complete[of es fw] rollup_misses_swing[of pid x fw v es] by (simp add: Let_def)

theorem rollup_lets_through_witness:
  "filter (\<lambda>e. binding e = Some (42, ''gpu-0''))
     (fst (rollup [busy ''95'', busy ''0.5'', busy ''95'']
       ((forwarder_new ''ws'' ''n'')\<lparr>forwarded_bindings := {(42, ''gpu-0'')},
          last_util_values := [((42, ''gpu-0''), Fin False 50)]\<rparr>))) = []"
  using rollup_lets_through[of "[busy ''95'', busy ''0.5'', busy ''95'']"
      "(forwarder_new ''ws'' ''n'')\<lparr>forwarded_bindings := {(42, ''gpu-0'')},
          last_util_values := [((42, ''gpu-0''), Fin False 50)]\<rparr>" 42 "''gpu-0''" "Fin False 50"]
  by (simp add: Let_def hm_get_def del: rollup.simps)

section \<open>Commands\<close>

definition permitted :: "nat \<Rightarrow> command \<Rightarrow> bool" where
  "permitted pid c \<longleftrightarrow>
     c \<in> set [kill_cmd ''-10'' pid, kill_cmd ''-9'' pid, (''mkdir'', [''-p'', cgroup_path pid]),
       (''ip'', [''link'', ''set'', ''down'', ''eth0'']), (''ip'', [''link'', ''set'', ''up'', ''eth0'']),
       (''ip'', [''link'', ''set'', ''down'', ''eno1'']), (''ip'', [''link'', ''set'', ''up'', ''eno1''])]"

lemma show_ten: "show_int 10 = ''10''"
  by code_simp

lemma recommendation_permitted:
  "from_recommendation text = Some a \<Longrightarrow> runs pid a cs \<Longrightarrow> list_all (permitted pid) cs"
  by (auto simp: from_recommendation_def Let_def permitted_def show_ten split: if_splits)

lemma action_permitted: "action_from_string s = Inr a \<Longrightarrow> runs pid a cs \<Longrightarrow> list_all (permitted pid) cs"
  using recommendation_permitted[of s a pid cs]
  by (auto simp: action_from_string_def Let_def permitted_def show_ten split: if_splits option.splits)

text \<open>
  \<^bold>\<open>C34.\<close>  Whatever the hub sends, the agent runs only commands of a fixed list: a signal or a kill of the
  process named in the command, the directory of its control group, and the restart of one of two
  network interfaces.  No text of the message becomes a command.
\<close>

theorem commands_confined:
  "list_all (permitted (cmd_target_pid cmd)) (snd (snd (handle_command (traced sys) cmd (w, []))))"
proof (cases "cmd_intent cmd = ''fix''")
  case False
  then show ?thesis by (simp add: handle_command_def)
next
  case intent: True
  define choice where
    "choice = (case cmd_action cmd of Some s \<Rightarrow> action_from_string s | None \<Rightarrow> Inr (GracefulShutdown 10 10 True))"
  show ?thesis
  proof (cases choice)
    case (Inl e)
    then show ?thesis by (simp add: handle_command_def choice_def[symmetric])
  next
    case (Inr a)
    obtain r w1 l where e: "execute (traced sys) a (cmd_target_pid cmd) (w, []) = (r, w1, l)" by (metis prod.exhaust)
    have "runs (cmd_target_pid cmd) a l"
      using execute_traced[of "cmd_target_pid cmd" a "[]" sys w] by (simp add: trace_ok_def e)
    moreover have "list_all (permitted (cmd_target_pid cmd)) cs" if "runs (cmd_target_pid cmd) a cs" for cs
      using Inr action_permitted[OF _ that] that
      by (auto simp: choice_def permitted_def show_ten split: option.splits)
    ultimately show ?thesis
      using intent Inr e by (cases r) (simp_all add: handle_command_def choice_def[symmetric])
  qed
qed

end
