(* ===== verification/Agent_Hub.thy ===== *)
theory Agent_Hub
  imports Hub_Query Forwarder_Props
begin

text \<open>
  The agent and the hub together: what the hub reads of the messages the forwarder sends, the agent's
  event loop as a roll-up followed by the queue, and the hub's commands as the agent receives them.
  The theorems over both are in the root theory.
\<close>

section \<open>From the agent to the hub\<close>

text \<open>What the hub reads of an envelope of the agent: every field is there.\<close>

definition raw_of_agent :: "agent_envelope \<Rightarrow> envelope_raw" where
  "raw_of_agent env =
     \<lparr>raw_kind = Some (out_kind env), raw_protocol_version = Some (out_protocol_version env),
      raw_schema_version = Some (out_schema_version env), raw_agent_id = Some (out_agent_id env),
      raw_feature_flags = Some (out_feature_flags env), raw_event = out_event env\<rparr>"

definition stamp :: "string \<Rightarrow> event \<Rightarrow> event" where
  "stamp nid e = e\<lparr>ev_node_id := Some nid\<rparr>"

definition deliver :: "'c hub_env \<Rightarrow> hub_config \<Rightarrow> nat \<Rightarrow> string list \<Rightarrow> 'c hub \<Rightarrow> 'c hub" where
  "deliver env cfg tx msgs h = fold (handle_text env cfg None tx) msgs h"

text \<open>The JSON the agent writes for an event, read by the hub, is the envelope that was written.\<close>

definition same_json :: "'n net \<Rightarrow> 'c hub_env \<Rightarrow> string \<Rightarrow> event \<Rightarrow> bool" where
  "same_json net env nid e \<longleftrightarrow>
     from_envelope env (envelope_json net (agent_envelope_of nid e)) = Some (raw_of_agent (agent_envelope_of nid e))"

lemma wire_parsed:
  "same_json net env nid e \<Longrightarrow>
   parse_hub_event_message (from_envelope env) (from_event env) (wire net nid e) = Inr (stamp nid e)"
  by (simp add: same_json_def parse_hub_event_message_def wire_def raw_of_agent_def envelope_of_raw_def
      agent_envelope_of_def HUB_PROTOCOL_VERSION_def stamp_def)

lemma handle_wire:
  assumes "same_json net env nid e" "hm_get (tasks h) tx = Some m" "h1 = handle_text env cfg None tx (wire net nid e) h"
  shows "core h1 = snd (ingest (to_json env) (hash64 env) (event_buffer_size cfg) (dedup_window_ms cfg) None (stamp nid e) (core h))"
    and "hm_get (tasks h1) tx = Some nid"
    and "hm_get (connections h1) nid = (if m = nid then hm_get (connections h) nid else Some tx)"
  using wire_parsed[OF assms(1)] assms(2)
  by (auto simp: assms(3) handle_text_def adopt_node_id_def stamp_def hm_simps split: prod.splits)

lemma deliver_core:
  "list_all (same_json net env nid) es \<Longrightarrow> hm_get (tasks h) tx = Some m \<Longrightarrow>
   core (deliver env cfg tx (map (wire net nid) es) h) =
     ingest_all (to_json env) (hash64 env) (event_buffer_size cfg) (dedup_window_ms cfg) (map (stamp nid) es) (core h)"
proof (induction es arbitrary: h m)
  case (Cons e es)
  have j: "same_json net env nid e" "list_all (same_json net env nid) es" using Cons.prems(1) by simp_all
  note hw = handle_wire[OF j(1) Cons.prems(2) refl, of cfg]
  show ?case using Cons.IH[OF j(2) hw(2)] hw(1) by (simp add: deliver_def)
qed (simp add: deliver_def)

section \<open>The agent as a whole\<close>

lemma flush_frame: "flush_pending_events net fw n = (ok, fw1, n1) \<Longrightarrow>
    forwarded_bindings fw1 = forwarded_bindings fw \<and> last_util_values fw1 = last_util_values fw"
  by (auto simp: flush_pending_events_def split: prod.splits)

lemma reconnect_frame: "reconnect net fw n = (ok, fw1, n1) \<Longrightarrow>
    forwarded_bindings fw1 = forwarded_bindings fw \<and> last_util_values fw1 = last_util_values fw"
  by (auto simp: reconnect_def connect_def split: prod.splits bool.splits)

lemma count_frame:
  "forwarded_bindings (count_retry fw) = forwarded_bindings fw" "last_util_values (count_retry fw) = last_util_values fw"
  "forwarded_bindings (count_flush_failure fw) = forwarded_bindings fw"
  "last_util_values (count_flush_failure fw) = last_util_values fw"
  "forwarded_bindings (enqueue_pending_event e fw) = forwarded_bindings fw"
  "last_util_values (enqueue_pending_event e fw) = last_util_values fw"
  by (simp_all add: count_retry_def count_flush_failure_def enqueue_pending_event_def Let_def)

lemma flush_before_frame: "flush_before net fw n = (fw1, n1) \<Longrightarrow>
    forwarded_bindings fw1 = forwarded_bindings fw \<and> last_util_values fw1 = last_util_values fw"
  by (auto simp: flush_before_def count_frame split: if_splits prod.splits bool.splits
      dest!: flush_frame reconnect_frame)

lemma retry_frame: "forward_event_with_retry net e fw n = (ok, fw1, n1) \<Longrightarrow>
    forwarded_bindings fw1 = forwarded_bindings fw \<and> last_util_values fw1 = last_util_values fw"
  by (auto simp: forward_event_with_retry_def Let_def count_frame split: prod.splits bool.splits
      dest!: flush_before_frame flush_frame reconnect_frame)

lemma should_forward_frame:
  assumes "should_forward e fw = (forward, fw1)"
  shows "pending_events fw1 = pending_events fw \<and> dropped_events_total fw1 = dropped_events_total fw \<and>
    fw_node_id fw1 = fw_node_id fw"
  using assms
  by (cases "ev_type e"; cases "ev_pid e"; cases "parse_f64 (ev_value e)";
      auto simp: should_forward_def Let_def split: if_splits option.splits)

text \<open>The roll-up looks only at the bindings and the utilisation values.\<close>

lemma should_forward_cong:
  assumes "forwarded_bindings fw = forwarded_bindings fv" "last_util_values fw = last_util_values fv"
  shows "fst (should_forward e fw) = fst (should_forward e fv) \<and>
    forwarded_bindings (snd (should_forward e fw)) = forwarded_bindings (snd (should_forward e fv)) \<and>
    last_util_values (snd (should_forward e fw)) = last_util_values (snd (should_forward e fv))"
  using assms
  by (cases "ev_type e"; cases "ev_pid e"; cases "parse_f64 (ev_value e)";
      auto simp: should_forward_def Let_def split: if_splits option.splits)

lemma rollup_cong:
  "forwarded_bindings fw = forwarded_bindings fv \<Longrightarrow> last_util_values fw = last_util_values fv \<Longrightarrow>
   fst (rollup es fw) = fst (rollup es fv)"
proof (induction es arbitrary: fw fv)
  case (Cons e es)
  obtain a fw1 b fv1 where s: "should_forward e fw = (a, fw1)" "should_forward e fv = (b, fv1)" by (metis prod.exhaust)
  have "a = b" "fst (rollup es fw1) = fst (rollup es fv1)"
    using should_forward_cong[OF Cons.prems, of e] Cons.IH[of fw1 fv1] by (auto simp: s)
  then show ?case by (simp add: s case_prod_unfold Let_def)
qed simp

lemma rollup_subset: "set (fst (rollup es fw)) \<subseteq> set es"
  by (induction es arbitrary: fw) (auto simp: case_prod_unfold Let_def)

text \<open>The state of the agent after some events: the queue accounts for what the roll-up let through.\<close>

definition agent_ok :: "'n net \<Rightarrow> ('n \<Rightarrow> bool) \<Rightarrow> string list \<Rightarrow> string \<Rightarrow> ('n \<times> string list) agent \<Rightarrow> forwarder \<Rightarrow> bool" where
  "agent_ok net broken offered nid a fw \<longleftrightarrow>
     agent_forwarder a = Some fw \<and> fw_node_id fw = nid \<and> queue_ok net broken offered fw (snd (agent_net a))"

lemma agent_event_ok:
  assumes a: "agent_ok net broken offered nid a fw" and len: "length offered < u64_max"
  obtains fw1 where
    "agent_ok net broken (offered @ (if fst (should_forward e fw) then [wire net nid e] else [])) nid (agent_event (logged net) e a) fw1"
    "forwarded_bindings fw1 = forwarded_bindings (snd (should_forward e fw))"
    "last_util_values fw1 = last_util_values (snd (should_forward e fw))"
proof -
  obtain forward f where s: "should_forward e fw = (forward, f)" by (rule prod.exhaust)
  obtain n l where n: "agent_net a = (n, l)" by (rule prod.exhaust)
  obtain r g where g: "process_event e (agent_graph a) = (r, g)" by (rule prod.exhaust)
  obtain ok fw2 n2 l2 where f: "forward_event_with_retry (logged net) e f (n, l) = (ok, fw2, n2, l2)"
    by (metis prod.exhaust)
  have q: "queue_ok net broken offered f l" "fw_node_id f = nid"
    using a should_forward_frame[OF s] by (auto simp: agent_ok_def n queue_ok_def content_def)
  have fwd: "agent_forwarder a = Some fw" using a by (simp add: agent_ok_def)
  show thesis
  proof (cases forward)
    case True
    have "agent_event (logged net) e a = a\<lparr>agent_graph := g, agent_forwarder := Some fw2, agent_net := (n2, l2)\<rparr>"
      by (simp add: agent_event_def g fwd s True n f)
    with queue_ok_retry[OF q(1) len f] q(2) retry_frame[OF f] True show thesis
      by (intro that[of fw2]) (simp_all add: agent_ok_def s)
  next
    case False
    have "agent_event (logged net) e a = a\<lparr>agent_graph := g, agent_forwarder := Some f\<rparr>"
      by (simp add: agent_event_def g fwd s False)
    with q False show thesis by (intro that[of f]) (simp_all add: agent_ok_def s n)
  qed
qed

lemma agent_event_graph: "agent_graph (agent_event net e a) = snd (process_event e (agent_graph a))"
  by (auto simp: agent_event_def Let_def split: prod.splits option.splits)

lemma agent_events_graph: "agent_graph (agent_events net es a) = process_events es (agent_graph a)"
  by (induction es arbitrary: a) (simp_all add: agent_events_def process_events_def agent_event_graph)

lemma agent_events_ok:
  "agent_ok net broken offered nid a fw \<Longrightarrow> length offered + length es \<le> u64_max \<Longrightarrow>
   \<exists>fw1. agent_ok net broken (offered @ map (wire net nid) (fst (rollup es fw))) nid (agent_events (logged net) es a) fw1"
proof (induction es arbitrary: offered a fw)
  case (Cons e es)
  have "length offered < u64_max" using Cons.prems(2) by simp
  then obtain fw1 where 1:
    "agent_ok net broken (offered @ (if fst (should_forward e fw) then [wire net nid e] else [])) nid (agent_event (logged net) e a) fw1"
    "forwarded_bindings fw1 = forwarded_bindings (snd (should_forward e fw))"
    "last_util_values fw1 = last_util_values (snd (should_forward e fw))"
    by (rule agent_event_ok[OF Cons.prems(1)])
  have "fst (rollup es fw1) = fst (rollup es (snd (should_forward e fw)))" by (rule rollup_cong[OF 1(2,3)])
  moreover have "fst (rollup (e # es) fw) =
      (if fst (should_forward e fw) then [e] else []) @ fst (rollup es (snd (should_forward e fw)))"
    by (simp add: case_prod_unfold Let_def)
  ultimately show ?case
    using Cons.IH[OF 1(1)] Cons.prems(2) by (cases "fst (should_forward e fw)") (simp_all add: agent_events_def)
qed (auto simp: agent_events_def)

section \<open>From the hub to the agent\<close>

text \<open>
  A command as the agent reads it from the JSON of the hub: \<open>send_fix_command\<close> writes the fields \<open>intent\<close>,
  \<open>target_pid\<close> and \<open>action\<close>, and these are the fields, with the same types, of the struct \<open>HubCommand\<close> that
  \<open>hub_forwarder.rs\<close> derives its reader from.
\<close>

definition received :: "hub_command \<Rightarrow> agent_command" where
  "received c = \<lparr>cmd_intent = intent c, cmd_target_pid = target_pid c, cmd_action = command_action c\<rparr>"

lemma policy_action_understood:
  "action_from_string ''KillProcess'' = Inr KillProcess"
  "action_from_string ''GracefulShutdown'' = Inr (GracefulShutdown 10 10 True)"
  by code_simp+

lemma execute_policy_traced:
  assumes "action_from_string s = Inr a"
  shows "\<exists>cs. runs pid a cs \<and>
    snd (snd (handle_command (traced sys) \<lparr>cmd_intent = ''fix'', cmd_target_pid = pid, cmd_action = Some s\<rparr> (w, []))) = cs"
proof -
  obtain r w1 l where e: "execute (traced sys) a pid (w, []) = (r, w1, l)" by (metis prod.exhaust)
  have "runs pid a l" using execute_traced[of pid a "[]" sys w] by (simp add: trace_ok_def e)
  then show ?thesis by (cases r) (simp_all add: handle_command_def assms e)
qed

text \<open>A hub that reads the messages of the network above, with one connection.\<close>

definition tick_env :: "small_cluster hub_env" where
  "tick_env = small_env\<lparr>from_envelope := \<lambda>m. map_option (\<lambda>t. raw_of_agent (agent_envelope_of ''n'' (tick t))) (parse_uint u64_max m)\<rparr>"

definition tick_agent :: "((bool \<times> bool list) \<times> string list) agent" where
  "tick_agent = (case start_forwarder (logged flaky) (Some ''ws'') ''n'' ((True, [True, False, False, False, False]), []) of
     (fw, n) \<Rightarrow> agent_events (logged flaky) [tick 1, tick 2, tick 3]
       \<lparr>agent_graph = state_graph_new, agent_forwarder = fw, agent_net = n\<rparr>)"

lemma agent_send_all:
  "list_all always_sent es \<Longrightarrow> agent_forwarder a = Some fw \<Longrightarrow>
   (agent_forwarder (agent_events net es a), agent_net (agent_events net es a)) =
     (let (fw1, n1) = send_all net es fw (agent_net a) in (Some fw1, n1))"
proof (induction es arbitrary: a fw)
  case (Cons e es)
  have s: "should_forward e fw = (True, fw)"
    using Cons.prems(1) by (auto simp: should_forward_def always_sent_def)
  obtain ok fw1 n1 where r: "forward_event_with_retry net e fw (agent_net a) = (ok, fw1, n1)" by (metis prod.exhaust)
  have "agent_forwarder (agent_event net e a) = Some fw1" "agent_net (agent_event net e a) = n1"
    using Cons.prems(2) by (simp_all add: agent_event_def s r split: prod.splits)
  with Cons.IH[of "agent_event net e a" fw1] Cons.prems(1) r show ?case by (simp add: agent_events_def)
qed (simp add: agent_events_def)

end
