(* ===== verification/Cluster_Cli.thy ===== *)
theory Cluster_Cli
  imports Agent_Cli Agent_Hub
begin

text \<open>
  \<^bold>\<open>agent/src/main.rs\<close>, the commands on the whole cluster: \<open>ark cluster ps\<close>, \<open>why\<close> and \<open>fix\<close> over the HTTP
  interface of the hub.  The HTTP client is a parameter; the last section puts the hub of \<open>Hub\<close> behind it.
\<close>

section \<open>Requests\<close>

text \<open>
  A GET gives the JSON of the response.  A POST gives whether the status is a success; the text of its
  response is only shown.  Both may fail with the message of the library.
\<close>

record 'h web =
  http_get :: "string \<Rightarrow> 'h \<Rightarrow> string + json"
  http_post :: "string \<Rightarrow> json \<Rightarrow> 'h \<Rightarrow> (string + bool) \<times> 'h"

definition trim_end_slashes :: "string \<Rightarrow> string" where
  "trim_end_slashes s = rev (dropWhile (\<lambda>c. c = CHR ''/'') (rev s))"

definition json_get :: "json \<Rightarrow> string \<Rightarrow> json option" where
  "json_get j k = (case j of JObj kvs \<Rightarrow> map_of kvs k | _ \<Rightarrow> None)"

definition json_array :: "json \<Rightarrow> string \<Rightarrow> json list option" where
  "json_array j k = (case json_get j k of Some (JArr js) \<Rightarrow> Some js | _ \<Rightarrow> None)"

section \<open>ark cluster ps\<close>

text \<open>The columns of a row: machine, job, process and state.\<close>

definition cluster_ps_row :: "json \<Rightarrow> string \<times> string \<times> string \<times> string" where
  "cluster_ps_row proc =
     (let id = json_str (json_index proc ''id'') ''-'';
          (node, pid) =
            (if contains id ''::''
             then (case split_str ''::'' id of
                     n # p # _ \<Rightarrow> (n, p)
                   | [n] \<Rightarrow> (n, ''-'')
                   | [] \<Rightarrow> ([], ''-''))
             else (''local'', id)) in
      (node, json_str (json_index proc ''job_id'') ''-'', pid, json_str (json_index proc ''state'') ''unknown''))"

datatype web_error = RequestFailed string

text \<open>\<open>None\<close> is a response without processes, which is only reported.\<close>

definition cluster_ps :: "'h web \<Rightarrow> string \<Rightarrow> 'h \<Rightarrow> web_error + (string \<times> string \<times> string \<times> string) list option" where
  "cluster_ps net hub_base h =
     (case http_get net (trim_end_slashes hub_base @ ''/api/v1/ps'') h of
        Inl e \<Rightarrow> Inl (RequestFailed e)
      | Inr j \<Rightarrow> Inr (map_option (map cluster_ps_row) (json_array j ''processes'')))"

section \<open>ark cluster why\<close>

definition why_url :: "string \<Rightarrow> string \<Rightarrow> string" where
  "why_url hub_base job = trim_end_slashes hub_base @ ''/api/v1/why?job_id='' @ job"

datatype why_answer =
    HubError string
  | NoCauses
  | WhyCauses "(nat \<times> string) list"

text \<open>The causes with their numbers; a cause that is not a string is skipped, and its number with it.\<close>

definition numbered_causes :: "json list \<Rightarrow> (nat \<times> string) list" where
  "numbered_causes js =
     List.map_filter (\<lambda>(i, j). case j of JStr s \<Rightarrow> Some (i, s) | _ \<Rightarrow> None) (zip [1..<Suc (length js)] js)"

definition cli_cluster_why :: "'h web \<Rightarrow> string \<Rightarrow> string \<Rightarrow> 'h \<Rightarrow> web_error + why_answer" where
  "cli_cluster_why net hub_base job h =
     (case http_get net (why_url hub_base job) h of
        Inl e \<Rightarrow> Inl (RequestFailed e)
      | Inr j \<Rightarrow>
          (case json_get j ''error'' of
             Some e \<Rightarrow> Inr (HubError (json_str e ''unknown''))
           | None \<Rightarrow>
               (case json_array j ''causes'' of
                  None \<Rightarrow> Inr (WhyCauses [])
                | Some js \<Rightarrow> Inr (if js = [] then NoCauses else WhyCauses (numbered_causes js)))))"

section \<open>ark cluster fix\<close>

text \<open>The number at the front of a text, and what is taken for it: the digits up to the first other character.\<close>

definition leading_pid :: "string \<Rightarrow> nat option" where
  "leading_pid s = parse_uint u32_max (takeWhile is_digit s)"

definition after :: "nat \<Rightarrow> string \<Rightarrow> nat \<Rightarrow> string" where
  "after pos s n = drop (pos + n) s"

definition from_double_colon :: "string \<Rightarrow> (string \<times> nat) option" where
  "from_double_colon s =
     (case find_str s ''::pid-'' of
        None \<Rightarrow> None
      | Some pos \<Rightarrow>
          (let digits = dropWhile (\<lambda>c. \<not> is_digit c) (after pos s 6) in
           if digits = [] then None else map_option (Pair (take pos s)) (leading_pid digits)))"

definition from_colon :: "string \<Rightarrow> (string \<times> nat) option" where
  "from_colon s =
     (case find_str s '': pid-'' of
        None \<Rightarrow> None
      | Some pos \<Rightarrow> map_option (Pair (trim (take pos s))) (leading_pid (after pos s 6)))"

definition from_space :: "string \<Rightarrow> (string \<times> nat) option" where
  "from_space s =
     (case find_str s '' pid-'' of
        None \<Rightarrow> None
      | Some pos \<Rightarrow> map_option (Pair (trim (take pos s))) (leading_pid (after pos s 5)))"

definition extract_node_and_pid :: "string \<Rightarrow> (string \<times> nat) option" where
  "extract_node_and_pid s =
     (case from_double_colon s of
        Some r \<Rightarrow> Some r
      | None \<Rightarrow> (case from_colon s of Some r \<Rightarrow> Some r | None \<Rightarrow> from_space s))"







section \<open>The formats of a cause\<close>

lemma leading_pid_show: "k \<le> u32_max \<Longrightarrow> \<not> (\<exists>c cs. rest = c # cs \<and> is_digit c) \<Longrightarrow> leading_pid (show_nat k @ rest) = Some k"
proof -
  assume k: "k \<le> u32_max" and rest: "\<not> (\<exists>c cs. rest = c # cs \<and> is_digit c)"
  have "takeWhile is_digit (show_nat k @ rest) = show_nat k @ takeWhile is_digit rest"
    using show_nat_digits[of k] by (intro takeWhile_append2) (auto simp: list_all_iff)
  moreover have "takeWhile is_digit rest = []" using rest by (cases rest) auto
  ultimately show ?thesis using k by (simp add: leading_pid_def parse_show_nat)
qed

lemma find_str_front: "p \<noteq> [] \<Longrightarrow> hd p \<notin> set u \<Longrightarrow> find_str (u @ p @ v) p = Some (length u)"
proof (induction u)
  case Nil
  then show ?case by (cases p) simp_all
next
  case (Cons c u)
  then have "\<not> starts_with (c # u @ p @ v) p" by (cases p) auto
  with Cons show ?case by simp
qed

text \<open>The three formats the comment of \<open>extract_node_and_pid\<close> names are understood.\<close>

lemma extract_formats:
  assumes "k \<le> u32_max" "\<not> (\<exists>c cs. rest = c # cs \<and> is_digit c)"
  shows "CHR '':'' \<notin> set n \<Longrightarrow> extract_node_and_pid (n @ ''::pid-'' @ show_nat k @ rest) = Some (n, k)"
    and "CHR '':'' \<notin> set n \<Longrightarrow> trim n = n \<Longrightarrow> \<not> contains (n @ '': pid-'' @ show_nat k @ rest) ''::pid-'' \<Longrightarrow>
      extract_node_and_pid (n @ '': pid-'' @ show_nat k @ rest) = Some (n, k)"
proof -
  note pid = leading_pid_show[OF assms]
  have "dropWhile (\<lambda>c. \<not> is_digit c) (show_nat k @ rest) = show_nat k @ rest" "show_nat k \<noteq> []"
    using show_nat_digits[of k] show_nat_nonempty[of k] by (cases "show_nat k"; simp)+
  then show "CHR '':'' \<notin> set n \<Longrightarrow> extract_node_and_pid (n @ ''::pid-'' @ show_nat k @ rest) = Some (n, k)"
    using find_str_front[of "''::pid-''" n "show_nat k @ rest"] pid
    by (simp add: extract_node_and_pid_def from_double_colon_def after_def)
  show "CHR '':'' \<notin> set n \<Longrightarrow> trim n = n \<Longrightarrow> \<not> contains (n @ '': pid-'' @ show_nat k @ rest) ''::pid-'' \<Longrightarrow>
      extract_node_and_pid (n @ '': pid-'' @ show_nat k @ rest) = Some (n, k)"
    using find_str_front[of "'': pid-''" n "show_nat k @ rest"] pid
    by (simp add: extract_node_and_pid_def from_double_colon_def from_colon_def after_def contains_def)
qed

section \<open>The hub behind the requests\<close>





















end
