(* ===== verification/Spec2Isabelle.thy ===== *)
theory Spec2Isabelle
  imports Cluster_Cli
begin

text \<open>
  \<^bold>\<open>Ark: a verification library.\<close>

  Ark watches training clusters.  Agents on the machines turn what they observe into events; a state
  graph relates processes, resources and errors; rules over recent events and the graph name the scene
  of an incident; the hub gathers the events of all machines, keeps them in a log, answers queries and
  sends fix commands back, and a Kubernetes controller isolates machines that cannot be trusted.

  \<^bold>\<open>Theories and code.\<close>

  \<^item> \<open>Prelude\<close>: machine integers as bounded naturals with their saturating operations, strings as UTF-8
    byte lists with the operations of \<open>str\<close>, hash maps as association lists behind the interface
    \<open>hash_map\<close>, runs that keep an invariant (\<open>step_invariant\<close>), rate gates (\<open>rate_gate\<close>), stable sorting.
  \<^item> \<open>F64\<close>: binary64 numbers with rounding, comparison, decimal parsing and shortest printing.
  \<^item> \<open>Event\<close> (core/src/event.rs), \<open>Signals\<close> (core/src/signals): events and the windowed aggregates.
  \<^item> \<open>Graph\<close> (core/src/graph.rs) with \<open>Graph_Index\<close>, \<open>Graph_Search\<close> and \<open>Graph_Safety\<close>: every handler,
    cleanup and query, then the index invariant, the exactness of the search for root causes, and what
    holds over whole event streams.
  \<^item> \<open>Matcher\<close> and \<open>Globs\<close> (core/src/rules/rule.rs and matcher.rs), \<open>Rule_Engine\<close> and \<open>Rule_Props\<close>
    (core/src/rules/mod.rs): the rule format, wildcard patterns and their language, loading, matching.
  \<^item> \<open>Dedup\<close>, \<open>Wal\<close> and \<open>K8s\<close> (hub/src/dedup.rs, wal.rs and k8s_controller.rs): duplicates, the log with
    its rotation and recovery under injected faults, the isolation of machines.
  \<^item> \<open>Hub\<close>, \<open>Hub_Props\<close> and \<open>Hub_Query\<close> (hub/src/main.rs): connections, messages, the execution guard, the
    HTTP handlers and the cluster-wide analysis, as a machine whose steps interleave; then what the
    connection table, the guard and the diagnosis promise, and what the queries answer.
  \<^item> \<open>Exec\<close> and \<open>Exec_Props\<close> (agent/src/exec): recommendations as actions, the commands each action runs, the
    order of a fix, process groups.
  \<^item> \<open>Audit_Log\<close> (agent/src/audit.rs), \<open>Ipc\<close> (agent/src/ipc.rs): the audit log with its rotation under injected
    faults; the requests, frames, server loop and client of the socket between command line and daemon.
  \<^item> \<open>Agent_Cli\<close> and \<open>Cluster_Cli\<close> (the commands of agent/src/main.rs, the types of agent/src/scene/types.rs): ps,
    why, zap, fix and the cluster commands, from the values of their arguments to the report, with the
    daemon and the hub they talk to; what each runs or sends.
  \<^item> \<open>Forwarder\<close> and \<open>Forwarder_Props\<close> (agent/src/hub_forwarder.rs and the event loop of agent/src/main.rs):
    the edge roll-up, the queue of unsent events, the commands of the hub.
  \<^item> \<open>Agent_Hub\<close>: agent and hub together.  The theorems below follow an event from the probe into the
    graph of the hub, and an action of the hub's policy to the commands on the machine.

  \<^bold>\<open>How code becomes definitions.\<close>  A struct is a record, an enum a datatype, a method a function from the
  old state to the result and the new state; an early return is a branch, an error a value of a sum.
  Each definition keeps the name of its function; a loop with its own logic is a definition next to it.
  Locks are dropped: a method that holds its locks is one step.  Unsigned integers are naturals, and where
  the code saturates or wraps, the model does.  The clock is an argument.  Code that is not part of the
  repository is a parameter: JSON and YAML codecs, the 64 bit hasher, the Kubernetes API server, the
  WebSocket connection, HTTP, the operating system; what is needed of a parameter is a hypothesis of the
  theorem, and its witness instantiates it.

  \<^bold>\<open>Termination and bounds.\<close>  The search over the graph and the walk over rule directories are total by a
  measure (unvisited nodes, remaining tree), as are the splitting of strings and the loop of the IPC server
  (remaining input).  The operator loop of the controller, which the code never
  leaves, takes its number of turns as an argument, and its theorems hold for every number.  No other
  definition has fuel.

  \<^bold>\<open>Not modelled.\<close>  Log output and metrics, which nothing reads back; socket set-up, and writes to a
  socket or an asynchronous file that fail after they were buffered; of the command line, reading the
  arguments and laying out the tables that are printed; the scene analysers, of which the commands modelled
  here use the types only; the agent's doctor and diagnosis commands, which probe the machine or ask an
  external service and print; plugins and probes, which are external programs or run in the kernel; the
  programs graph-stress and rules-migrate, a load generator and a rewriter of untyped YAML.
\<close>

section \<open>From the probe to the hub\<close>

text \<open>
  \<^bold>\<open>C28.\<close>  From the probe to the graph of the hub: the agent keeps every event in its own graph, and the
  hub, given the messages the agent sent in their order, is in the state it reaches by taking in the
  events the edge roll-up let through, each once, in order, with the machine filled in, up to the ones
  still waiting in the agent.  This holds on a network where a failed send breaks the connection, as
  long as the queue of the agent did not overflow, for a connection that is registered with the hub and
  a JSON text that hub and agent read alike.
\<close>

theorem agent_to_hub:
  assumes "list_all (same_json net env nid) es" "sticky net broken" "hm_get (tasks h) tx = Some m" "length es \<le> u64_max"
    and "start_forwarder (logged net) (Some url) nid (n, []) = (Some fw0, n0)"
    and "a = agent_events (logged net) es \<lparr>agent_graph = state_graph_new, agent_forwarder = Some fw0, agent_net = n0\<rparr>"
    and "agent_forwarder a = Some fw" "dropped_events_total fw = 0"
  shows "let through = fst (rollup es fw0); arrived = take (length through - length (pending_events fw)) through in
    agent_graph a = process_events es state_graph_new \<and>
    core (deliver env cfg tx (snd (agent_net a)) h) =
      ingest_all (to_json env) (hash64 env) (event_buffer_size cfg) (dedup_window_ms cfg)
        (map (stamp nid) arrived) (core h)"
proof -
  have st: "snd n0 = []" "fw_node_id fw0 = nid" "pending_events fw0 = []" "dropped_events_total fw0 = 0"
    using assms(5) by (auto simp: start_forwarder_def connect_def logged_def forwarder_new_def Let_def
        split: prod.splits bool.splits)
  have "agent_ok net broken [] nid \<lparr>agent_graph = state_graph_new, agent_forwarder = Some fw0, agent_net = n0\<rparr> fw0"
    by (simp add: agent_ok_def st queue_ok_def content_def)
  from agent_events_ok[OF this, of es] assms(4,6,7)
  have ok: "agent_ok net broken (map (wire net nid) (fst (rollup es fw0))) nid a fw"
    by (auto simp: agent_ok_def)
  define sent where "sent = snd (agent_net a)"
  have "subseq (content net fw sent) (map (wire net nid) (fst (rollup es fw0)))"
    "length (content net fw sent) = length (map (wire net nid) (fst (rollup es fw0)))"
    using ok assms(2,8) by (auto simp: agent_ok_def queue_ok_def sent_def content_def)
  from subseq_same_length[OF this]
  have c: "sent @ map (wire net nid) (pending_events fw) = map (wire net nid) (fst (rollup es fw0))"
    using ok by (simp add: content_def agent_ok_def)
  have len: "length sent = length (fst (rollup es fw0)) - length (pending_events fw)"
    using arg_cong[OF c, of length] by simp
  define arrived where "arrived = take (length sent) (fst (rollup es fw0))"
  have sent: "sent = map (wire net nid) arrived"
    using arg_cong[OF c, of "take (length sent)"] by (simp add: arrived_def take_map)
  have "list_all (same_json net env nid) arrived"
    using assms(1) rollup_subset[of es fw0] by (auto simp: arrived_def list_all_iff dest: in_set_takeD)
  from deliver_core[OF this assms(3)] have "core (deliver env cfg tx sent h) =
      ingest_all (to_json env) (hash64 env) (event_buffer_size cfg) (dedup_window_ms cfg) (map (stamp nid) arrived) (core h)"
    unfolding sent .
  moreover have "agent_graph a = process_events es state_graph_new" by (simp add: assms(6) agent_events_graph)
  ultimately show ?thesis by (simp add: Let_def sent_def[symmetric] arrived_def len)
qed

theorem agent_to_hub_witness:
  "core (deliver tick_env small_cfg 7 (snd (agent_net tick_agent)) (connect_agent 7 ''10.0.0.1'' small_hub)) =
     ingest_all ev_value sum_hash (event_buffer_size small_cfg) (dedup_window_ms small_cfg) [stamp ''n'' (tick 1)] (core small_hub)"
proof -
  let ?n = "((True, [True, False, False, False, False]), [])" and ?es = "[tick 1, tick 2, tick 3]"
  let ?fw = "(forwarder_new ''ws'' ''n'')\<lparr>ws_sender := True, command_listener := True\<rparr>"
  have s: "start_forwarder (logged flaky) (Some ''ws'') ''n'' ?n = (Some ?fw, ?n)"
    by (simp add: start_forwarder_def connect_def logged_def flaky_def forwarder_new_def)
  have a: "tick_agent = agent_events (logged flaky) ?es
      \<lparr>agent_graph = state_graph_new, agent_forwarder = Some ?fw, agent_net = ?n\<rparr>"
    by (simp add: tick_agent_def s)
  have "list_all always_sent ?es" by (simp add: tick_def always_sent_def)
  from agent_send_all[OF this, of "\<lparr>agent_graph = state_graph_new, agent_forwarder = Some ?fw, agent_net = ?n\<rparr>" ?fw "logged flaky"]
  have run: "agent_forwarder tick_agent = Some (fst (send_all (logged flaky) ?es ?fw ?n))"
    unfolding a by (simp add: case_prod_unfold Let_def del: send_all.simps)
  have fw: "dropped_events_total (fst (send_all (logged flaky) ?es ?fw ?n)) = 0"
    "length (pending_events (fst (send_all (logged flaky) ?es ?fw ?n))) = 2" by code_simp+
  have j: "list_all (same_json flaky tick_env ''n'') ?es" by code_simp
  have t: "hm_get (tasks (connect_agent 7 ''10.0.0.1'' small_hub)) 7 = Some ''node-10.0.0.1''" by code_simp
  have r: "fst (rollup ?es ?fw) = ?es" by (simp add: should_forward_def tick_def)
  have env: "to_json tick_env = ev_value" "hash64 tick_env = sum_hash"
    "core (connect_agent 7 ''10.0.0.1'' small_hub) = core small_hub"
    by (simp_all add: tick_env_def small_env_def connect_agent_def Let_def)
  note all = agent_to_hub[OF j flaky_sticky t _ s a run fw(1), of small_cfg, unfolded r fw(2) Let_def]
  have "length ?es \<le> u64_max" by (simp add: u64_max_def)
  from conjunct2[OF all[OF this]] show ?thesis unfolding env by simp
qed

section \<open>From the hub to the machine\<close>

text \<open>
  \<^bold>\<open>C29.\<close>  An action of the hub's policy is carried out as it was meant: for a process on a machine with an
  open connection the command is put on that connection, and the agent that receives it ends exactly
  that process, at once when the scene is a physical degradation, and otherwise after the signal that
  asks for a checkpoint.
\<close>

theorem policy_carried_out:
  assumes "a \<in> set (build_policy_actions scenes procs dry)"
    and "hm_get (connections h) (pa_node_id a) = Some tx" "tx \<in> set (chan_open h)"
  shows "\<exists>c. send_fix_command (pa_node_id a) (pa_target_pid a) (pa_action a) h = (Inr (), h\<lparr>outbox := outbox h @ [(tx, c)]\<rparr>) \<and>
    snd (snd (handle_command (traced sys) (received c) (w, []))) =
      (if degraded scenes then [kill_cmd ''-9'' (pa_target_pid a)]
       else [kill_cmd ''-10'' (pa_target_pid a), kill_cmd ''-9'' (pa_target_pid a)])"
proof -
  let ?c = "\<lparr>intent = ''fix'', target_pid = pa_target_pid a, command_action = Some (pa_action a)\<rparr>"
  have act: "pa_action a = (if degraded scenes then ''KillProcess'' else ''GracefulShutdown'')"
    using assms(1) by (auto simp: build_policy_actions_def List.map_filter_def Let_def split: option.splits)
  have "snd (snd (handle_command (traced sys) (received ?c) (w, []))) =
      (if degraded scenes then [kill_cmd ''-9'' (pa_target_pid a)]
       else [kill_cmd ''-10'' (pa_target_pid a), kill_cmd ''-9'' (pa_target_pid a)])"
    using execute_policy_traced[OF policy_action_understood(1), of "pa_target_pid a" sys w]
      execute_policy_traced[OF policy_action_understood(2), of "pa_target_pid a" sys w]
    by (simp add: received_def act show_ten)
  moreover have "send_fix_command (pa_node_id a) (pa_target_pid a) (pa_action a) h = (Inr (), h\<lparr>outbox := outbox h @ [(tx, ?c)]\<rparr>)"
    using assms(2,3) by (simp add: send_fix_command_def)
  ultimately show ?thesis by blast
qed

theorem policy_carried_out_witness:
  "let h = connect_agent 7 ''10.0.0.1'' small_hub;
       a = hd (build_policy_actions [''physical_degradation'']
             [\<lparr>pj_node_id = Some ''node-10.0.0.1'', pj_pid = Some 42, pj_node_id_full = None\<rparr>] False) in
   \<exists>c. send_fix_command (pa_node_id a) (pa_target_pid a) (pa_action a) h = (Inr (), h\<lparr>outbox := [(7, c)]\<rparr>) \<and>
     snd (snd (handle_command (traced (one_line [])) (received c) ([], []))) = [kill_cmd ''-9'' 42]"
proof -
  let ?h = "connect_agent 7 ''10.0.0.1'' small_hub"
  let ?as = "build_policy_actions [''physical_degradation'']
      [\<lparr>pj_node_id = Some ''node-10.0.0.1'', pj_pid = Some 42, pj_node_id_full = None\<rparr>] False"
  have v: "?as \<noteq> []" "pa_target_pid (hd ?as) = 42" "hm_get (connections ?h) (pa_node_id (hd ?as)) = Some 7"
    "7 \<in> set (chan_open ?h)" "outbox ?h = []" "degraded [''physical_degradation'']" by code_simp+
  from policy_carried_out[OF hd_in_set[OF v(1)] v(3,4), of "one_line []" "[]"] v(2,5,6)
  show ?thesis by (simp add: Let_def)
qed

end
